(* ===== verification/Prelude.thy ===== *)
theory Prelude
  imports Main
begin

text \<open>
  Shared vocabulary of the development: the Python exceptions the handlers of
  \<^verbatim>\<open>src/games_gui.py\<close> can raise, the result type of a Tk callback (an
  exception escapes to Tk's error reporter after the callback has already
  mutated part of the page state, so the state after the exception is kept),
  Python list indexing with negative indices, and the reachable-states
  predicate of a deterministic page driven by user events.  Every component
  theory instantiates \<open>reach\<close> with its own step function, start state and
  admissibility test for the random draws carried by events.
\<close>

named_theorems handler_simps "unfolding rules of the page handlers"
named_theorems wf_simps "rules unfolding well-formedness invariants"

subsection \<open>Python errors and callback results\<close>

datatype py_error = ValueError | IndexError | KeyError | TypeError | AttributeError

type_synonym 'a py_result = "py_error + 'a"

text \<open>
  A Tk callback either returns normally (\<open>Inr s\<close>) or raises; Tk prints the
  traceback and keeps running, so the state reached before the raise
  persists (\<open>Inl (e, s)\<close>).
\<close>

type_synonym 's tk_result = "(py_error \<times> 's) + 's"

fun tk_state :: "'s tk_result \<Rightarrow> 's" where
  "tk_state (Inl (_, s)) = s"
| "tk_state (Inr s) = s"

fun tk_raised :: "'s tk_result \<Rightarrow> py_error option" where
  "tk_raised (Inl (e, _)) = Some e"
| "tk_raised (Inr _) = None"

subsection \<open>Python list indexing\<close>

text \<open>\<open>xs[i]\<close>: negative indices count from the end, others raise IndexError.\<close>

definition py_norm_index :: "nat \<Rightarrow> int \<Rightarrow> int" where
  "py_norm_index n i = (if i < 0 then int n + i else i)"

definition py_index :: "'a list \<Rightarrow> int \<Rightarrow> 'a py_result" where
  "py_index xs i =
     (let j = py_norm_index (length xs) i
      in if 0 \<le> j \<and> j < int (length xs) then Inr (xs ! nat j) else Inl IndexError)"

text \<open>\<open>xs[i] = v\<close> on a list.\<close>

definition py_list_set :: "'a list \<Rightarrow> int \<Rightarrow> 'a \<Rightarrow> 'a list py_result" where
  "py_list_set xs i v =
     (let j = py_norm_index (length xs) i
      in if 0 \<le> j \<and> j < int (length xs) then Inr (xs[nat j := v]) else Inl IndexError)"

lemma py_index_nat [simp]: "n < length xs \<Longrightarrow> py_index xs (int n) = Inr (xs ! n)"
  by (simp add: py_index_def py_norm_index_def)

lemma py_list_set_nat [simp]:
  "n < length xs \<Longrightarrow> py_list_set xs (int n) v = Inr (xs[n := v])"
  by (simp add: py_list_set_def py_norm_index_def)

lemma py_index_Inr_iff:
  "py_index xs i = Inr x \<longleftrightarrow>
     (\<exists>j. py_norm_index (length xs) i = int j \<and> j < length xs \<and> x = xs ! j)"
  by (auto simp: py_index_def Let_def intro: exI [of _ "nat (py_norm_index (length xs) i)"])

lemma py_index_error_iff:
  "py_index xs i = Inl e \<longleftrightarrow>
     e = IndexError \<and> \<not> (- int (length xs) \<le> i \<and> i < int (length xs))"
  by (auto simp: py_index_def py_norm_index_def Let_def)

lemma py_list_set_error_iff:
  "py_list_set xs i v = Inl e \<longleftrightarrow>
     e = IndexError \<and> \<not> (- int (length xs) \<le> i \<and> i < int (length xs))"
  by (auto simp: py_list_set_def py_norm_index_def Let_def)

text \<open>
  \<open>random.choice(xs)\<close> with the generator's draw \<open>k\<close>: an element of a non-empty
  list, IndexError on the empty list.
\<close>

definition py_choice :: "'a list \<Rightarrow> nat \<Rightarrow> 'a py_result" where
  "py_choice xs k = (if xs = [] then Inl IndexError else Inr (xs ! (k mod length xs)))"

lemma py_choice_Inr: "py_choice xs k = Inr x \<Longrightarrow> x \<in> set xs"
  by (auto simp: py_choice_def split: if_splits)

text \<open>\<open>sep.join(xs)\<close> on single characters: the elements separated by \<open>c\<close>.\<close>

fun join_with :: "'a \<Rightarrow> 'a list \<Rightarrow> 'a list" where
  "join_with c [] = []"
| "join_with c [x] = [x]"
| "join_with c (x # y # zs) = x # c # join_with c (y # zs)"

subsection \<open>Reachable states of an event-driven page\<close>

text \<open>
  A page is a deterministic step function over user events; events that carry
  a random draw are admissible only when the draw is in the range of the
  generator (\<open>ok\<close>).  The pages that draw a random number while they are
  built start in any state the constructor can produce (\<open>start\<close>).  The
  reachable states are those of finitely many admissible events from a start
  state.
\<close>

inductive reach :: "('s \<Rightarrow> 'e \<Rightarrow> 's) \<Rightarrow> ('e \<Rightarrow> bool) \<Rightarrow> ('s \<Rightarrow> bool) \<Rightarrow> 's \<Rightarrow> bool"
  for step :: "'s \<Rightarrow> 'e \<Rightarrow> 's" and ok :: "'e \<Rightarrow> bool" and start :: "'s \<Rightarrow> bool" where
  reach_init: "start s \<Longrightarrow> reach step ok start s"
| reach_step: "reach step ok start s \<Longrightarrow> ok e \<Longrightarrow> reach step ok start (step s e)"

lemma reach_invariant:
  assumes "reach step ok start s"
    and "\<And>s. start s \<Longrightarrow> P s"
    and "\<And>s e. P s \<Longrightarrow> ok e \<Longrightarrow> P (step s e)"
  shows "P s"
  using assms(1) by (induction rule: reach.induct) (auto intro: assms(2,3))

lemma reach_foldl:
  "reach step ok start s \<Longrightarrow> list_all ok es \<Longrightarrow> reach step ok start (foldl step s es)"
proof (induction es arbitrary: s)
  case Nil
  then show ?case by simp
next
  case (Cons e es)
  then have "reach step ok start (step s e)" by (auto intro: reach_step)
  with Cons show ?case by simp
qed

lemma reach_run:
  "start s \<Longrightarrow> list_all ok es \<Longrightarrow> reach step ok start (foldl step s es)"
  by (rule reach_foldl [OF reach_init])

subsection \<open>Small facts on lists shared by the components\<close>

lemma count_list_update_plus:
  "i < length xs \<Longrightarrow>
   count_list (xs[i := v]) a + (if xs ! i = a then 1 else 0) =
     count_list xs a + (if v = a then 1 else 0)"
proof (induction xs arbitrary: i)
  case Nil
  then show ?case by simp
next
  case (Cons x xs)
  show ?case
  proof (cases i)
    case 0
    then show ?thesis by simp
  next
    case (Suc k)
    with Cons.prems have "k < length xs" by simp
    from Cons.IH [OF this] Suc show ?thesis by (auto split: if_splits)
  qed
qed

lemma count_list_concat_update_plus:
  "i < length xss \<Longrightarrow>
   count_list (concat (xss[i := ys])) a + count_list (xss ! i) a =
     count_list (concat xss) a + count_list ys a"
proof (induction xss arbitrary: i)
  case Nil
  then show ?case by simp
next
  case (Cons xs xss)
  then show ?case by (cases i) auto
qed

lemma tk_state_Inr: "\<not> isl r \<Longrightarrow> r = Inr (tk_state r)"
  by (cases r) auto

lemma py_result_Inr: "\<not> isl r \<Longrightarrow> r = Inr (projr r)"
  by (cases r) auto

lemma length_filter_mono_strict:
  assumes "\<And>x. Q x \<Longrightarrow> P x" and "c \<in> set xs" and "P c" and "\<not> Q c"
  shows "length (filter Q xs) < length (filter P xs)"
  using assms(2-4)
proof (induction xs)
  case Nil
  then show ?case by simp
next
  case (Cons x xs)
  have le: "length (filter Q xs) \<le> length (filter P xs)"
    using assms(1) by (induction xs) auto
  show ?case
  proof (cases "x = c")
    case True
    with Cons.prems le show ?thesis by simp
  next
    case False
    with Cons have "length (filter Q xs) < length (filter P xs)" by simp
    then show ?thesis using assms(1) by auto
  qed
qed

lemma concat_map_pair:
  "xs \<noteq> [] \<Longrightarrow> concat (map (\<lambda>l. [f l, c]) xs) = join_with c (map f xs) @ [c]"
  by (induction xs rule: induct_list012) auto

lemma join_with_eq_Nil [simp]: "join_with c ys = [] \<longleftrightarrow> ys = []"
  by (induction c ys rule: join_with.induct) auto

lemma hd_join_with: "ys \<noteq> [] \<Longrightarrow> hd (join_with c ys) = hd ys"
  by (induction c ys rule: join_with.induct) auto

lemma last_join_with: "ys \<noteq> [] \<Longrightarrow> last (join_with c ys) = last ys"
  by (induction c ys rule: join_with.induct) auto

lemma nth_nth_update_cell:
  "i < length b \<Longrightarrow> j < length (b ! i) \<Longrightarrow> i' < length b \<Longrightarrow>
   b[i := (b ! i)[j := v]] ! i' ! j' = (if i' = i \<and> j' = j then v else b ! i' ! j')"
  by (auto simp: nth_list_update)

end
