(* ===== verification/PyStr.thy ===== *)
theory PyStr
  imports Prelude
begin

text \<open>
  The Python string built-ins the handlers apply to the text of a Tk entry:
  \<^verbatim>\<open>int(s)\<close> (number guessing, higher-or-lower, dice betting),
  \<^verbatim>\<open>s.strip()\<close> and \<^verbatim>\<open>s.lower()\<close> (quiz answers, hangman words).
  A Python \<^verbatim>\<open>str\<close> is a sequence of code points; the model's \<open>string\<close>
  is a list of 8-bit \<open>char\<close>s read as the code points U+0000..U+00FF
  (Latin-1), where the Unicode tables Python consults are small enough to
  write out.  \<^verbatim>\<open>int\<close> follows CPython 3.11 and later for base 10:
  surrounding whitespace, one optional sign, ASCII digits with single
  underscores between digits, and at most 4300 digits.  A printer for ints
  (\<^verbatim>\<open>str(n)\<close>) is given so that parsing can be checked against it.
\<close>

subsection \<open>Character classes\<close>

text \<open>\<^verbatim>\<open>str.isspace\<close> on Latin-1: TAB..CR, FS..US, SPACE, NEL, NBSP.\<close>

definition py_isspace :: "char \<Rightarrow> bool" where
  "py_isspace c =
     (let n = (of_char c :: nat)
      in (9 \<le> n \<and> n \<le> 13) \<or> (28 \<le> n \<and> n \<le> 32) \<or> n = 133 \<or> n = 160)"

text \<open>Decimal digits accepted by \<^verbatim>\<open>int\<close>: Latin-1 has no decimal digit besides 0-9.\<close>

definition is_digit :: "char \<Rightarrow> bool" where
  "is_digit c = (let n = (of_char c :: nat) in 48 \<le> n \<and> n \<le> 57)"

definition digit_val :: "char \<Rightarrow> nat" where
  "digit_val c = of_char c - 48"

text \<open>\<^verbatim>\<open>str.lower\<close> on Latin-1: A-Z and U+00C0..U+00DE except U+00D7.\<close>

definition py_lower_char :: "char \<Rightarrow> char" where
  "py_lower_char c =
     (let n = (of_char c :: nat)
      in if (65 \<le> n \<and> n \<le> 90) \<or> (192 \<le> n \<and> n \<le> 222 \<and> n \<noteq> 215)
         then char_of (n + 32) else c)"

definition py_lower :: "string \<Rightarrow> string" where
  "py_lower s = map py_lower_char s"

definition py_strip :: "string \<Rightarrow> string" where
  "py_strip s = rev (dropWhile py_isspace (rev (dropWhile py_isspace s)))"

subsection \<open>\<^verbatim>\<open>int(s)\<close> in base 10\<close>

definition py_int_max_str_digits :: nat where
  "py_int_max_str_digits = 4300"

text \<open>
  The digit loop of CPython's \<^verbatim>\<open>long_from_string_base\<close>: \<open>prev\<close> is the
  previous character; an underscore after an underscore, or at the end, is an
  error.  The result is the value and the number of digits read.
\<close>

fun py_digits_acc :: "nat \<Rightarrow> nat \<Rightarrow> char \<Rightarrow> string \<Rightarrow> (nat \<times> nat) option" where
  "py_digits_acc v k prev [] = (if prev = CHR ''_'' then None else Some (v, k))"
| "py_digits_acc v k prev (c # cs) =
     (if is_digit c then py_digits_acc (10 * v + digit_val c) (Suc k) c cs
      else if c = CHR ''_'' \<and> prev \<noteq> CHR ''_'' then py_digits_acc v k c cs
      else None)"

definition py_digits :: "string \<Rightarrow> nat option" where
  "py_digits s =
     (case s of
        [] \<Rightarrow> None
      | c # cs \<Rightarrow>
          if is_digit c then
            (case py_digits_acc (digit_val c) 1 c cs of
               None \<Rightarrow> None
             | Some (v, k) \<Rightarrow> if py_int_max_str_digits < k then None else Some v)
          else None)"

definition py_int :: "string \<Rightarrow> int py_result" where
  "py_int s =
     (case py_strip s of
        [] \<Rightarrow> Inl ValueError
      | c # r \<Rightarrow>
          (let (sg, body) =
             (if c = CHR ''-'' then (-1 :: int, r)
              else if c = CHR ''+'' then (1, r) else (1, c # r))
           in case py_digits body of
                None \<Rightarrow> Inl ValueError
              | Some v \<Rightarrow> Inr (sg * int v)))"

subsection \<open>\<^verbatim>\<open>str(n)\<close> for ints\<close>

definition digit_char :: "nat \<Rightarrow> char" where
  "digit_char d = char_of (48 + d)"

fun nat_str :: "nat \<Rightarrow> string" where
  "nat_str n = (if n < 10 then [digit_char n] else nat_str (n div 10) @ [digit_char (n mod 10)])"

declare nat_str.simps [simp del]

definition py_str_int :: "int \<Rightarrow> string" where
  "py_str_int i = (if i < 0 then CHR ''-'' # nat_str (nat (- i)) else nat_str (nat i))"

subsection \<open>Lemmas\<close>

lemma digit_char_is_digit [simp]: "d < 10 \<Longrightarrow> is_digit (digit_char d)"
  by (simp add: is_digit_def digit_char_def)

lemma digit_val_digit_char [simp]: "d < 10 \<Longrightarrow> digit_val (digit_char d) = d"
  by (simp add: digit_val_def digit_char_def)

lemma is_digit_not_special:
  "is_digit c \<Longrightarrow> c \<noteq> CHR ''_''"
  "is_digit c \<Longrightarrow> c \<noteq> CHR ''-''"
  "is_digit c \<Longrightarrow> c \<noteq> CHR ''+''"
  "is_digit c \<Longrightarrow> \<not> py_isspace c"
  by (auto simp: is_digit_def py_isspace_def Let_def)

lemma nat_str_nonempty [simp]: "nat_str n \<noteq> []"
  by (subst nat_str.simps) simp

lemma nat_str_digits: "\<forall>c \<in> set (nat_str n). is_digit c"
proof (induction n rule: nat_str.induct)
  case (1 n)
  then show ?case by (subst nat_str.simps) auto
qed

lemma length_nat_str_le: "length (nat_str n) \<le> Suc n"
proof (induction n rule: nat_str.induct)
  case (1 n)
  show ?case
  proof (cases "n < 10")
    case True
    then show ?thesis by (subst nat_str.simps) simp
  next
    case False
    with "1.IH" have "length (nat_str (n div 10)) \<le> Suc (n div 10)" by simp
    moreover have "Suc (n div 10) < n" using False by linarith
    ultimately show ?thesis using False by (subst nat_str.simps) simp
  qed
qed

lemma length_nat_str_pos: "0 < length (nat_str n)"
  by (simp add: length_greater_0_conv)

text \<open>On a run of digits the loop is a left fold of the decimal step.\<close>

lemma py_digits_acc_digits:
  assumes "\<forall>c \<in> set cs. is_digit c" and "prev \<noteq> CHR ''_'' \<or> cs \<noteq> []"
  shows "py_digits_acc v k prev cs =
           Some (foldl (\<lambda>a c. 10 * a + digit_val c) v cs, k + length cs)"
  using assms
proof (induction cs arbitrary: v k prev)
  case Nil
  then show ?case by simp
next
  case (Cons c cs)
  then have "is_digit c" by simp
  moreover have "c \<noteq> CHR ''_''" using \<open>is_digit c\<close> by (rule is_digit_not_special)
  ultimately show ?case using Cons by simp
qed

lemma foldl_digits_nat_str:
  "foldl (\<lambda>a c. 10 * a + digit_val c) 0 (nat_str n) = n"
proof (induction n rule: nat_str.induct)
  case (1 n)
  show ?case
  proof (cases "n < 10")
    case True
    then show ?thesis by (subst nat_str.simps) simp
  next
    case False
    with "1.IH" have "foldl (\<lambda>a c. 10 * a + digit_val c) 0 (nat_str (n div 10)) = n div 10"
      by simp
    with False show ?thesis by (subst nat_str.simps) simp
  qed
qed

lemma py_digits_nat_str:
  assumes "length (nat_str n) \<le> py_int_max_str_digits"
  shows "py_digits (nat_str n) = Some n"
proof -
  obtain c cs where cs: "nat_str n = c # cs" by (cases "nat_str n") auto
  have dig: "\<forall>x \<in> set (c # cs). is_digit x"
    using nat_str_digits [of n] cs by auto
  then have "is_digit c" and "c \<noteq> CHR ''_''" by (auto dest: is_digit_not_special)
  then have acc: "py_digits_acc (digit_val c) 1 c cs =
      Some (foldl (\<lambda>a c. 10 * a + digit_val c) (digit_val c) cs, 1 + length cs)"
    using dig by (intro py_digits_acc_digits) auto
  have "foldl (\<lambda>a c. 10 * a + digit_val c) (digit_val c) cs = n"
    using foldl_digits_nat_str [of n] cs by simp
  with acc assms cs \<open>is_digit c\<close> show ?thesis by (simp add: py_digits_def)
qed

lemma py_strip_digits:
  assumes "\<forall>x \<in> set s. \<not> py_isspace x" and "s \<noteq> []"
  shows "py_strip s = s"
proof -
  have "dropWhile py_isspace s = s" using assms by (cases s) auto
  moreover have "dropWhile py_isspace (rev s) = rev s" using assms by (cases "rev s") auto
  ultimately show ?thesis by (simp add: py_strip_def)
qed

lemma nat_str_no_space: "\<forall>x \<in> set (nat_str n). \<not> py_isspace x"
  using nat_str_digits [of n] by (auto dest: is_digit_not_special)

lemma py_strip_nat_str [simp]: "py_strip (nat_str n) = nat_str n"
  using nat_str_no_space [of n] by (intro py_strip_digits) auto

lemma py_strip_minus_nat_str [simp]: "py_strip (CHR ''-'' # nat_str n) = CHR ''-'' # nat_str n"
proof -
  have "\<not> py_isspace (CHR ''-'')" by (simp add: py_isspace_def)
  then show ?thesis using nat_str_no_space [of n] by (intro py_strip_digits) auto
qed

lemma set_py_strip: "set (py_strip s) \<subseteq> set s"
proof -
  have "set (py_strip s) = set (dropWhile py_isspace (rev (dropWhile py_isspace s)))"
    by (simp add: py_strip_def)
  also have "\<dots> \<subseteq> set (rev (dropWhile py_isspace s))" by (auto dest: set_dropWhileD)
  also have "\<dots> \<subseteq> set s" by (auto dest: set_dropWhileD)
  finally show ?thesis .
qed

lemma in_dropWhile_keep: "x \<in> set s \<Longrightarrow> \<not> P x \<Longrightarrow> x \<in> set (dropWhile P s)"
  by (induction s) auto

lemma py_strip_keeps: "\<not> py_isspace x \<Longrightarrow> x \<in> set (py_strip s) \<longleftrightarrow> x \<in> set s"
proof
  assume "x \<in> set (py_strip s)"
  then show "x \<in> set s" using set_py_strip by blast
next
  assume "\<not> py_isspace x" and "x \<in> set s"
  then have "x \<in> set (dropWhile py_isspace s)" by (rule in_dropWhile_keep [rotated])
  then have "x \<in> set (dropWhile py_isspace (rev (dropWhile py_isspace s)))"
    using \<open>\<not> py_isspace x\<close> by (intro in_dropWhile_keep) auto
  then show "x \<in> set (py_strip s)" by (simp add: py_strip_def)
qed

lemma py_digits_no_digit: "\<forall>c \<in> set s. \<not> is_digit c \<Longrightarrow> py_digits s = None"
  by (cases s) (simp_all add: py_digits_def)

lemma py_int_nat_str: "length (nat_str n) \<le> py_int_max_str_digits \<Longrightarrow> py_int (nat_str n) = Inr (int n)"
proof -
  assume len: "length (nat_str n) \<le> py_int_max_str_digits"
  obtain c cs where cs: "nat_str n = c # cs" by (cases "nat_str n") auto
  then have "is_digit c" using nat_str_digits [of n] by simp
  then have "c \<noteq> CHR ''-''" and "c \<noteq> CHR ''+''" by (auto dest: is_digit_not_special)
  moreover have "py_strip (c # cs) = c # cs" using py_strip_nat_str [of n] cs by simp
  moreover have "py_digits (c # cs) = Some n" using py_digits_nat_str [OF len] cs by simp
  ultimately show ?thesis by (simp add: py_int_def cs)
qed

text \<open>
  Roundtrip: \<^verbatim>\<open>int(str(i)) == i\<close>; the parser reads back every
  integer the printer writes, as long as its decimal form has at most 4300
  digits (CPython's conversion limit).
\<close>

theorem py_int_str_roundtrip:
  assumes "length (nat_str (nat \<bar>i\<bar>)) \<le> py_int_max_str_digits"
  shows "py_int (py_str_int i) = Inr i"
proof (cases "i < 0")
  case True
  then have "nat \<bar>i\<bar> = nat (- i)" by simp
  with assms have "py_digits (nat_str (nat (- i))) = Some (nat (- i))"
    by (simp add: py_digits_nat_str)
  with True show ?thesis by (simp add: py_str_int_def py_int_def)
next
  case False
  then have "nat \<bar>i\<bar> = nat i" by simp
  with assms False show ?thesis by (simp add: py_str_int_def py_int_nat_str)
qed

theorem py_int_str_roundtrip_witness:
  "length (nat_str (nat \<bar>-305\<bar>)) \<le> py_int_max_str_digits \<and> py_int (py_str_int (-305)) = Inr (-305)"
proof -
  have h: "length (nat_str (nat \<bar>-305 :: int\<bar>)) \<le> py_int_max_str_digits" by code_simp
  show ?thesis using h py_int_str_roundtrip [OF h] by simp
qed

lemma py_strip_trailing:
  assumes "ys \<noteq> []" and "\<not> py_isspace (hd ys)" and "\<not> py_isspace (last ys)" and "py_isspace c"
  shows "py_strip (ys @ [c]) = ys"
proof -
  have "dropWhile py_isspace (ys @ [c]) = ys @ [c]" using assms(1,2) by (cases ys) simp_all
  moreover have "dropWhile py_isspace (rev ys) = rev ys" using assms(1,3) by (cases "rev ys") (simp_all add: last_rev [symmetric])
  ultimately show ?thesis using assms(4) by (simp add: py_strip_def)
qed

lemma py_int_str_small: "\<bar>n\<bar> < 4300 \<Longrightarrow> py_int (py_str_int n) = Inr n"
proof -
  assume n: "\<bar>n\<bar> < 4300"
  have "length (nat_str (nat \<bar>n\<bar>)) \<le> Suc (nat \<bar>n\<bar>)" by (rule length_nat_str_le)
  also have "\<dots> \<le> py_int_max_str_digits" using n by (simp add: py_int_max_str_digits_def)
  finally show ?thesis by (rule py_int_str_roundtrip)
qed

theorem py_int_no_digit:
  assumes "\<forall>c \<in> set s. \<not> is_digit c"
  shows "py_int s = Inl ValueError"
proof (cases "py_strip s")
  case Nil
  then show ?thesis by (simp add: py_int_def)
next
  case (Cons c r)
  have nd: "\<forall>x \<in> set (c # r). \<not> is_digit x"
    using assms set_py_strip [of s] Cons by auto
  then have "py_digits r = None" and "py_digits (c # r) = None"
    by (simp_all add: py_digits_no_digit)
  with Cons show ?thesis by (simp add: py_int_def)
qed

end
