(* ===== verification/Loaders.thy ===== *)
theory Loaders
  imports PyStr
begin

text \<open>
  The two data loaders at the top of \<^verbatim>\<open>src/games_gui.py\<close>,
  \<^verbatim>\<open>load_hangman_words\<close> and \<^verbatim>\<open>load_quiz_questions\<close>.  The file system
  and the JSON decoder are outside the model: a loader sees the outcome of
  opening and decoding its file, a value of \<open>file_src\<close> (the file is
  missing, reading or decoding raised, or it decoded to a JSON value).
  JSON values keep what the loaders inspect: the kind of each value and the
  strings.
\<close>

datatype json =
    JNull
  | JBool bool
  | JNum int
  | JStr string
  | JList "json list"
  | JObject "(string \<times> json) list"

datatype file_src = FileMissing | FileUnreadable | FileJson json

fun is_jstr :: "json \<Rightarrow> bool" where
  "is_jstr (JStr _) = True"
| "is_jstr _ = False"

fun jstr_val :: "json \<Rightarrow> string" where
  "jstr_val (JStr s) = s"
| "jstr_val _ = []"

text \<open>
  \<^verbatim>\<open>load_hangman_words\<close>: the lower-cased words of a JSON list of strings,
  and the sentinel \<^verbatim>\<open>["error"]\<close> for a missing file, a read or decode
  error, or any other shape.
\<close>

definition hangman_error_words :: "string list" where
  "hangman_error_words = [''error'']"

definition load_hangman_words :: "file_src \<Rightarrow> string list" where
  "load_hangman_words f =
     (case f of
        FileMissing \<Rightarrow> hangman_error_words
      | FileUnreadable \<Rightarrow> hangman_error_words
      | FileJson (JList xs) \<Rightarrow>
          if list_all is_jstr xs then map (\<lambda>x. py_lower (jstr_val x)) xs else hangman_error_words
      | FileJson _ \<Rightarrow> hangman_error_words)"

text \<open>
  \<^verbatim>\<open>load_quiz_questions\<close>: the decoded value as it is (no shape check), and
  the empty list for a missing file or a read or decode error.
\<close>

definition load_quiz_questions :: "file_src \<Rightarrow> json" where
  "load_quiz_questions f =
     (case f of
        FileMissing \<Rightarrow> JList []
      | FileUnreadable \<Rightarrow> JList []
      | FileJson j \<Rightarrow> j)"

text \<open>
  Python's operations on decoded values, as \<^verbatim>\<open>QuizGameGUI\<close> applies them
  to what \<^verbatim>\<open>load_quiz_questions\<close> returns: truth value (\<^verbatim>\<open>if
  self.questions\<close>), \<^verbatim>\<open>len\<close>, indexing by an int and by a string, and
  \<^verbatim>\<open>.strip().lower()\<close>.  A JSON object decodes to a dict in which a later
  duplicate key overrides an earlier one.
\<close>

fun py_truthy :: "json \<Rightarrow> bool" where
  "py_truthy JNull = False"
| "py_truthy (JBool b) = b"
| "py_truthy (JNum n) = (n \<noteq> 0)"
| "py_truthy (JStr s) = (s \<noteq> [])"
| "py_truthy (JList xs) = (xs \<noteq> [])"
| "py_truthy (JObject kvs) = (kvs \<noteq> [])"

fun py_len :: "json \<Rightarrow> int py_result" where
  "py_len (JStr s) = Inr (int (length s))"
| "py_len (JList xs) = Inr (int (length xs))"
| "py_len (JObject kvs) = Inr (int (length (remdups (map fst kvs))))"
| "py_len _ = Inl TypeError"

text \<open>\<open>v[i]\<close> for an int \<open>i\<close>: a dict has string keys only, so it raises KeyError.\<close>

fun py_getitem_int :: "json \<Rightarrow> int \<Rightarrow> json py_result" where
  "py_getitem_int (JList xs) i = py_index xs i"
| "py_getitem_int (JStr s) i = (case py_index s i of Inl e \<Rightarrow> Inl e | Inr c \<Rightarrow> Inr (JStr [c]))"
| "py_getitem_int (JObject _) _ = Inl KeyError"
| "py_getitem_int _ _ = Inl TypeError"

text \<open>\<open>v[k]\<close> for a string \<open>k\<close>: a lookup in a dict, a TypeError on anything else.\<close>

fun py_getitem_str :: "json \<Rightarrow> string \<Rightarrow> json py_result" where
  "py_getitem_str (JObject kvs) k = (case map_of (rev kvs) k of None \<Rightarrow> Inl KeyError | Some v \<Rightarrow> Inr v)"
| "py_getitem_str _ _ = Inl TypeError"

text \<open>\<open>v.strip().lower()\<close>: only a string has these methods.\<close>

fun py_strip_lower :: "json \<Rightarrow> string py_result" where
  "py_strip_lower (JStr s) = Inr (py_lower (py_strip s))"
| "py_strip_lower _ = Inl AttributeError"

subsection \<open>Lemmas\<close>

lemma py_lower_char_idem [simp]: "py_lower_char (py_lower_char c) = py_lower_char c"
  by (auto simp: py_lower_char_def Let_def)

lemma py_lower_idem [simp]: "py_lower (py_lower s) = py_lower s"
  by (simp add: py_lower_def comp_def)

lemma load_hangman_words_cases:
  "load_hangman_words f = hangman_error_words \<or>
   (\<exists>xs. f = FileJson (JList xs) \<and> list_all is_jstr xs \<and>
         load_hangman_words f = map (\<lambda>x. py_lower (jstr_val x)) xs)"
  by (auto simp: load_hangman_words_def split: file_src.split json.split)

lemma hangman_error_words_lower: "w \<in> set hangman_error_words \<Longrightarrow> py_lower w = w"
  by (simp add: hangman_error_words_def) code_simp

subsection \<open>Properties of the loaders\<close>

text \<open>
  Every word \<^verbatim>\<open>load_hangman_words\<close> returns is in lower
  case, the sentinel included: the page compares it with the lower-case
  letters of its buttons.
\<close>

theorem load_hangman_words_lower:
  assumes "w \<in> set (load_hangman_words f)"
  shows "py_lower w = w"
  using load_hangman_words_cases [of f] assms hangman_error_words_lower by auto

theorem load_hangman_words_lower_witness:
  "''cat'' \<in> set (load_hangman_words (FileJson (JList [JStr ''Cat'']))) \<and> py_lower ''cat'' = ''cat''"
proof -
  have m: "''cat'' \<in> set (load_hangman_words (FileJson (JList [JStr ''Cat''])))" by code_simp
  from m load_hangman_words_lower [OF m] show ?thesis by simp
qed

end
