(* ===== verification/TicTacToe.thy ===== *)
theory TicTacToe
  imports Prelude
begin

text \<open>
  The two-player tic-tac-toe page, class \<^verbatim>\<open>TicTacToeGUI\<close> of
  \<^verbatim>\<open>src/games_gui.py\<close>.  The page state is the board (a list of three rows of
  one-character strings \<^verbatim>\<open>' '\<close>, \<^verbatim>\<open>'X'\<close>, \<^verbatim>\<open>'O'\<close>), the player to move,
  the \<^verbatim>\<open>game_active\<close> flag, the nine cell buttons (text and enabled state,
  keyed by \<^verbatim>\<open>(row, col)\<close>) and the status label.  \<open>button_click\<close> is the
  handler for any integer coordinates, so that Python's indexing behaviour is
  visible; \<open>ttt_step\<close> is the page as the user drives it: a click reaches the
  handler only through an enabled button.
\<close>

abbreviation blank :: char where "blank \<equiv> CHR '' ''"
abbreviation mark_X :: char where "mark_X \<equiv> CHR ''X''"
abbreviation mark_O :: char where "mark_O \<equiv> CHR ''O''"

type_synonym board = "char list list"

record ttt_button =
  btn_text :: char
  btn_enabled :: bool

datatype ttt_status = Turn char | Wins char | Tie

record ttt_state =
  board :: board
  current_player :: char
  game_active :: bool
  buttons :: "int \<times> int \<Rightarrow> ttt_button option"
  ttt_status :: ttt_status

subsection \<open>Operations\<close>

definition empty_board :: board where
  "empty_board = replicate 3 (replicate 3 blank)"

definition fresh_buttons :: "int \<times> int \<Rightarrow> ttt_button option" where
  "fresh_buttons =
     (\<lambda>(r, c). if 0 \<le> r \<and> r < 3 \<and> 0 \<le> c \<and> c < 3
               then Some \<lparr>btn_text = blank, btn_enabled = True\<rparr> else None)"

text \<open>\<^verbatim>\<open>__init__\<close>: empty board, X to move, nine blank enabled buttons.\<close>

definition ttt_init :: ttt_state where
  "ttt_init =
     \<lparr>board = empty_board, current_player = mark_X, game_active = True,
      buttons = fresh_buttons, ttt_status = Turn mark_X\<rparr>"

text \<open>
  \<^verbatim>\<open>check_winner\<close>: rows, then columns, then the two diagonals; the first
  line of three equal non-blank cells gives its mark.
\<close>

definition check_winner :: "board \<Rightarrow> char option" where
  "check_winner b =
     (case find (\<lambda>i. b ! i ! 0 = b ! i ! 1 \<and> b ! i ! 1 = b ! i ! 2 \<and> b ! i ! 2 \<noteq> blank)
                [0, 1, 2] of
        Some i \<Rightarrow> Some (b ! i ! 0)
      | None \<Rightarrow>
          (case find (\<lambda>j. b ! 0 ! j = b ! 1 ! j \<and> b ! 1 ! j = b ! 2 ! j \<and> b ! 2 ! j \<noteq> blank)
                     [0, 1, 2] of
             Some j \<Rightarrow> Some (b ! 0 ! j)
           | None \<Rightarrow>
               if b ! 0 ! 0 = b ! 1 ! 1 \<and> b ! 1 ! 1 = b ! 2 ! 2 \<and> b ! 2 ! 2 \<noteq> blank
               then Some (b ! 0 ! 0)
               else if b ! 0 ! 2 = b ! 1 ! 1 \<and> b ! 1 ! 1 = b ! 2 ! 0 \<and> b ! 2 ! 0 \<noteq> blank
               then Some (b ! 0 ! 2)
               else None))"

text \<open>The tie test of \<^verbatim>\<open>button_click\<close>: every cell is non-blank.\<close>

definition all_filled :: "board \<Rightarrow> bool" where
  "all_filled b = list_all (\<lambda>i. list_all (\<lambda>j. b ! i ! j \<noteq> blank) [0, 1, 2]) [0, 1, 2]"

text \<open>\<^verbatim>\<open>self.board[row][col] = v\<close>.\<close>

definition board_set :: "board \<Rightarrow> int \<Rightarrow> int \<Rightarrow> char \<Rightarrow> board py_result" where
  "board_set b row col v =
     (case py_index b row of
        Inl e \<Rightarrow> Inl e
      | Inr r \<Rightarrow>
          (case py_list_set r col v of
             Inl e \<Rightarrow> Inl e
           | Inr r' \<Rightarrow> py_list_set b row r'))"

text \<open>\<^verbatim>\<open>disable_all_buttons\<close>: disable the buttons whose text is still blank.\<close>

definition disable_all_buttons :: "ttt_state \<Rightarrow> ttt_state" where
  "disable_all_buttons s =
     s\<lparr>buttons := (\<lambda>k. map_option
                          (\<lambda>bt. if btn_text bt = blank then bt\<lparr>btn_enabled := False\<rparr> else bt)
                          (buttons s k))\<rparr>"

text \<open>
  \<^verbatim>\<open>button_click(row, col)\<close>.  The guard reads \<^verbatim>\<open>self.board[row][col]\<close>
  only when the game is active; the board is written before the button is
  looked up in the \<^verbatim>\<open>buttons\<close> dictionary, so a key missing there raises
  after the write.
\<close>

definition button_click :: "int \<Rightarrow> int \<Rightarrow> ttt_state \<Rightarrow> ttt_state tk_result" where
  "button_click row col s =
     (if \<not> game_active s then Inr s
      else case py_index (board s) row of
        Inl e \<Rightarrow> Inl (e, s)
      | Inr r \<Rightarrow>
          (case py_index r col of
             Inl e \<Rightarrow> Inl (e, s)
           | Inr v \<Rightarrow>
               if v \<noteq> blank then Inr s
               else
                 (case board_set (board s) row col (current_player s) of
                    Inl e \<Rightarrow> Inl (e, s)
                  | Inr b' \<Rightarrow>
                      let s1 = s\<lparr>board := b'\<rparr> in
                      (case buttons s (row, col) of
                         None \<Rightarrow> Inl (KeyError, s1)
                       | Some bt \<Rightarrow>
                           let s2 = s1\<lparr>buttons := (buttons s1)((row, col) \<mapsto>
                                      bt\<lparr>btn_text := current_player s, btn_enabled := False\<rparr>)\<rparr>
                           in case check_winner b' of
                                Some w \<Rightarrow>
                                  Inr (disable_all_buttons
                                         (s2\<lparr>ttt_status := Wins w, game_active := False\<rparr>))
                              | None \<Rightarrow>
                                  if all_filled b' then
                                    Inr (s2\<lparr>ttt_status := Tie, game_active := False\<rparr>)
                                  else
                                    let p = (if current_player s = mark_X then mark_O else mark_X)
                                    in Inr (s2\<lparr>current_player := p, ttt_status := Turn p\<rparr>)))))"

text \<open>\<^verbatim>\<open>reset_game\<close>: clear the board, X to move, every button blank and enabled.\<close>

definition reset_game :: "ttt_state \<Rightarrow> ttt_state" where
  "reset_game s =
     s\<lparr>board := empty_board, current_player := mark_X, game_active := True,
       ttt_status := Turn mark_X,
       buttons := (\<lambda>k. map_option (\<lambda>bt. bt\<lparr>btn_text := blank, btn_enabled := True\<rparr>)
                                   (buttons s k))\<rparr>"

text \<open>
  User events of the page: a click on the button at \<^verbatim>\<open>(row, col)\<close> (Tk runs
  its command only while the button is enabled) and the New Game button.
  \<^verbatim>\<open>Back to Menu\<close> only raises another page (theory \<open>PageHost\<close>).
\<close>

datatype ttt_event = Click int int | NewGame

fun ttt_step :: "ttt_state \<Rightarrow> ttt_event \<Rightarrow> ttt_state" where
  "ttt_step s (Click r c) =
     (case buttons s (r, c) of
        Some bt \<Rightarrow> if btn_enabled bt then tk_state (button_click r c s) else s
      | None \<Rightarrow> s)"
| "ttt_step s NewGame = reset_game s"

abbreviation ttt_reachable :: "ttt_state \<Rightarrow> bool" where
  "ttt_reachable \<equiv> reach ttt_step (\<lambda>_. True) (\<lambda>s. s = ttt_init)"

subsection \<open>What the page promises\<close>

text \<open>
  The eight lines of the grid, the board predicates and the view of the
  buttons the page keeps in step with the board (a button shows its cell and
  is enabled exactly while the game is active and the cell is blank).
\<close>

definition ttt_lines :: "(nat \<times> nat) list list" where
  "ttt_lines =
     [[(0, 0), (0, 1), (0, 2)], [(1, 0), (1, 1), (1, 2)], [(2, 0), (2, 1), (2, 2)],
      [(0, 0), (1, 0), (2, 0)], [(0, 1), (1, 1), (2, 1)], [(0, 2), (1, 2), (2, 2)],
      [(0, 0), (1, 1), (2, 2)], [(0, 2), (1, 1), (2, 0)]]"

definition has_line :: "board \<Rightarrow> char \<Rightarrow> bool" where
  "has_line b p = list_ex (list_all (\<lambda>(i, j). b ! i ! j = p)) ttt_lines"

definition wf_board :: "board \<Rightarrow> bool" where
  "wf_board b \<longleftrightarrow>
     length b = 3 \<and>
     list_all (\<lambda>r. length r = 3 \<and> list_all (\<lambda>c. c = blank \<or> c = mark_X \<or> c = mark_O) r) b"

definition count_mark :: "board \<Rightarrow> char \<Rightarrow> nat" where
  "count_mark b p = count_list (concat b) p"

definition buttons_view :: "board \<Rightarrow> bool \<Rightarrow> int \<times> int \<Rightarrow> ttt_button option" where
  "buttons_view b act =
     (\<lambda>(r, c). if 0 \<le> r \<and> r < 3 \<and> 0 \<le> c \<and> c < 3
               then Some \<lparr>btn_text = b ! nat r ! nat c,
                          btn_enabled = (act \<and> b ! nat r ! nat c = blank)\<rparr>
               else None)"

definition ttt_inv :: "ttt_state \<Rightarrow> bool" where
  "ttt_inv s \<longleftrightarrow>
     wf_board (board s) \<and> (current_player s = mark_X \<or> current_player s = mark_O) \<and>
     buttons s = buttons_view (board s) (game_active s) \<and>
     (if game_active s then
        (count_mark (board s) mark_X = count_mark (board s) mark_O \<and> current_player s = mark_X \<or>
         count_mark (board s) mark_X = Suc (count_mark (board s) mark_O) \<and> current_player s = mark_O) \<and>
        \<not> all_filled (board s) \<and> ttt_status s = Turn (current_player s)
      else
        (count_mark (board s) mark_X = Suc (count_mark (board s) mark_O) \<and> current_player s = mark_X \<or>
         count_mark (board s) mark_X = count_mark (board s) mark_O \<and> current_player s = mark_O) \<and>
        (has_line (board s) (current_player s) \<or> all_filled (board s)) \<and>
        ttt_status s = (if has_line (board s) (current_player s)
                        then Wins (current_player s) else Tie)) \<and>
     (\<forall>p. p \<noteq> blank \<longrightarrow> has_line (board s) p \<longrightarrow>
          \<not> game_active s \<and> p = current_player s)"

text \<open>
  Moves left in the round: the blank cells while the game is active, none
  once it has ended.
\<close>

definition ttt_measure :: "ttt_state \<Rightarrow> nat" where
  "ttt_measure s = (if game_active s then count_mark (board s) blank else 0)"

text \<open>The scenarios of the spec's testable properties, as event sequences.\<close>

definition row_win_events :: "ttt_event list" where
  "row_win_events = [Click 0 0, Click 1 0, Click 0 1, Click 1 1, Click 0 2]"

definition tie_events :: "ttt_event list" where
  "tie_events = [Click 0 0, Click 0 1, Click 0 2, Click 1 1, Click 1 0, Click 1 2,
                 Click 2 1, Click 2 0, Click 2 2]"

subsection \<open>Lines and the winner check\<close>

lemma nat_less_3: "(i::nat) < 3 \<longleftrightarrow> i = 0 \<or> i = 1 \<or> i = 2"
  by auto

lemma nat_int_lt_3 [simp]: "0 \<le> r \<Longrightarrow> r < 3 \<Longrightarrow> nat r < 3"
  by simp

lemma ttt_lines_in_range: "l \<in> set ttt_lines \<Longrightarrow> (i, j) \<in> set l \<Longrightarrow> i < 3 \<and> j < 3"
  by (auto simp: ttt_lines_def)

lemma has_line_iff:
  "has_line b p \<longleftrightarrow> (\<exists>l \<in> set ttt_lines. \<forall>(i, j) \<in> set l. b ! i ! j = p)"
  by (simp add: has_line_def list_ex_iff list_all_iff)
lemma ttt_lines_three: "l \<in> set ttt_lines \<Longrightarrow> \<exists>x y z. l = [x, y, z]"
  by (auto simp: ttt_lines_def)
lemma check_winner_None_lines:
  "check_winner b = None \<longleftrightarrow>
     (\<forall>l \<in> set ttt_lines. \<not> ((\<lambda>(i, j). b ! i ! j) (l ! 0) = (\<lambda>(i, j). b ! i ! j) (l ! 1) \<and>
                               (\<lambda>(i, j). b ! i ! j) (l ! 1) = (\<lambda>(i, j). b ! i ! j) (l ! 2) \<and>
                               (\<lambda>(i, j). b ! i ! j) (l ! 2) \<noteq> blank))"
  by (simp add: check_winner_def ttt_lines_def)
lemma check_winner_Some:
  "check_winner b = Some p \<Longrightarrow> p \<noteq> blank \<and> has_line b p"
  by (auto simp: check_winner_def has_line_def ttt_lines_def split: if_splits option.splits)

lemma ttt_lines_cells:
  "l \<in> set ttt_lines \<Longrightarrow> \<exists>x1 x2 y1 y2 z1 z2. l = [(x1, x2), (y1, y2), (z1, z2)]"
  by (auto simp: ttt_lines_def)

lemma has_line_check_winner:
  assumes "has_line b p" and "p \<noteq> blank"
  shows "check_winner b \<noteq> None"
proof
  assume none: "check_winner b = None"
  from assms(1) obtain l where l: "l \<in> set ttt_lines"
    and all: "\<forall>(i, j) \<in> set l. b ! i ! j = p"
    by (auto simp: has_line_iff)
  from l obtain x1 x2 y1 y2 z1 z2 where xyz: "l = [(x1, x2), (y1, y2), (z1, z2)]"
    using ttt_lines_cells by blast
  from all xyz have "b ! x1 ! x2 = p" "b ! y1 ! y2 = p" "b ! z1 ! z2 = p" by auto
  moreover from none l have "\<not> ((\<lambda>(i, j). b ! i ! j) (l ! 0) = (\<lambda>(i, j). b ! i ! j) (l ! 1) \<and>
        (\<lambda>(i, j). b ! i ! j) (l ! 1) = (\<lambda>(i, j). b ! i ! j) (l ! 2) \<and>
        (\<lambda>(i, j). b ! i ! j) (l ! 2) \<noteq> blank)"
    unfolding check_winner_None_lines by (rule bspec)
  ultimately show False using xyz assms(2) by simp
qed

lemma check_winner_None:
  "check_winner b = None \<longleftrightarrow> (\<forall>p. p \<noteq> blank \<longrightarrow> \<not> has_line b p)"
proof
  assume none: "check_winner b = None"
  show "\<forall>p. p \<noteq> blank \<longrightarrow> \<not> has_line b p"
  proof (intro allI impI notI)
    fix p assume "p \<noteq> blank" and "has_line b p"
    then have "check_winner b \<noteq> None" by (intro has_line_check_winner)
    with none show False by contradiction
  qed
next
  assume none: "\<forall>p. p \<noteq> blank \<longrightarrow> \<not> has_line b p"
  show "check_winner b = None"
  proof (cases "check_winner b")
    case None
    then show ?thesis .
  next
    case (Some p)
    from check_winner_Some [OF this] none show ?thesis by blast
  qed
qed

subsection \<open>The board\<close>

lemma wf_board_iff:
  "wf_board b \<longleftrightarrow>
     length b = 3 \<and>
     (\<forall>i < 3. length (b ! i) = 3 \<and>
        (\<forall>j < 3. b ! i ! j = blank \<or> b ! i ! j = mark_X \<or> b ! i ! j = mark_O))"
proof
  assume wf: "wf_board b"
  then have len: "length b = 3" and rows: "\<forall>i < 3. length (b ! i) = 3 \<and>
      (\<forall>j < length (b ! i). b ! i ! j = blank \<or> b ! i ! j = mark_X \<or> b ! i ! j = mark_O)"
    by (auto simp: wf_board_def list_all_length)
  from rows have "\<forall>i < 3. length (b ! i) = 3 \<and>
      (\<forall>j < 3. b ! i ! j = blank \<or> b ! i ! j = mark_X \<or> b ! i ! j = mark_O)"
    by metis
  with len show "length b = 3 \<and> (\<forall>i < 3. length (b ! i) = 3 \<and>
      (\<forall>j < 3. b ! i ! j = blank \<or> b ! i ! j = mark_X \<or> b ! i ! j = mark_O))" by blast
next
  assume "length b = 3 \<and> (\<forall>i < 3. length (b ! i) = 3 \<and>
      (\<forall>j < 3. b ! i ! j = blank \<or> b ! i ! j = mark_X \<or> b ! i ! j = mark_O))"
  then show "wf_board b" by (auto simp: wf_board_def list_all_length)
qed

lemma all_filled_iff: "all_filled b \<longleftrightarrow> (\<forall>i < 3. \<forall>j < 3. b ! i ! j \<noteq> blank)"
  by (auto simp: all_filled_def nat_less_3)

lemma wf_board_empty [simp]: "wf_board empty_board"
  by (simp add: wf_board_def empty_board_def list_all_iff)

lemma empty_board_cell [simp]: "i < 3 \<Longrightarrow> j < 3 \<Longrightarrow> empty_board ! i ! j = blank"
  by (simp add: empty_board_def)

lemma count_mark_empty [simp]: "p \<noteq> blank \<Longrightarrow> count_mark empty_board p = 0"
  by (simp add: count_mark_def empty_board_def)

lemma has_line_empty [simp]: "p \<noteq> blank \<Longrightarrow> \<not> has_line empty_board p"
  by (simp add: has_line_def ttt_lines_def empty_board_def)

lemma all_filled_empty [simp]: "\<not> all_filled empty_board"
  by (simp add: all_filled_def empty_board_def)

text \<open>Writing one cell of a well-formed board.\<close>

lemma cell_update:
  assumes "wf_board b" "i < 3" "j < 3" "i' < 3"
  shows "b[i := (b ! i)[j := v]] ! i' ! j' = (if i' = i \<and> j' = j then v else b ! i' ! j')"
  using assms by (intro nth_nth_update_cell) (auto simp: wf_board_iff)

lemma wf_board_update:
  assumes "wf_board b" "i < 3" "j < 3" "v = blank \<or> v = mark_X \<or> v = mark_O"
  shows "wf_board (b[i := (b ! i)[j := v]])"
  using assms by (auto simp: wf_board_iff cell_update nth_list_update)

lemma count_mark_update:
  assumes "wf_board b" "i < 3" "j < 3"
  shows "count_mark (b[i := (b ! i)[j := v]]) p + (if b ! i ! j = p then 1 else 0) =
           count_mark b p + (if v = p then 1 else 0)"
proof -
  from assms have i: "i < length b" and j: "j < length (b ! i)" by (auto simp: wf_board_iff)
  have "count_list (concat (b[i := (b ! i)[j := v]])) p + count_list (b ! i) p =
          count_list (concat b) p + count_list ((b ! i)[j := v]) p"
    using i by (rule count_list_concat_update_plus)
  moreover have "count_list ((b ! i)[j := v]) p + (if b ! i ! j = p then 1 else 0) =
                   count_list (b ! i) p + (if v = p then 1 else 0)"
    using j by (rule count_list_update_plus)
  ultimately show ?thesis by (simp add: count_mark_def)
qed

lemma has_line_update:
  assumes "wf_board b" "i < 3" "j < 3" "has_line (b[i := (b ! i)[j := v]]) q" "q \<noteq> v"
  shows "has_line b q"
proof -
  from assms(4) obtain l where l: "l \<in> set ttt_lines"
    and cells: "\<forall>(i', j') \<in> set l. b[i := (b ! i)[j := v]] ! i' ! j' = q"
    by (auto simp: has_line_iff)
  have "\<forall>(i', j') \<in> set l. b ! i' ! j' = q"
  proof (intro ballI, clarify)
    fix i' j' assume mem: "(i', j') \<in> set l"
    with l have "i' < 3" by (auto dest: ttt_lines_in_range)
    with cells mem assms(1-3,5) show "b ! i' ! j' = q"
      by (fastforce simp: cell_update split: if_splits)
  qed
  with l show ?thesis by (auto simp: has_line_iff)
qed

subsection \<open>The buttons\<close>

lemma buttons_view_update:
  assumes "wf_board b" "i < 3" "j < 3"
  shows "buttons_view (b[i := (b ! i)[j := v]]) act =
           (buttons_view b act)((int i, int j) \<mapsto>
              \<lparr>btn_text = v, btn_enabled = (act \<and> v = blank)\<rparr>)"
proof
  fix k :: "int \<times> int"
  obtain r c where k: "k = (r, c)" by (cases k)
  show "buttons_view (b[i := (b ! i)[j := v]]) act k =
          ((buttons_view b act)((int i, int j) \<mapsto>
             \<lparr>btn_text = v, btn_enabled = (act \<and> v = blank)\<rparr>)) k"
  proof (cases "0 \<le> r \<and> r < 3 \<and> 0 \<le> c \<and> c < 3")
    case True
    then have "nat r < 3" and "(nat r = i \<and> nat c = j) \<longleftrightarrow> (r, c) = (int i, int j)" by auto
    with True k assms show ?thesis by (auto simp: buttons_view_def cell_update)
  next
    case False
    with k assms show ?thesis by (auto simp: buttons_view_def)
  qed
qed

lemma disable_all_buttons_view:
  "buttons s = buttons_view b act \<Longrightarrow> buttons (disable_all_buttons s) = buttons_view b False"
  by (auto simp: disable_all_buttons_def buttons_view_def)

lemma buttons_view_filled:
  assumes "all_filled b"
  shows "buttons_view b act = buttons_view b False"
proof
  fix k :: "int \<times> int"
  obtain r c where k: "k = (r, c)" by (cases k)
  have "0 \<le> r \<Longrightarrow> r < 3 \<Longrightarrow> 0 \<le> c \<Longrightarrow> c < 3 \<Longrightarrow> b ! nat r ! nat c \<noteq> blank"
    using assms by (simp add: all_filled_iff)
  with k show "buttons_view b act k = buttons_view b False k" by (auto simp: buttons_view_def)
qed

lemma buttons_view_enabled:
  "buttons_view b act (r, c) = Some bt \<Longrightarrow> btn_enabled bt \<Longrightarrow>
     act \<and> 0 \<le> r \<and> r < 3 \<and> 0 \<le> c \<and> c < 3 \<and> b ! nat r ! nat c = blank"
  by (auto simp: buttons_view_def split: if_splits)

subsection \<open>The invariant is kept by every operation\<close>

lemma ttt_inv_init: "ttt_inv ttt_init"
proof -
  have "fresh_buttons = buttons_view empty_board True"
    by (auto simp: fresh_buttons_def buttons_view_def nat_less_iff)
  then show ?thesis by (simp add: ttt_inv_def ttt_init_def)
qed

lemma ttt_inv_reset: "ttt_inv s \<Longrightarrow> ttt_inv (reset_game s)"
proof -
  assume inv: "ttt_inv s"
  then have "buttons s = buttons_view (board s) (game_active s)" by (simp add: ttt_inv_def)
  then have "(\<lambda>k. map_option (\<lambda>bt. bt\<lparr>btn_text := blank, btn_enabled := True\<rparr>) (buttons s k)) =
               buttons_view empty_board True"
    by (auto simp: buttons_view_def nat_less_iff)
  then show ?thesis by (simp add: ttt_inv_def reset_game_def)
qed

text \<open>A click on a blank cell of an active game, with the coordinates in range.\<close>

lemma button_click_move:
  assumes inv: "ttt_inv s" and act: "game_active s" and ij: "i < 3" "j < 3"
    and bl: "board s ! i ! j = blank"
  shows "button_click (int i) (int j) s =
    (let b' = (board s)[i := (board s ! i)[j := current_player s]];
         s2 = s\<lparr>board := b', buttons := (buttons s)((int i, int j) \<mapsto>
                 \<lparr>btn_text = current_player s, btn_enabled = False\<rparr>)\<rparr>
     in case check_winner b' of
          Some w \<Rightarrow> Inr (disable_all_buttons (s2\<lparr>ttt_status := Wins w, game_active := False\<rparr>))
        | None \<Rightarrow>
            if all_filled b' then Inr (s2\<lparr>ttt_status := Tie, game_active := False\<rparr>)
            else let p = (if current_player s = mark_X then mark_O else mark_X)
                 in Inr (s2\<lparr>current_player := p, ttt_status := Turn p\<rparr>))"
proof -
  from inv have wf: "wf_board (board s)"
    and btns: "buttons s = buttons_view (board s) (game_active s)"
    by (simp_all add: ttt_inv_def)
  then have len: "i < length (board s)" "j < length (board s ! i)"
    using ij by (auto simp: wf_board_iff)
  have set: "board_set (board s) (int i) (int j) (current_player s) =
               Inr ((board s)[i := (board s ! i)[j := current_player s]])"
    using len by (simp add: board_set_def)
  have bt: "buttons s (int i, int j) = Some \<lparr>btn_text = blank, btn_enabled = True\<rparr>"
    using btns act ij bl by (simp add: buttons_view_def)
  show ?thesis
    using act len bl set bt by (simp add: button_click_def Let_def split: option.split)
qed

lemma ttt_invI:
  assumes "wf_board (board s)" "current_player s = mark_X \<or> current_player s = mark_O"
    and "buttons s = buttons_view (board s) (game_active s)"
    and "game_active s \<Longrightarrow>
           (count_mark (board s) mark_X = count_mark (board s) mark_O \<and> current_player s = mark_X \<or>
            count_mark (board s) mark_X = Suc (count_mark (board s) mark_O) \<and>
            current_player s = mark_O) \<and>
           \<not> all_filled (board s) \<and> ttt_status s = Turn (current_player s)"
    and "\<not> game_active s \<Longrightarrow>
           (count_mark (board s) mark_X = Suc (count_mark (board s) mark_O) \<and>
            current_player s = mark_X \<or>
            count_mark (board s) mark_X = count_mark (board s) mark_O \<and> current_player s = mark_O) \<and>
           (has_line (board s) (current_player s) \<or> all_filled (board s)) \<and>
           ttt_status s = (if has_line (board s) (current_player s)
                           then Wins (current_player s) else Tie)"
    and "\<And>p. p \<noteq> blank \<Longrightarrow> has_line (board s) p \<Longrightarrow> \<not> game_active s \<and> p = current_player s"
  shows "ttt_inv s"
  using assms unfolding ttt_inv_def by (cases "game_active s") auto

lemma ttt_inv_click:
  assumes inv: "ttt_inv s" and act: "game_active s" and ij: "i < 3" "j < 3"
    and bl: "board s ! i ! j = blank"
  shows "ttt_inv (tk_state (button_click (int i) (int j) s))"
proof -
  let ?c = "current_player s"
  define b' where "b' = (board s)[i := (board s ! i)[j := ?c]]"
  define s2 where "s2 = s\<lparr>board := b', buttons := (buttons s)((int i, int j) \<mapsto>
                     \<lparr>btn_text = ?c, btn_enabled = False\<rparr>)\<rparr>"
  from inv act have wf: "wf_board (board s)" and cur: "?c = mark_X \<or> ?c = mark_O"
    and btns: "buttons s = buttons_view (board s) True"
    and cnt: "count_mark (board s) mark_X = count_mark (board s) mark_O \<and> ?c = mark_X \<or>
              count_mark (board s) mark_X = Suc (count_mark (board s) mark_O) \<and> ?c = mark_O"
    and nolines: "\<And>p. p \<noteq> blank \<Longrightarrow> \<not> has_line (board s) p"
    by (auto simp: ttt_inv_def)
  have cnb: "?c \<noteq> blank" using cur by auto
  have wf': "wf_board b'" using wf ij cur unfolding b'_def by (intro wf_board_update) auto
  have btns': "buttons s2 = buttons_view b' True"
    using buttons_view_update [OF wf ij, of ?c True] btns cnb by (simp add: s2_def b'_def)
  have cX: "count_mark b' mark_X = count_mark (board s) mark_X + (if ?c = mark_X then 1 else 0)"
    using count_mark_update [OF wf ij, of ?c mark_X] bl by (simp add: b'_def)
  have cO: "count_mark b' mark_O = count_mark (board s) mark_O + (if ?c = mark_O then 1 else 0)"
    using count_mark_update [OF wf ij, of ?c mark_O] bl by (simp add: b'_def)
  have ended: "count_mark b' mark_X = Suc (count_mark b' mark_O) \<and> ?c = mark_X \<or>
               count_mark b' mark_X = count_mark b' mark_O \<and> ?c = mark_O"
    using cnt cX cO by auto
  have lines': "\<And>p. p \<noteq> blank \<Longrightarrow> has_line b' p \<Longrightarrow> p = ?c"
    using has_line_update [OF wf ij] nolines unfolding b'_def by blast
  have click: "button_click (int i) (int j) s =
     (case check_winner b' of
        Some w \<Rightarrow> Inr (disable_all_buttons (s2\<lparr>ttt_status := Wins w, game_active := False\<rparr>))
      | None \<Rightarrow>
          if all_filled b' then Inr (s2\<lparr>ttt_status := Tie, game_active := False\<rparr>)
          else let p = (if ?c = mark_X then mark_O else mark_X)
               in Inr (s2\<lparr>current_player := p, ttt_status := Turn p\<rparr>))"
    unfolding b'_def s2_def using button_click_move [OF inv act ij bl] by (simp only: Let_def)
  have fields: "board s2 = b'" "current_player s2 = ?c" by (simp_all add: s2_def)
  show ?thesis
  proof (cases "check_winner b'")
    case (Some w)
    then have "w \<noteq> blank" and "has_line b' w" by (auto dest: check_winner_Some)
    with lines' have w: "w = ?c" and hl: "has_line b' ?c" by auto
    define t where "t = disable_all_buttons (s2\<lparr>ttt_status := Wins w, game_active := False\<rparr>)"
    have "buttons t = buttons_view b' False"
      unfolding t_def by (rule disable_all_buttons_view) (simp add: btns')
    moreover have "board t = b'" "current_player t = ?c" "game_active t = False"
      "ttt_status t = Wins ?c"
      using fields w unfolding t_def by (simp_all add: disable_all_buttons_def)
    ultimately have t: "board t = b'" "current_player t = ?c" "game_active t = False"
      "ttt_status t = Wins ?c" "buttons t = buttons_view b' False" by simp_all
    have "ttt_inv t"
      by (rule ttt_invI) (use t wf' cur ended hl lines' in simp_all)
    with Some click show ?thesis by (simp add: t_def)
  next
    case None
    then have nl: "\<And>p. p \<noteq> blank \<Longrightarrow> \<not> has_line b' p" by (simp add: check_winner_None)
    show ?thesis
    proof (cases "all_filled b'")
      case True
      define t where "t = s2\<lparr>ttt_status := Tie, game_active := False\<rparr>"
      have t: "board t = b'" "current_player t = ?c" "game_active t = False"
        "ttt_status t = Tie" "buttons t = buttons_view b' False"
        using btns' fields buttons_view_filled [OF True] unfolding t_def by simp_all
      have "ttt_inv t"
        by (rule ttt_invI) (use t wf' cur ended True nl cnb in simp_all)
      with None True click show ?thesis by (simp add: t_def)
    next
      case False
      let ?p = "if ?c = mark_X then mark_O else mark_X"
      define t where "t = s2\<lparr>current_player := ?p, ttt_status := Turn ?p\<rparr>"
      have t: "board t = b'" "current_player t = ?p" "game_active t = True"
        "ttt_status t = Turn ?p" "buttons t = buttons_view b' True"
        using btns' fields act unfolding t_def by (simp_all add: s2_def)
      have turn: "count_mark b' mark_X = count_mark b' mark_O \<and> ?p = mark_X \<or>
                  count_mark b' mark_X = Suc (count_mark b' mark_O) \<and> ?p = mark_O"
        using cnt cX cO by auto
      have "ttt_inv t"
        by (rule ttt_invI) (use t wf' turn False nl in simp_all)
      with None False click show ?thesis by (simp add: t_def Let_def)
    qed
  qed
qed

lemma ttt_inv_step: "ttt_inv s \<Longrightarrow> ttt_inv (ttt_step s e)"
proof (cases e)
  case (Click r c)
  assume inv: "ttt_inv s"
  show ?thesis
  proof (cases "buttons s (r, c)")
    case None
    with Click inv show ?thesis by simp
  next
    case (Some bt)
    show ?thesis
    proof (cases "btn_enabled bt")
      case True
      from inv have "buttons s = buttons_view (board s) (game_active s)" by (simp add: ttt_inv_def)
      with Some True have act: "game_active s" and rc: "0 \<le> r" "r < 3" "0 \<le> c" "c < 3"
        and bl: "board s ! nat r ! nat c = blank"
        using buttons_view_enabled by metis+
      have "ttt_inv (tk_state (button_click (int (nat r)) (int (nat c)) s))"
        using rc by (intro ttt_inv_click [OF inv act _ _ bl]) auto
      with rc Click Some True show ?thesis by simp
    next
      case False
      with Click Some inv show ?thesis by simp
    qed
  qed
next
  case NewGame
  assume "ttt_inv s"
  with NewGame show ?thesis by (simp add: ttt_inv_reset)
qed

lemma ttt_reachable_inv: "ttt_reachable s \<Longrightarrow> ttt_inv s"
  by (erule reach_invariant) (auto intro: ttt_inv_init ttt_inv_step)

lemma ttt_reachable_run: "ttt_reachable (foldl ttt_step ttt_init es)"
  by (rule reach_run) (simp_all add: list_all_iff)

lemma count_blank_pos: "wf_board b \<Longrightarrow> \<not> all_filled b \<Longrightarrow> 0 < count_mark b blank"
proof -
  assume wf: "wf_board b" and nf: "\<not> all_filled b"
  then obtain i j where ij: "i < 3" "j < 3" "b ! i ! j = blank" by (auto simp: all_filled_iff)
  with wf have "j < length (b ! i)" and "i < length b" by (auto simp: wf_board_iff)
  with ij have "blank \<in> set (b ! i)" and "b ! i \<in> set b" by (metis nth_mem)+
  then have "blank \<in> set (concat b)" by auto
  then have "count_list (concat b) blank \<noteq> 0" by (simp add: count_list_0_iff)
  then show ?thesis by (simp add: count_mark_def)
qed

lemma ttt_inv_wf: "ttt_inv s \<Longrightarrow> wf_board (board s)"
  by (simp add: ttt_inv_def)
lemma ttt_inv_player: "ttt_inv s \<Longrightarrow> current_player s = mark_X \<or> current_player s = mark_O"
  by (simp add: ttt_inv_def)
lemma ttt_inv_buttons: "ttt_inv s \<Longrightarrow> buttons s = buttons_view (board s) (game_active s)"
  by (simp add: ttt_inv_def)
lemma ttt_inv_counts:
  "ttt_inv s \<Longrightarrow> count_mark (board s) mark_X = count_mark (board s) mark_O \<or>
                 count_mark (board s) mark_X = Suc (count_mark (board s) mark_O)"
  unfolding ttt_inv_def by (cases "game_active s") (simp_all, blast+)
lemma ttt_inv_active: "ttt_inv s \<Longrightarrow> game_active s \<Longrightarrow> \<not> all_filled (board s)"
  by (simp add: ttt_inv_def)
lemma ttt_inv_lines:
  "ttt_inv s \<Longrightarrow> p \<noteq> blank \<Longrightarrow> has_line (board s) p \<Longrightarrow> \<not> game_active s \<and> p = current_player s"
  unfolding ttt_inv_def by blast

lemma button_click_board:
  assumes "ttt_inv s" "game_active s" "i < 3" "j < 3" "board s ! i ! j = blank"
  shows "board (tk_state (button_click (int i) (int j) s)) =
           (board s)[i := (board s ! i)[j := current_player s]]"
  using button_click_move [OF assms]
  by (simp add: Let_def disable_all_buttons_def split: option.split)

lemma ttt_enabled_click:
  assumes "ttt_inv s" "buttons s (r, c) = Some bt" "btn_enabled bt"
  shows "game_active s \<and> 0 \<le> r \<and> r < 3 \<and> 0 \<le> c \<and> c < 3 \<and>
         board s ! nat r ! nat c = blank"
proof -
  from assms(1) have "buttons s = buttons_view (board s) (game_active s)" by (rule ttt_inv_buttons)
  with assms(2,3) show ?thesis using buttons_view_enabled by metis
qed

lemma count_mark_le_9: "wf_board b \<Longrightarrow> count_mark b p \<le> 9"
proof -
  assume wf: "wf_board b"
  have "count_list (concat b) p \<le> length (concat b)" by (rule count_le_length)
  moreover have "length (concat b) = 9"
  proof -
    from wf have "length b = 3" and "\<forall>r \<in> set b. length r = 3"
      by (auto simp: wf_board_def list_all_iff)
    then have m: "map length b = map (\<lambda>_. 3::nat) b" by simp
    have "length (concat b) = sum_list (map length b)" by (simp add: length_concat)
    also have "\<dots> = sum_list (map (\<lambda>_. 3::nat) b)" by (simp only: m)
    also have "\<dots> = length b * 3" by (simp add: sum_list_triv)
    finally show ?thesis using \<open>length b = 3\<close> by simp
  qed
  ultimately show ?thesis by (simp add: count_mark_def)
qed


subsection \<open>Properties of the page\<close>

text \<open>
  C1 (safety).  In every state the page can reach, at most one player has
  three in a row: the game stops at the first completed line, so no game
  shows two winners.
\<close>

theorem ttt_single_winner:
  assumes "ttt_reachable s" and "p \<noteq> blank" and "q \<noteq> blank"
    and "has_line (board s) p" and "has_line (board s) q"
  shows "p = q"
  using ttt_reachable_inv [OF assms(1)] assms(2-5) by (auto simp: ttt_inv_def)

theorem ttt_single_winner_witness:
  "ttt_reachable (foldl ttt_step ttt_init row_win_events) \<and>
   has_line (board (foldl ttt_step ttt_init row_win_events)) mark_X \<and> mark_X = mark_X"
proof -
  have r: "ttt_reachable (foldl ttt_step ttt_init row_win_events)" by (rule ttt_reachable_run)
  have h: "has_line (board (foldl ttt_step ttt_init row_win_events)) mark_X"
    by code_simp
  from ttt_single_winner [OF r _ _ h h] r h show ?thesis by simp
qed

text \<open>
  C2 (invariant).  Every reachable state keeps a 3x3 board of blanks, X and O
  in which X has played as often as O or once more, and each cell button
  shows its cell and is enabled exactly while the game is active and the cell
  is blank: a played cell cannot be chosen again.
\<close>

theorem ttt_reachable_invariant:
  assumes "ttt_reachable s"
  shows "wf_board (board s) \<and>
         count_mark (board s) mark_O \<le> count_mark (board s) mark_X \<and>
         count_mark (board s) mark_X \<le> Suc (count_mark (board s) mark_O) \<and>
         buttons s = buttons_view (board s) (game_active s)"
proof -
  from assms have inv: "ttt_inv s" by (rule ttt_reachable_inv)
  then have "count_mark (board s) mark_X = count_mark (board s) mark_O \<or>
             count_mark (board s) mark_X = Suc (count_mark (board s) mark_O)" by (rule ttt_inv_counts)
  then have "count_mark (board s) mark_O \<le> count_mark (board s) mark_X \<and>
             count_mark (board s) mark_X \<le> Suc (count_mark (board s) mark_O)" by auto
  with ttt_inv_wf [OF inv] ttt_inv_buttons [OF inv] show ?thesis by blast
qed

theorem ttt_reachable_invariant_witness:
  "ttt_reachable (foldl ttt_step ttt_init tie_events) \<and>
   buttons (foldl ttt_step ttt_init tie_events) =
     buttons_view (board (foldl ttt_step ttt_init tie_events))
                  (game_active (foldl ttt_step ttt_init tie_events))"
proof -
  have r: "ttt_reachable (foldl ttt_step ttt_init tie_events)" by (rule ttt_reachable_run)
  from ttt_reachable_invariant [OF r] r show ?thesis by simp
qed

text \<open>
  C3 (functional).  \<^verbatim>\<open>check_winner\<close> answers the mark of a completed line
  whenever the board has one, and \<^verbatim>\<open>None\<close> only when no non-blank mark
  fills a row, a column or a diagonal.
\<close>

theorem check_winner_correct:
  "case check_winner b of
     None \<Rightarrow> \<forall>p. p \<noteq> blank \<longrightarrow> \<not> has_line b p
   | Some p \<Rightarrow> p \<noteq> blank \<and> has_line b p"
  by (cases "check_winner b") (simp_all add: check_winner_Some check_winner_None [symmetric])

theorem check_winner_correct_witness:
  "check_winner [''XOX'', ''XOO'', ''OXX''] = None \<and>
   \<not> has_line [''XOX'', ''XOO'', ''OXX''] mark_X"
proof -
  have n: "check_winner [''XOX'', ''XOO'', ''OXX''] = None" by code_simp
  from check_winner_correct [of "[''XOX'', ''XOO'', ''OXX'']"] n show ?thesis by simp
qed

text \<open>
  C27 (functional).  A click while the game is over, or on a cell that is
  already marked, returns without changing anything.
\<close>

theorem button_click_noop:
  assumes "\<not> game_active s \<or>
           (py_index (board s) r = Inr row \<and> py_index row c = Inr v \<and> v \<noteq> blank)"
  shows "button_click r c s = Inr s"
  using assms by (auto simp: button_click_def)

theorem button_click_noop_witness:
  "button_click 0 0 (foldl ttt_step ttt_init [Click 0 0]) = Inr (foldl ttt_step ttt_init [Click 0 0])"
proof -
  have "py_index (board (foldl ttt_step ttt_init [Click 0 0])) 0 = Inr ''X  '' \<and>
        py_index ''X  '' 0 = Inr mark_X \<and> mark_X \<noteq> blank"
    by code_simp
  then show ?thesis by (intro button_click_noop) blast
qed

text \<open>
  C38 (error).  A negative row in -3..-1 is not out of range for Python: the
  guard reads the cell \<^verbatim>\<open>board[r][c]\<close> counted from the end, the handler
  writes the mark there, and only then raises KeyError, because the buttons
  dictionary has no key \<^verbatim>\<open>(r, c)\<close>; the player is not switched and the
  button is not updated.
\<close>

theorem button_click_negative_row:
  assumes "ttt_inv s" and "game_active s" and "-3 \<le> r" and "r < 0" and "0 \<le> c" and "c < 3"
    and "board s ! nat (r + 3) ! nat c = blank"
  shows "button_click r c s =
           Inl (KeyError, s\<lparr>board := (board s)[nat (r + 3) :=
                                (board s ! nat (r + 3))[nat c := current_player s]]\<rparr>)"
proof -
  from assms(1) have wf: "wf_board (board s)"
    and btns: "buttons s = buttons_view (board s) (game_active s)"
    by (rule ttt_inv_wf, rule ttt_inv_buttons)
  have i: "nat (r + 3) < 3" and j: "nat c < 3" using assms(3-6) by auto
  with wf have len: "length (board s) = 3" "length (board s ! nat (r + 3)) = 3"
    by (auto simp: wf_board_iff)
  have row: "py_index (board s) r = Inr (board s ! nat (r + 3))"
    using len assms(3,4) by (simp add: py_index_def py_norm_index_def add.commute)
  have cell: "py_index (board s ! nat (r + 3)) c = Inr (board s ! nat (r + 3) ! nat c)"
    using len assms(5,6) by (simp add: py_index_def py_norm_index_def)
  have set: "board_set (board s) r c (current_player s) =
               Inr ((board s)[nat (r + 3) := (board s ! nat (r + 3))[nat c := current_player s]])"
    using row len assms(3-6)
    by (simp add: board_set_def py_list_set_def py_norm_index_def add.commute Let_def)
  have "buttons s (r, c) = None" using btns assms(4) by (simp add: buttons_view_def)
  with assms(2,7) row cell set show ?thesis by (simp add: button_click_def)
qed

theorem button_click_negative_row_witness:
  "tk_raised (button_click (-1) 0 ttt_init) = Some KeyError \<and>
   board (tk_state (button_click (-1) 0 ttt_init)) = [''   '', ''   '', ''X  '']"
proof -
  have b: "board ttt_init ! nat (-1 + 3) ! nat 0 = blank" by code_simp
  have h: "ttt_inv ttt_init" "game_active ttt_init" "-3 \<le> (-1::int)" "(-1::int) < 0"
    "0 \<le> (0::int)" "(0::int) < 3"
    by (simp_all add: ttt_inv_init) (simp add: ttt_init_def)
  show ?thesis
    unfolding button_click_negative_row [OF h b] by code_simp
qed

text \<open>
  A row index outside -3..2 makes \<^verbatim>\<open>board[row]\<close> raise
  IndexError before anything is written.
\<close>

theorem button_click_out_of_range:
  assumes "ttt_inv s" and "game_active s" and "r < -3 \<or> 3 \<le> r"
  shows "button_click r c s = Inl (IndexError, s)"
proof -
  from ttt_inv_wf [OF assms(1)] have "length (board s) = 3" by (simp add: wf_board_def)
  with assms(3) have "py_index (board s) r = Inl IndexError" by (auto simp: py_index_error_iff)
  with assms(2) show ?thesis by (simp add: button_click_def)
qed

theorem button_click_out_of_range_witness:
  "button_click 3 0 ttt_init = Inl (IndexError, ttt_init)"
  using button_click_out_of_range [OF ttt_inv_init] by (simp add: ttt_init_def)

text \<open>
  C4 (termination).  Every click either leaves the page unchanged (disabled
  button) or strictly decreases the number of moves left in the round, which
  is at most 9: a round ends after at most nine effective clicks.
\<close>

theorem ttt_click_progress:
  assumes "ttt_reachable s"
  shows "ttt_measure s \<le> 9 \<and>
         (ttt_step s (Click r c) = s \<or> ttt_measure (ttt_step s (Click r c)) < ttt_measure s)"
proof -
  from assms have inv: "ttt_inv s" by (rule ttt_reachable_inv)
  then have wf: "wf_board (board s)" by (rule ttt_inv_wf)
  have le9: "ttt_measure s \<le> 9" using count_mark_le_9 [OF wf] by (simp add: ttt_measure_def)
  have "ttt_step s (Click r c) = s \<or> ttt_measure (ttt_step s (Click r c)) < ttt_measure s"
  proof (cases "\<exists>bt. buttons s (r, c) = Some bt \<and> btn_enabled bt")
    case False
    then show ?thesis by (auto split: option.split)
  next
    case True
    then obtain bt where bt: "buttons s (r, c) = Some bt" "btn_enabled bt" by blast
    from ttt_enabled_click [OF inv bt] have act: "game_active s"
      and rc: "0 \<le> r" "r < 3" "0 \<le> c" "c < 3" and bl: "board s ! nat r ! nat c = blank" by auto
    have i: "nat r < 3" "nat c < 3" using rc by auto
    let ?t = "tk_state (button_click (int (nat r)) (int (nat c)) s)"
    have step: "ttt_step s (Click r c) = ?t" using bt rc by simp
    have "board ?t = (board s)[nat r := (board s ! nat r)[nat c := current_player s]]"
      by (rule button_click_board [OF inv act i bl])
    moreover have "current_player s \<noteq> blank" using ttt_inv_player [OF inv] by auto
    ultimately have "count_mark (board ?t) blank + 1 = count_mark (board s) blank"
      using count_mark_update [OF wf i, of "current_player s" blank] bl by simp
    then have "ttt_measure ?t < ttt_measure s" using act by (simp add: ttt_measure_def)
    with step show ?thesis by simp
  qed
  with le9 show ?thesis by blast
qed

theorem ttt_click_progress_witness:
  "ttt_reachable ttt_init \<and> ttt_measure ttt_init \<le> 9"
proof -
  have r: "ttt_reachable ttt_init" by (rule reach_init) simp
  from ttt_click_progress [OF r, of 1 1] r show ?thesis by simp
qed

text \<open>
  While a reachable game is active some cell button is blank
  and enabled, so the player to move always has a move.
\<close>

theorem ttt_active_has_move:
  assumes "ttt_reachable s" and "game_active s"
  shows "\<exists>r c. buttons s (r, c) = Some \<lparr>btn_text = blank, btn_enabled = True\<rparr>"
proof -
  from assms(1) have inv: "ttt_inv s" by (rule ttt_reachable_inv)
  from inv assms(2) have "\<not> all_filled (board s)" by (rule ttt_inv_active)
  then obtain i j where ij: "i < 3" "j < 3" "board s ! i ! j = blank" by (auto simp: all_filled_iff)
  with ttt_inv_buttons [OF inv] assms(2)
  have "buttons s (int i, int j) = Some \<lparr>btn_text = blank, btn_enabled = True\<rparr>"
    by (simp add: buttons_view_def)
  then show ?thesis by blast
qed

theorem ttt_active_has_move_witness:
  "\<exists>r c. buttons (foldl ttt_step ttt_init [Click 1 1]) (r, c) =
          Some \<lparr>btn_text = blank, btn_enabled = True\<rparr>"
proof -
  have a: "game_active (foldl ttt_step ttt_init [Click 1 1])" by code_simp
  show ?thesis by (rule ttt_active_has_move [OF ttt_reachable_run a])
qed

text \<open>
  A move of the player to move on a reachable active board
  never completes a line of the other player.
\<close>

lemma ttt_no_other_line:
  assumes "ttt_inv s" and "game_active s" and "i < 3" and "j < 3"
    and "q \<noteq> blank" and "q \<noteq> current_player s"
  shows "\<not> has_line ((board s)[i := (board s ! i)[j := current_player s]]) q"
proof
  assume h: "has_line ((board s)[i := (board s ! i)[j := current_player s]]) q"
  have "has_line (board s) q" by (rule has_line_update [OF ttt_inv_wf [OF assms(1)] assms(3,4) h assms(6)])
  with ttt_inv_lines [OF assms(1) assms(5)] assms(2) show False by blast
qed

text \<open>
  C14 (functional).  A click on an enabled button of a reachable page
  writes the mark of the player to move into its cell, and then: if the
  mark completes a line, that player wins, the game stops and every button
  is disabled; otherwise a full board is a tie and ends the game; otherwise
  the other player is to move and the status says so.
\<close>

theorem ttt_click_outcome:
  assumes "ttt_reachable s" and "buttons s (r, c) = Some bt" and "btn_enabled bt"
  shows "board (ttt_step s (Click r c)) = (board s)[nat r := (board s ! nat r)[nat c := current_player s]] \<and>
    (has_line (board (ttt_step s (Click r c))) (current_player s) \<longrightarrow>
       ttt_status (ttt_step s (Click r c)) = Wins (current_player s) \<and>
       \<not> game_active (ttt_step s (Click r c)) \<and>
       (\<forall>k b. buttons (ttt_step s (Click r c)) k = Some b \<longrightarrow> \<not> btn_enabled b)) \<and>
    (\<not> has_line (board (ttt_step s (Click r c))) (current_player s) \<and>
     all_filled (board (ttt_step s (Click r c))) \<longrightarrow>
       ttt_status (ttt_step s (Click r c)) = Tie \<and> \<not> game_active (ttt_step s (Click r c))) \<and>
    (\<not> has_line (board (ttt_step s (Click r c))) (current_player s) \<and>
     \<not> all_filled (board (ttt_step s (Click r c))) \<longrightarrow>
       game_active (ttt_step s (Click r c)) \<and> current_player (ttt_step s (Click r c)) \<noteq> current_player s \<and>
       ttt_status (ttt_step s (Click r c)) = Turn (current_player (ttt_step s (Click r c))))"
proof -
  let ?p = "current_player s"
  define t where "t = ttt_step s (Click r c)"
  have inv: "ttt_inv s" using assms(1) by (rule ttt_reachable_inv)
  from ttt_enabled_click [OF inv assms(2,3)] have act: "game_active s"
    and rc: "0 \<le> r" "r < 3" "0 \<le> c" "c < 3" and bl: "board s ! nat r ! nat c = blank" by auto
  have i: "nat r < 3" "nat c < 3" using rc by auto
  define b' where "b' = (board s)[nat r := (board s ! nat r)[nat c := ?p]]"
  have step: "t = tk_state (button_click (int (nat r)) (int (nat c)) s)"
    unfolding t_def using assms(2,3) rc by simp
  note mv = button_click_move [OF inv act i bl]
  have bd: "board t = b'" unfolding step button_click_board [OF inv act i bl] b'_def ..
  have "ttt_reachable t" unfolding t_def using assms(1) by (rule reach_step) simp
  then have inv_t: "ttt_inv t" by (rule ttt_reachable_inv)
  have pl: "?p = mark_X \<or> ?p = mark_O" by (rule ttt_inv_player [OF inv])
  have other: "\<not> has_line b' q" if "q \<noteq> blank" "q \<noteq> ?p" for q
    unfolding b'_def using inv act i that by (rule ttt_no_other_line)
  have win: "ttt_status t = Wins ?p \<and> \<not> game_active t \<and>
               (\<forall>k b. buttons t k = Some b \<longrightarrow> \<not> btn_enabled b)" if hl: "has_line b' ?p"
  proof -
    have "check_winner b' \<noteq> None" using hl pl by (intro has_line_check_winner) auto
    then obtain w where w: "check_winner b' = Some w" by blast
    from check_winner_Some [OF w] have wb: "w \<noteq> blank" and wl: "has_line b' w" by auto
    have "w = ?p"
    proof (rule ccontr)
      assume "w \<noteq> ?p"
      with other [OF wb] wl show False by blast
    qed
    with w have st: "ttt_status t = Wins ?p \<and> \<not> game_active t"
      unfolding step mv by (simp add: b'_def Let_def disable_all_buttons_def)
    have "buttons t = buttons_view (board t) False"
      using ttt_inv_buttons [OF inv_t] st by simp
    then have "\<forall>k b. buttons t k = Some b \<longrightarrow> \<not> btn_enabled b"
      by (auto simp: buttons_view_def split: if_splits)
    with st show ?thesis by blast
  qed
  have none: "check_winner b' = None" if nl: "\<not> has_line b' ?p"
    unfolding check_winner_None
  proof (intro allI impI)
    fix q assume "q \<noteq> blank"
    then show "\<not> has_line b' q" using nl other [of q] by (cases "q = ?p") simp_all
  qed
  have tie: "ttt_status t = Tie \<and> \<not> game_active t" if "\<not> has_line b' ?p" "all_filled b'"
    unfolding step mv using none [OF that(1)] that(2) by (simp add: b'_def [symmetric] Let_def)
  have turn: "game_active t \<and> current_player t \<noteq> ?p \<and> ttt_status t = Turn (current_player t)"
    if "\<not> has_line b' ?p" "\<not> all_filled b'"
    unfolding step mv using none [OF that(1)] that(2) pl act by (auto simp: b'_def [symmetric] Let_def)
  have b: "board t = (board s)[nat r := (board s ! nat r)[nat c := ?p]]" using bd by (simp add: b'_def)
  show ?thesis unfolding t_def [symmetric] using b bd win tie turn by simp
qed

theorem ttt_click_outcome_witness:
  "ttt_status (ttt_step (foldl ttt_step ttt_init [Click 0 0, Click 1 0, Click 0 1, Click 1 1]) (Click 0 2))
     = Wins mark_X"
proof -
  let ?s = "foldl ttt_step ttt_init [Click 0 0, Click 1 0, Click 0 1, Click 1 1]"
  have b: "buttons ?s (0, 2) = Some \<lparr>btn_text = blank, btn_enabled = True\<rparr>" by code_simp
  have p: "current_player ?s = mark_X" by code_simp
  have l: "has_line (board (ttt_step ?s (Click 0 2))) (current_player ?s)" by code_simp
  from ttt_click_outcome [OF ttt_reachable_run b] l p show ?thesis by simp
qed


text \<open>
  C37 (functional).  New Game from any reachable state restores exactly the
  state the page was created in: empty board, X to move, all nine buttons
  blank and enabled.
\<close>

theorem ttt_reset_restarts:
  assumes "ttt_reachable s"
  shows "reset_game s = ttt_init"
proof -
  from assms have "buttons s = buttons_view (board s) (game_active s)"
    by (rule ttt_inv_buttons [OF ttt_reachable_inv])
  then have "(\<lambda>k. map_option (\<lambda>bt. bt\<lparr>btn_text := blank, btn_enabled := True\<rparr>) (buttons s k)) =
               fresh_buttons"
    by (auto simp: buttons_view_def fresh_buttons_def)
  then show ?thesis by (simp add: reset_game_def ttt_init_def)
qed

theorem ttt_reset_restarts_witness:
  "reset_game (foldl ttt_step ttt_init row_win_events) = ttt_init"
  by (rule ttt_reset_restarts [OF ttt_reachable_run])

end
