(* ===== verification/NumberGuessing.thy ===== *)
theory NumberGuessing
  imports PyStr
begin

text \<open>
  The number guessing page, class \<^verbatim>\<open>NumberGuessingGUI\<close> of
  \<^verbatim>\<open>src/games_gui.py\<close>.  The page state is the target, the attempts left and
  their maximum, the game log (the lines written by \<^verbatim>\<open>log\<close>, abstracted to
  a datatype of messages), the text and enabled state of the entry, the
  enabled state of the Guess button and the status label.  The random draw
  of \<^verbatim>\<open>random.randint(1, 10)\<close> is an argument of \<open>ng_start_game\<close>; the page
  is admissible only with draws in 1..10.
\<close>

datatype ng_hint = Lower | Higher

datatype ng_msg =
    NG_Started
  | NG_OutOfRange
  | NG_NotANumber
  | NG_Congrats int
  | NG_Wrong ng_hint
  | NG_GameOver int

datatype ng_label = NG_AttemptsLeft int | NG_Ended

record ng_state =
  ng_max_attempts :: int
  ng_target :: int
  ng_attempts_left :: int
  ng_log :: "ng_msg list"
  ng_entry :: string
  ng_entry_enabled :: bool
  ng_button_enabled :: bool
  ng_status :: ng_label

subsection \<open>Operations\<close>

definition ng_log_msg :: "ng_msg \<Rightarrow> ng_state \<Rightarrow> ng_state" where
  "ng_log_msg m s = s\<lparr>ng_log := ng_log s @ [m]\<rparr>"

text \<open>\<^verbatim>\<open>start_game\<close>, with the draw \<open>r\<close> of \<^verbatim>\<open>random.randint(1, 10)\<close>.\<close>

definition ng_start_game :: "int \<Rightarrow> ng_state \<Rightarrow> ng_state" where
  "ng_start_game r s =
     ng_log_msg NG_Started
       (s\<lparr>ng_target := r, ng_attempts_left := ng_max_attempts s, ng_log := [],
          ng_status := NG_AttemptsLeft (ng_max_attempts s)\<rparr>)
     \<lparr>ng_button_enabled := True, ng_entry_enabled := True, ng_entry := []\<rparr>"

text \<open>\<^verbatim>\<open>end_game\<close>: disable the button and the entry.\<close>

definition ng_end_game :: "ng_state \<Rightarrow> ng_state" where
  "ng_end_game s =
     s\<lparr>ng_button_enabled := False, ng_entry_enabled := False, ng_status := NG_Ended\<rparr>"

text \<open>
  \<^verbatim>\<open>check_guess\<close>: read and clear the entry; \<^verbatim>\<open>int()\<close> failing is the
  \<^verbatim>\<open>except ValueError\<close> branch; an out-of-range number returns early.
\<close>

definition check_guess :: "ng_state \<Rightarrow> ng_state" where
  "check_guess s0 =
     (let guess_str = ng_entry s0; s = s0\<lparr>ng_entry := []\<rparr>
      in case py_int guess_str of
           Inl _ \<Rightarrow> ng_log_msg NG_NotANumber s
         | Inr guess \<Rightarrow>
             if \<not> (1 \<le> guess \<and> guess \<le> 10) then ng_log_msg NG_OutOfRange s
             else
               let s1 = s\<lparr>ng_attempts_left := ng_attempts_left s - 1\<rparr>
               in if guess = ng_target s1 then ng_end_game (ng_log_msg (NG_Congrats (ng_target s1)) s1)
                  else
                    let hint = (if guess > ng_target s1 then Lower else Higher);
                        s2 = ng_log_msg (NG_Wrong hint) s1
                    in if ng_attempts_left s2 \<le> 0
                       then ng_end_game (ng_log_msg (NG_GameOver (ng_target s2)) s2)
                       else s2\<lparr>ng_status := NG_AttemptsLeft (ng_attempts_left s2)\<rparr>)"

text \<open>The page as built by \<^verbatim>\<open>__init__\<close>, before its call of \<^verbatim>\<open>start_game\<close>.\<close>

definition ng_created :: ng_state where
  "ng_created =
     \<lparr>ng_max_attempts = 10, ng_target = 0, ng_attempts_left = 0, ng_log = [],
      ng_entry = [], ng_entry_enabled = True, ng_button_enabled = True,
      ng_status = NG_AttemptsLeft 0\<rparr>"

definition ng_init :: "int \<Rightarrow> ng_state" where
  "ng_init r = ng_start_game r ng_created"

text \<open>
  User events: typing into the entry (only while it is enabled), pressing
  Guess (only while the button is enabled) and New Game with the draw.
\<close>

datatype ng_event = NG_Type string | NG_Guess | NG_New int

fun ng_step :: "ng_state \<Rightarrow> ng_event \<Rightarrow> ng_state" where
  "ng_step s (NG_Type t) = (if ng_entry_enabled s then s\<lparr>ng_entry := t\<rparr> else s)"
| "ng_step s NG_Guess = (if ng_button_enabled s then check_guess s else s)"
| "ng_step s (NG_New r) = ng_start_game r s"

fun ng_ok :: "ng_event \<Rightarrow> bool" where
  "ng_ok (NG_New r) = (1 \<le> r \<and> r \<le> 10)"
| "ng_ok _ = True"

definition ng_start :: "ng_state \<Rightarrow> bool" where
  "ng_start s = (\<exists>r. 1 \<le> r \<and> r \<le> 10 \<and> s = ng_init r)"

abbreviation ng_reachable :: "ng_state \<Rightarrow> bool" where
  "ng_reachable \<equiv> reach ng_step ng_ok ng_start"

text \<open>The invariant: the bounds the spec's data model states.\<close>

definition ng_inv :: "ng_state \<Rightarrow> bool" where
  "ng_inv s \<longleftrightarrow>
     ng_max_attempts s = 10 \<and> 1 \<le> ng_target s \<and> ng_target s \<le> 10 \<and>
     0 \<le> ng_attempts_left s \<and> ng_attempts_left s \<le> 10 \<and>
     ng_entry_enabled s = ng_button_enabled s \<and>
     (ng_button_enabled s \<longrightarrow> 0 < ng_attempts_left s)"

text \<open>The spec's scenario: ten wrong guesses of 1 against the target 7.\<close>

definition ng_wrong_ten :: "ng_event list" where
  "ng_wrong_ten = concat (replicate 10 [NG_Type ''1'', NG_Guess])"

text \<open>Guesses left in the round: none once the button is disabled.\<close>

definition ng_measure :: "ng_state \<Rightarrow> nat" where
  "ng_measure s = (if ng_button_enabled s then nat (ng_attempts_left s) else 0)"

subsection \<open>Lemmas\<close>

lemma ng_log_msg_fields [simp]:
  "ng_max_attempts (ng_log_msg m s) = ng_max_attempts s"
  "ng_target (ng_log_msg m s) = ng_target s"
  "ng_attempts_left (ng_log_msg m s) = ng_attempts_left s"
  "ng_entry (ng_log_msg m s) = ng_entry s"
  "ng_entry_enabled (ng_log_msg m s) = ng_entry_enabled s"
  "ng_button_enabled (ng_log_msg m s) = ng_button_enabled s"
  "ng_status (ng_log_msg m s) = ng_status s"
  "ng_log (ng_log_msg m s) = ng_log s @ [m]"
  by (simp_all add: ng_log_msg_def)

lemma ng_end_game_fields [simp]:
  "ng_max_attempts (ng_end_game s) = ng_max_attempts s"
  "ng_target (ng_end_game s) = ng_target s"
  "ng_attempts_left (ng_end_game s) = ng_attempts_left s"
  "ng_log (ng_end_game s) = ng_log s"
  "ng_entry (ng_end_game s) = ng_entry s"
  "ng_entry_enabled (ng_end_game s) = False"
  "ng_button_enabled (ng_end_game s) = False"
  "ng_status (ng_end_game s) = NG_Ended"
  by (simp_all add: ng_end_game_def)

lemma check_guess_invalid:
  assumes "py_int (ng_entry s) = Inl e \<or>
           (py_int (ng_entry s) = Inr g \<and> \<not> (1 \<le> g \<and> g \<le> 10))"
  shows "check_guess s =
           s\<lparr>ng_entry := [],
             ng_log := ng_log s @ [if py_int (ng_entry s) = Inl e then NG_NotANumber else NG_OutOfRange]\<rparr>"
  using assms by (auto simp: check_guess_def ng_log_msg_def)

lemma check_guess_valid:
  assumes "py_int (ng_entry s) = Inr g" and "1 \<le> g" and "g \<le> 10"
  shows "ng_attempts_left (check_guess s) = ng_attempts_left s - 1"
    and "ng_target (check_guess s) = ng_target s"
    and "ng_max_attempts (check_guess s) = ng_max_attempts s"
    and "ng_button_enabled (check_guess s) \<longleftrightarrow>
           ng_button_enabled s \<and> g \<noteq> ng_target s \<and> 1 < ng_attempts_left s"
    and "ng_entry_enabled (check_guess s) \<longleftrightarrow>
           ng_entry_enabled s \<and> g \<noteq> ng_target s \<and> 1 < ng_attempts_left s"
  using assms by (auto simp: check_guess_def Let_def)

lemma ng_inv_start: "1 \<le> r \<Longrightarrow> r \<le> 10 \<Longrightarrow> ng_inv s \<or> s = ng_created \<Longrightarrow> ng_inv (ng_start_game r s)"
  by (auto simp: ng_inv_def ng_start_game_def ng_created_def)

lemma ng_inv_step: "ng_inv s \<Longrightarrow> ng_ok e \<Longrightarrow> ng_inv (ng_step s e)"
proof (cases e)
  case (NG_Type t)
  assume "ng_inv s"
  with NG_Type show ?thesis by (simp add: ng_inv_def)
next
  case NG_Guess
  assume inv: "ng_inv s"
  show ?thesis
  proof (cases "ng_button_enabled s")
    case False
    with NG_Guess inv show ?thesis by simp
  next
    case True
    show ?thesis
    proof (cases "\<exists>g. py_int (ng_entry s) = Inr g \<and> 1 \<le> g \<and> g \<le> 10")
      case False
      then have "check_guess s = s\<lparr>ng_entry := [],
                   ng_log := ng_log s @ [if (\<exists>e. py_int (ng_entry s) = Inl e) then NG_NotANumber
                                         else NG_OutOfRange]\<rparr>"
        by (cases "py_int (ng_entry s)") (auto simp: check_guess_def ng_log_msg_def)
      with NG_Guess True inv show ?thesis by (simp add: ng_inv_def)
    next
      case valid: True
      then obtain g where g: "py_int (ng_entry s) = Inr g" "1 \<le> g" "g \<le> 10" by blast
      from inv True have "0 < ng_attempts_left s" by (simp add: ng_inv_def)
      with inv g NG_Guess True show ?thesis
        by (simp add: ng_inv_def check_guess_valid)
    qed
  qed
next
  case (NG_New r)
  assume "ng_inv s" "ng_ok e"
  with NG_New show ?thesis by (simp add: ng_inv_start)
qed

lemma ng_reachable_inv: "ng_reachable s \<Longrightarrow> ng_inv s"
proof (erule reach_invariant)
  fix s assume "ng_start s"
  then show "ng_inv s" by (auto simp: ng_start_def ng_init_def intro: ng_inv_start)
next
  fix s e assume "ng_inv s" "ng_ok e"
  then show "ng_inv (ng_step s e)" by (rule ng_inv_step)
qed

lemma ng_reachable_run:
  "1 \<le> r \<Longrightarrow> r \<le> 10 \<Longrightarrow> list_all ng_ok es \<Longrightarrow> ng_reachable (foldl ng_step (ng_init r) es)"
  by (rule reach_run) (auto simp: ng_start_def)


lemma ng_inv_measure_le: "ng_inv s \<Longrightarrow> ng_measure s \<le> 10"
  by (auto simp: ng_inv_def ng_measure_def)


subsection \<open>Properties of the page\<close>

text \<open>
  C9 (invariant).  In every reachable state of the number guessing page the
  target is in 1..10, the attempts left are in 0..10, the entry and the
  Guess button are enabled together, and only while attempts are left.
\<close>

theorem ng_reachable_bounds:
  assumes "ng_reachable s"
  shows "1 \<le> ng_target s \<and> ng_target s \<le> 10 \<and>
         0 \<le> ng_attempts_left s \<and> ng_attempts_left s \<le> 10 \<and>
         ng_entry_enabled s = ng_button_enabled s \<and>
         (ng_button_enabled s \<longrightarrow> 0 < ng_attempts_left s)"
  using ng_reachable_inv [OF assms] by (simp add: ng_inv_def)

theorem ng_reachable_bounds_witness:
  "ng_reachable (foldl ng_step (ng_init 7) ng_wrong_ten) \<and>
   ng_attempts_left (foldl ng_step (ng_init 7) ng_wrong_ten) \<le> 10"
proof -
  have r: "ng_reachable (foldl ng_step (ng_init 7) ng_wrong_ten)"
    by (rule ng_reachable_run) (simp, simp, code_simp)
  from ng_reachable_bounds [OF r] r show ?thesis by simp
qed

text \<open>
  C10 (functional).  A guess that parses to a number in 1..10 costs exactly
  one attempt; the round ends exactly when the guess is right or no attempt
  is left, and the log's last line is the verdict: congratulations, game
  over, or the hint (lower when the guess is too high).
\<close>

theorem ng_valid_guess:
  assumes "ng_reachable s" and "ng_button_enabled s"
    and "py_int (ng_entry s) = Inr g" and "1 \<le> g" and "g \<le> 10"
  shows "ng_attempts_left (ng_step s NG_Guess) = ng_attempts_left s - 1 \<and>
         (ng_button_enabled (ng_step s NG_Guess) \<longleftrightarrow>
            g \<noteq> ng_target s \<and> 0 < ng_attempts_left (ng_step s NG_Guess)) \<and>
         last (ng_log (ng_step s NG_Guess)) =
           (if g = ng_target s then NG_Congrats (ng_target s)
            else if ng_attempts_left s \<le> 1 then NG_GameOver (ng_target s)
            else NG_Wrong (if g > ng_target s then Lower else Higher))"
  using assms(2-5) by (auto simp: check_guess_def Let_def)

theorem ng_valid_guess_witness:
  "ng_attempts_left (ng_step (ng_step (ng_init 7) (NG_Type ''3'')) NG_Guess) = 9 \<and>
   last (ng_log (ng_step (ng_step (ng_init 7) (NG_Type ''3'')) NG_Guess)) = NG_Wrong Higher"
proof -
  let ?s = "ng_step (ng_init 7) (NG_Type ''3'')"
  have r: "ng_reachable ?s" using ng_reachable_run [of 7 "[NG_Type ''3'']"] by simp
  have h: "ng_button_enabled ?s" "py_int (ng_entry ?s) = Inr 3" by code_simp+
  have t: "ng_target ?s = 7" "ng_attempts_left ?s = 10" by code_simp+
  from ng_valid_guess [OF r h, of] t show ?thesis by simp
qed

text \<open>
  C28 (error).  Input that is not an integer, or an integer outside 1..10,
  is reported in the log and otherwise only clears the entry: target,
  attempts, status and the enabled states are unchanged.
\<close>

theorem ng_invalid_guess:
  assumes "ng_button_enabled s"
    and "py_int (ng_entry s) = Inl e \<or> (py_int (ng_entry s) = Inr g \<and> \<not> (1 \<le> g \<and> g \<le> 10))"
  shows "ng_step s NG_Guess =
           s\<lparr>ng_entry := [],
             ng_log := ng_log s @ [if py_int (ng_entry s) = Inl e then NG_NotANumber else NG_OutOfRange]\<rparr>"
  using assms(1) check_guess_invalid [OF assms(2)] by simp

theorem ng_invalid_guess_witness:
  "ng_log (ng_step (ng_step (ng_init 7) (NG_Type ''ten'')) NG_Guess) = [NG_Started, NG_NotANumber] \<and>
   ng_attempts_left (ng_step (ng_step (ng_init 7) (NG_Type ''ten'')) NG_Guess) = 10"
proof -
  let ?s = "ng_step (ng_init 7) (NG_Type ''ten'')"
  have h: "ng_button_enabled ?s" "py_int (ng_entry ?s) = Inl ValueError" by code_simp+
  have l: "ng_log ?s = [NG_Started]" "ng_attempts_left ?s = 10" by code_simp+
  from ng_invalid_guess [OF h(1), of ValueError] h l show ?thesis by simp
qed

text \<open>
  C24 (termination).  The guesses left in a round never exceed 10, no event
  but New Game increases them, and every accepted guess decreases them:
  a round ends after at most ten valid guesses.
\<close>

theorem ng_round_terminates:
  assumes "ng_reachable s" and "\<forall>r. e \<noteq> NG_New r"
  shows "ng_measure s \<le> 10 \<and> ng_measure (ng_step s e) \<le> ng_measure s \<and>
         (e = NG_Guess \<and> ng_button_enabled s \<and> (\<exists>g. py_int (ng_entry s) = Inr g \<and> 1 \<le> g \<and> g \<le> 10)
            \<longrightarrow> ng_measure (ng_step s e) < ng_measure s)"
proof -
  from assms(1) have inv: "ng_inv s" by (rule ng_reachable_inv)
  have le: "ng_measure s \<le> 10" by (rule ng_inv_measure_le [OF inv])
  have mono: "ng_measure (ng_step s e) \<le> ng_measure s \<and>
      (e = NG_Guess \<and> ng_button_enabled s \<and> (\<exists>g. py_int (ng_entry s) = Inr g \<and> 1 \<le> g \<and> g \<le> 10)
         \<longrightarrow> ng_measure (ng_step s e) < ng_measure s)"
  proof (cases e)
    case (NG_Type t)
    then show ?thesis by (simp add: ng_measure_def)
  next
    case NG_Guess
    show ?thesis
    proof (cases "ng_button_enabled s \<and> (\<exists>g. py_int (ng_entry s) = Inr g \<and> 1 \<le> g \<and> g \<le> 10)")
      case True
      then obtain g where g: "py_int (ng_entry s) = Inr g" "1 \<le> g" "g \<le> 10" by blast
      from inv True have "0 < ng_attempts_left s" by (simp add: ng_inv_def)
      with True g NG_Guess show ?thesis by (auto simp: ng_measure_def check_guess_valid)
    next
      case False
      show ?thesis
      proof (cases "ng_button_enabled s")
        case True
        with False obtain e' g where "py_int (ng_entry s) = Inl e' \<or>
            (py_int (ng_entry s) = Inr g \<and> \<not> (1 \<le> g \<and> g \<le> 10))"
          by (cases "py_int (ng_entry s)") auto
        from check_guess_invalid [OF this] NG_Guess True False show ?thesis
          by (simp add: ng_measure_def)
      next
        case False
        with NG_Guess show ?thesis by simp
      qed
    qed
  next
    case (NG_New r)
    with assms(2) show ?thesis by simp
  qed
  from le mono show ?thesis by blast
qed

theorem ng_round_terminates_witness:
  "ng_measure (ng_init 7) = 10 \<and> ng_measure (ng_step (ng_init 7) NG_Guess) \<le> 10"
proof -
  have r: "ng_reachable (ng_init 7)" using ng_reachable_run [of 7 "[]"] by simp
  have m: "ng_measure (ng_init 7) = 10" by code_simp
  from ng_round_terminates [OF r, of NG_Guess] m show ?thesis by simp
qed



text \<open>
  The spec's scenario: ten wrong guesses use up the ten
  attempts, the round ends with the game-over line and the input disabled.
\<close>

theorem ng_ten_wrong_scenario:
  "ng_attempts_left (foldl ng_step (ng_init 7) ng_wrong_ten) = 0 \<and>
   \<not> ng_button_enabled (foldl ng_step (ng_init 7) ng_wrong_ten) \<and>
   \<not> ng_entry_enabled (foldl ng_step (ng_init 7) ng_wrong_ten) \<and>
   last (ng_log (foldl ng_step (ng_init 7) ng_wrong_ten)) = NG_GameOver 7 \<and>
   length (ng_log (foldl ng_step (ng_init 7) ng_wrong_ten)) = 12"
  by code_simp

end
