(* ===== verification/Hangman.thy ===== *)
theory Hangman
  imports Loaders
begin

text \<open>
  The hangman page, class \<^verbatim>\<open>WordGuessingGUI\<close> of \<^verbatim>\<open>src/games_gui.py\<close>.
  The page state is the secret word, the list of guessed letters, the
  attempts left, the 26 letter buttons (a map from the letter to its enabled
  flag, keyed as \<^verbatim>\<open>letter_buttons\<close> is), the masked word shown and the
  status label.  \<open>hm_start_game\<close> takes the outcome of reading the word file
  and the draw of \<^verbatim>\<open>random.choice\<close>; \<open>check_letter\<close> is the letter handler
  and \<open>hm_step\<close> the page as the user drives it.
\<close>

datatype hm_label = HM_AttemptsLeft int | HM_Won | HM_Lost string | HM_Fatal

record hm_state =
  hm_secret :: string
  hm_guessed :: string
  hm_attempts :: int
  hm_letters :: "char \<Rightarrow> bool option"
  hm_display :: string
  hm_status :: hm_label

subsection \<open>Operations\<close>

text \<open>\<^verbatim>\<open>chr(ord('a') + i)\<close> for \<^verbatim>\<open>i\<close> in \<^verbatim>\<open>range(26)\<close>.\<close>

definition hm_alphabet :: string where
  "hm_alphabet = map (\<lambda>i. char_of (97 + i)) [0..<26]"

text \<open>\<^verbatim>\<open>create_letter_buttons\<close>: one enabled button per letter.\<close>

definition create_letter_buttons :: "char \<Rightarrow> bool option" where
  "create_letter_buttons = (\<lambda>c. if c \<in> set hm_alphabet then Some True else None)"

definition disable_all_letters :: "hm_state \<Rightarrow> hm_state" where
  "disable_all_letters s = s\<lparr>hm_letters := (\<lambda>c. map_option (\<lambda>_. False) (hm_letters s c))\<rparr>"

text \<open>\<^verbatim>\<open>get_masked_word\<close>: \<^verbatim>\<open>"x "\<close> for a guessed letter, \<^verbatim>\<open>"_ "\<close> otherwise, stripped.\<close>

definition get_masked_word :: "string \<Rightarrow> string \<Rightarrow> string" where
  "get_masked_word secret guessed =
     py_strip (concat (map (\<lambda>l. if l \<in> set guessed then [l, CHR '' ''] else ''_ '') secret))"

text \<open>\<^verbatim>\<open>update_display\<close>: show the mask, then win, loss or the attempts left.\<close>

definition update_display :: "hm_state \<Rightarrow> hm_state" where
  "update_display s0 =
     (let masked = get_masked_word (hm_secret s0) (hm_guessed s0);
          s = s0\<lparr>hm_display := masked\<rparr>
      in if CHR ''_'' \<notin> set masked then disable_all_letters (s\<lparr>hm_status := HM_Won\<rparr>)
         else if hm_attempts s \<le> 0 then disable_all_letters (s\<lparr>hm_status := HM_Lost (hm_secret s)\<rparr>)
         else s\<lparr>hm_status := HM_AttemptsLeft (hm_attempts s)\<rparr>)"

text \<open>
  \<^verbatim>\<open>start_game\<close>: read the words; on the sentinel enter the fatal state;
  otherwise choose a word (IndexError on an empty list), reset the guesses,
  the attempts and the buttons, update the display, and finally overwrite
  the status label with the attempts left.
\<close>

definition hm_start_game :: "file_src \<Rightarrow> nat \<Rightarrow> hm_state \<Rightarrow> hm_state tk_result" where
  "hm_start_game f k s =
     (let words = load_hangman_words f
      in if words = hangman_error_words
         then Inr (disable_all_letters (s\<lparr>hm_secret := ''error'', hm_status := HM_Fatal\<rparr>))
         else
           (case py_choice words k of
              Inl e \<Rightarrow> Inl (e, s)
            | Inr w \<Rightarrow>
                let s1 = s\<lparr>hm_secret := py_lower w, hm_guessed := [], hm_attempts := 6,
                           hm_letters := (\<lambda>c. map_option (\<lambda>_. True) (hm_letters s c))\<rparr>
                in Inr ((update_display s1)\<lparr>hm_status := HM_AttemptsLeft (hm_attempts s1)\<rparr>)))"

text \<open>
  \<^verbatim>\<open>check_letter\<close>: disable the button (the dictionary lookup raises
  KeyError for a letter without a button), record a new letter and charge
  an attempt when it is not in the word, then update the display.
\<close>

definition check_letter :: "char \<Rightarrow> hm_state \<Rightarrow> hm_state tk_result" where
  "check_letter g s0 =
     (case hm_letters s0 g of
        None \<Rightarrow> Inl (KeyError, s0)
      | Some _ \<Rightarrow>
          let s1 = s0\<lparr>hm_letters := (hm_letters s0)(g \<mapsto> False)\<rparr>;
              s2 = (if g \<notin> set (hm_guessed s1) then
                      let s = s1\<lparr>hm_guessed := hm_guessed s1 @ [g]\<rparr>
                      in if g \<notin> set (hm_secret s) then s\<lparr>hm_attempts := hm_attempts s - 1\<rparr> else s
                    else s1)
          in Inr (update_display s2))"

text \<open>\<^verbatim>\<open>back_to_menu\<close>, the page's part: disable every letter (then the host raises the menu).\<close>

definition hm_back :: "hm_state \<Rightarrow> hm_state" where
  "hm_back s = disable_all_letters s"

text \<open>The page as \<^verbatim>\<open>__init__\<close> builds it, before its call of \<^verbatim>\<open>start_game\<close>.\<close>

definition hm_created :: hm_state where
  "hm_created =
     \<lparr>hm_secret = [], hm_guessed = [], hm_attempts = 0, hm_letters = create_letter_buttons,
      hm_display = [], hm_status = HM_AttemptsLeft 6\<rparr>"

datatype hm_event = HM_Letter char | HM_New file_src nat | HM_Back

fun hm_step :: "hm_state \<Rightarrow> hm_event \<Rightarrow> hm_state" where
  "hm_step s (HM_Letter c) = (if hm_letters s c = Some True then tk_state (check_letter c s) else s)"
| "hm_step s (HM_New f k) = tk_state (hm_start_game f k s)"
| "hm_step s HM_Back = hm_back s"

text \<open>
  \<^verbatim>\<open>__init__\<close> runs \<^verbatim>\<open>start_game\<close>; when that raises, the exception leaves
  the constructor and the application does not start, so the page exists
  only in the states a successful first \<^verbatim>\<open>start_game\<close> yields.
\<close>

definition hm_start :: "hm_state \<Rightarrow> bool" where
  "hm_start s = (\<exists>f k. hm_start_game f k hm_created = Inr s)"

abbreviation hm_reachable :: "hm_state \<Rightarrow> bool" where
  "hm_reachable \<equiv> reach hm_step (\<lambda>_. True) hm_start"

text \<open>
  The invariant: the buttons are the 26 letters, the guesses are distinct
  letters whose buttons are disabled, the attempts are 6 minus the wrong
  guesses (outside the fatal state, where no letter is enabled) and
  positive while a letter is enabled,
  and a win means every letter of the word was guessed.
\<close>

definition hm_inv :: "hm_state \<Rightarrow> bool" where
  "hm_inv s \<longleftrightarrow>
     dom (hm_letters s) = set hm_alphabet \<and>
     distinct (hm_guessed s) \<and> set (hm_guessed s) \<subseteq> set hm_alphabet \<and>
     (\<forall>c. hm_letters s c = Some True \<longrightarrow> c \<notin> set (hm_guessed s) \<and> 0 < hm_attempts s) \<and>
     0 \<le> hm_attempts s \<and>
     (hm_status s = HM_Fatal \<longrightarrow> (\<forall>c. hm_letters s c \<noteq> Some True)) \<and>
     (hm_status s \<noteq> HM_Fatal \<longrightarrow>
        hm_attempts s = 6 - int (length (filter (\<lambda>c. c \<notin> set (hm_secret s)) (hm_guessed s)))) \<and>
     (hm_status s = HM_Won \<longrightarrow> set (hm_secret s) \<subseteq> set (hm_guessed s))"

definition hm_enabled_count :: "hm_state \<Rightarrow> nat" where
  "hm_enabled_count s = length (filter (\<lambda>c. hm_letters s c = Some True) hm_alphabet)"


text \<open>A one-word file used by the concrete scenarios.\<close>

definition hm_cat_file :: file_src where
  "hm_cat_file = FileJson (JList [JStr ''Cat''])"

text \<open>What a successful \<^verbatim>\<open>start_game\<close> needs of the state before it.\<close>

definition hm_pre :: "hm_state \<Rightarrow> bool" where
  "hm_pre s \<longleftrightarrow>
     dom (hm_letters s) = set hm_alphabet \<and> distinct (hm_guessed s) \<and>
     set (hm_guessed s) \<subseteq> set hm_alphabet \<and> 0 \<le> hm_attempts s"

text \<open>
  The masked word as the specification describes it: each letter of the
  word, revealed when guessed and an underscore otherwise, separated by
  single spaces.
\<close>

definition masked_ref :: "string \<Rightarrow> string \<Rightarrow> string" where
  "masked_ref secret guessed =
     join_with CHR '' '' (map (\<lambda>l. if l \<in> set guessed then l else CHR ''_'') secret)"

subsection \<open>Lemmas\<close>

lemma hm_alphabet_eq: "hm_alphabet = ''abcdefghijklmnopqrstuvwxyz''"
  by code_simp

lemma underscore_not_letter [simp]: "CHR ''_'' \<notin> set hm_alphabet"
  by (simp add: hm_alphabet_eq)

lemma disable_all_letters_fields [simp]:
  "hm_letters (disable_all_letters s) = (\<lambda>c. map_option (\<lambda>_. False) (hm_letters s c))"
  "hm_secret (disable_all_letters s) = hm_secret s"
  "hm_guessed (disable_all_letters s) = hm_guessed s"
  "hm_attempts (disable_all_letters s) = hm_attempts s"
  "hm_display (disable_all_letters s) = hm_display s"
  "hm_status (disable_all_letters s) = hm_status s"
  by (simp_all add: disable_all_letters_def)

lemma dom_disable [simp]: "dom (\<lambda>c. map_option f (m c)) = dom m"
  by (auto simp: dom_def)

text \<open>The mask shows an underscore exactly while a letter of the word is unguessed.\<close>

lemma masked_underscore:
  assumes "CHR ''_'' \<notin> set guessed"
  shows "CHR ''_'' \<in> set (get_masked_word secret guessed) \<longleftrightarrow> \<not> set secret \<subseteq> set guessed"
proof -
  have "\<not> py_isspace (CHR ''_'')" by (simp add: py_isspace_def)
  then have "CHR ''_'' \<in> set (get_masked_word secret guessed) \<longleftrightarrow>
      CHR ''_'' \<in> set (concat (map (\<lambda>l. if l \<in> set guessed then [l, CHR '' ''] else ''_ '') secret))"
    by (simp add: get_masked_word_def py_strip_keeps)
  also have "\<dots> \<longleftrightarrow> (\<exists>l \<in> set secret. l \<notin> set guessed)"
    using assms by auto
  finally show ?thesis by blast
qed

lemma update_display_fields [simp]:
  "hm_secret (update_display s) = hm_secret s"
  "hm_guessed (update_display s) = hm_guessed s"
  "hm_attempts (update_display s) = hm_attempts s"
  "dom (hm_letters (update_display s)) = dom (hm_letters s)"
  "hm_display (update_display s) = get_masked_word (hm_secret s) (hm_guessed s)"
  by (simp_all add: update_display_def Let_def)

lemma update_display_status:
  "hm_status (update_display s) =
     (if CHR ''_'' \<notin> set (get_masked_word (hm_secret s) (hm_guessed s)) then HM_Won
      else if hm_attempts s \<le> 0 then HM_Lost (hm_secret s)
      else HM_AttemptsLeft (hm_attempts s))"
  by (simp add: update_display_def Let_def)

lemma update_display_enabled:
  "hm_letters (update_display s) c = Some True \<Longrightarrow>
     hm_letters s c = Some True \<and> 0 < hm_attempts s \<and>
     CHR ''_'' \<in> set (get_masked_word (hm_secret s) (hm_guessed s))"
  by (auto simp: update_display_def Let_def split: if_splits)

lemma hm_pre_created: "hm_pre hm_created"
  by (auto simp: hm_pre_def hm_created_def create_letter_buttons_def dom_def)

lemma hm_inv_pre: "hm_inv s \<Longrightarrow> hm_pre s"
  by (simp add: hm_inv_def hm_pre_def)

lemma hm_inv_start_game:
  assumes pre: "hm_pre s" and ok: "hm_start_game f k s = Inr t"
  shows "hm_inv t"
proof (cases "load_hangman_words f = hangman_error_words")
  case True
  with ok have "t = disable_all_letters (s\<lparr>hm_secret := ''error'', hm_status := HM_Fatal\<rparr>)"
    by (simp add: hm_start_game_def)
  with pre show ?thesis by (simp add: hm_inv_def hm_pre_def)
next
  case False
  with ok obtain w where "py_choice (load_hangman_words f) k = Inr w"
    and t: "t = (update_display (s\<lparr>hm_secret := py_lower w, hm_guessed := [], hm_attempts := 6,
               hm_letters := (\<lambda>c. map_option (\<lambda>_. True) (hm_letters s c))\<rparr>))
               \<lparr>hm_status := HM_AttemptsLeft 6\<rparr>"
    by (auto simp: hm_start_game_def Let_def split: sum.splits)
  have "hm_letters t c = Some True \<Longrightarrow> 0 < hm_attempts t" for c
    using t update_display_enabled by auto
  with pre t show ?thesis by (simp add: hm_inv_def hm_pre_def)
qed

lemma check_letter_new:
  assumes "hm_letters s g \<noteq> None" and "g \<notin> set (hm_guessed s)"
  shows "check_letter g s = Inr (update_display (s\<lparr>hm_letters := (hm_letters s)(g \<mapsto> False),
      hm_guessed := hm_guessed s @ [g],
      hm_attempts := hm_attempts s - (if g \<notin> set (hm_secret s) then 1 else 0)\<rparr>))"
  using assms by (auto simp: check_letter_def Let_def)

lemma hm_inv_check_letter:
  assumes inv: "hm_inv s" and en: "hm_letters s g = Some True"
  shows "hm_inv (tk_state (check_letter g s))"
proof -
  from inv en have ng: "g \<notin> set (hm_guessed s)" and pos: "0 < hm_attempts s"
    and notfatal: "hm_status s \<noteq> HM_Fatal"
    and dom: "dom (hm_letters s) = set hm_alphabet"
    and cnt: "hm_attempts s = 6 - int (length (filter (\<lambda>c. c \<notin> set (hm_secret s)) (hm_guessed s)))"
    by (auto simp: hm_inv_def)
  have galpha: "g \<in> set hm_alphabet" using en dom by auto
  define s2 where "s2 = s\<lparr>hm_letters := (hm_letters s)(g \<mapsto> False),
      hm_guessed := hm_guessed s @ [g],
      hm_attempts := hm_attempts s - (if g \<notin> set (hm_secret s) then 1 else 0)\<rparr>"
  have cl: "check_letter g s = Inr (update_display s2)"
    using check_letter_new [of s g] en ng by (simp add: s2_def)
  let ?t = "update_display s2"
  have gu: "CHR ''_'' \<notin> set (hm_guessed s2)"
    using inv galpha by (auto simp: hm_inv_def s2_def)
  have d: "dom (hm_letters ?t) = set hm_alphabet" using dom galpha by (auto simp: s2_def)
  have g2: "distinct (hm_guessed ?t) \<and> set (hm_guessed ?t) \<subseteq> set hm_alphabet"
    using inv ng galpha by (simp add: hm_inv_def s2_def)
  have en2: "hm_letters ?t c = Some True \<Longrightarrow> c \<notin> set (hm_guessed ?t) \<and> 0 < hm_attempts ?t" for c
    using update_display_enabled [of s2 c] inv by (auto simp: hm_inv_def s2_def split: if_splits)
  have a2: "0 \<le> hm_attempts ?t" using pos by (simp add: s2_def)
  have c2: "hm_attempts ?t = 6 - int (length (filter (\<lambda>c. c \<notin> set (hm_secret ?t)) (hm_guessed ?t)))"
    using cnt by (simp add: s2_def)
  have nf: "hm_status ?t \<noteq> HM_Fatal" by (simp add: update_display_status)
  have w2: "hm_status ?t = HM_Won \<Longrightarrow> set (hm_secret ?t) \<subseteq> set (hm_guessed ?t)"
    using masked_underscore [OF gu] by (auto simp: update_display_status split: if_splits)
  from d g2 en2 a2 c2 nf w2 have "hm_inv ?t" by (simp add: hm_inv_def)
  with cl show ?thesis by simp
qed

lemma hm_inv_step: "hm_inv s \<Longrightarrow> hm_inv (hm_step s e)"
proof (cases e)
  case (HM_Letter c)
  assume "hm_inv s"
  with HM_Letter show ?thesis by (auto intro: hm_inv_check_letter)
next
  case (HM_New f k)
  assume inv: "hm_inv s"
  show ?thesis
  proof (cases "hm_start_game f k s")
    case (Inl r)
    then obtain e' s' where "hm_start_game f k s = Inl (e', s')" by (cases r) auto
    moreover from this have "s' = s"
      by (auto simp: hm_start_game_def Let_def split: if_splits sum.splits)
    ultimately show ?thesis using HM_New inv by simp
  next
    case (Inr t)
    with HM_New hm_inv_start_game [OF hm_inv_pre [OF inv]] show ?thesis by simp
  qed
next
  case HM_Back
  assume "hm_inv s"
  with HM_Back show ?thesis by (simp add: hm_inv_def hm_back_def)
qed

lemma hm_reachable_inv: "hm_reachable s \<Longrightarrow> hm_inv s"
proof (erule reach_invariant)
  fix s assume "hm_start s"
  then show "hm_inv s" by (auto simp: hm_start_def intro: hm_inv_start_game [OF hm_pre_created])
next
  fix s e assume "hm_inv s"
  then show "hm_inv (hm_step s e)" by (rule hm_inv_step)
qed


lemma hm_reachable_run:
  "hm_start_game f k hm_created = Inr s \<Longrightarrow> hm_reachable (foldl hm_step s es)"
  by (rule reach_run) (auto simp: hm_start_def list_all_iff)

lemma hm_enabled_letter_step:
  assumes inv: "hm_inv s" and en: "hm_letters s g = Some True"
  shows "hm_letters (hm_step s (HM_Letter g)) c = Some True \<Longrightarrow> hm_letters s c = Some True \<and> c \<noteq> g"
proof -
  from inv en have ng: "g \<notin> set (hm_guessed s)" by (auto simp: hm_inv_def)
  assume "hm_letters (hm_step s (HM_Letter g)) c = Some True"
  with en ng check_letter_new [of s g] update_display_enabled show ?thesis
    by (fastforce split: if_splits)
qed

subsection \<open>Properties of the page\<close>

text \<open>
  C7 (functional).  Pressing an enabled letter wins the round exactly when
  every letter of the secret word is then among the guessed letters.
\<close>

theorem hm_win_iff:
  assumes "hm_reachable s" and "hm_letters s c = Some True"
  shows "hm_status (hm_step s (HM_Letter c)) = HM_Won \<longleftrightarrow>
           set (hm_secret s) \<subseteq> set (hm_guessed s @ [c])"
proof -
  from assms(1) have inv: "hm_inv s" by (rule hm_reachable_inv)
  with assms(2) have ng: "c \<notin> set (hm_guessed s)" and dom: "dom (hm_letters s) = set hm_alphabet"
    by (auto simp: hm_inv_def)
  then have ca: "c \<in> set hm_alphabet" using assms(2) by auto
  have gu: "CHR ''_'' \<notin> set (hm_guessed s @ [c])" using inv ca by (auto simp: hm_inv_def)
  show ?thesis
    using assms(2) ng check_letter_new [of s c] masked_underscore [OF gu]
    by (simp add: update_display_status)
qed

theorem hm_win_iff_witness:
  "hm_status (foldl hm_step (tk_state (hm_start_game hm_cat_file 0 hm_created))
               [HM_Letter CHR ''c'', HM_Letter CHR ''a'', HM_Letter CHR ''t'']) = HM_Won"
proof -
  let ?st = "tk_state (hm_start_game hm_cat_file 0 hm_created)"
  let ?s = "foldl hm_step ?st [HM_Letter CHR ''c'', HM_Letter CHR ''a'']"
  have st: "hm_start_game hm_cat_file 0 hm_created = Inr ?st"
    by (rule tk_state_Inr) code_simp
  have r: "hm_reachable ?s" by (rule hm_reachable_run [OF st])
  have en: "hm_letters ?s CHR ''t'' = Some True" by code_simp
  have sub: "set (hm_secret ?s) \<subseteq> set (hm_guessed ?s @ [CHR ''t''])" by code_simp
  from hm_win_iff [OF r en] sub show ?thesis by simp
qed

text \<open>
  C8 (invariant).  In every reachable state of the hangman page the attempts
  are never negative, the guesses are distinct letters a-z whose buttons are
  disabled, and outside the fatal state the attempts are 6 minus the
  guesses that are not in the word.
\<close>

theorem hm_reachable_invariant:
  assumes "hm_reachable s"
  shows "0 \<le> hm_attempts s \<and> distinct (hm_guessed s) \<and> set (hm_guessed s) \<subseteq> set hm_alphabet \<and>
         (\<forall>c. hm_letters s c = Some True \<longrightarrow> c \<notin> set (hm_guessed s)) \<and>
         (hm_status s \<noteq> HM_Fatal \<longrightarrow>
            hm_attempts s = 6 - int (length (filter (\<lambda>c. c \<notin> set (hm_secret s)) (hm_guessed s))))"
  using hm_reachable_inv [OF assms] by (simp add: hm_inv_def)

theorem hm_reachable_invariant_witness:
  "hm_reachable (tk_state (hm_start_game hm_cat_file 0 hm_created)) \<and>
   hm_attempts (tk_state (hm_start_game hm_cat_file 0 hm_created)) = 6"
proof -
  let ?s = "tk_state (hm_start_game hm_cat_file 0 hm_created)"
  have st: "hm_start_game hm_cat_file 0 hm_created = Inr ?s"
    by (rule tk_state_Inr) code_simp
  have r: "hm_reachable ?s" using hm_reachable_run [OF st, of "[]"] by simp
  have "hm_secret ?s = ''cat''" "hm_guessed ?s = []" "hm_status ?s \<noteq> HM_Fatal" by code_simp+
  with hm_reachable_invariant [OF r] r show ?thesis by simp
qed

text \<open>
  C22 (functional).  Choosing a letter that was already guessed changes
  neither the attempts nor the guessed letters.
\<close>

theorem check_letter_repeat:
  assumes "hm_letters s c \<noteq> None" and "c \<in> set (hm_guessed s)"
  shows "\<exists>t. check_letter c s = Inr t \<and> hm_attempts t = hm_attempts s \<and> hm_guessed t = hm_guessed s"
  using assms by (auto simp: check_letter_def Let_def)

theorem check_letter_repeat_witness:
  "hm_attempts (tk_state (check_letter CHR ''a'' (hm_created\<lparr>hm_guessed := ''a''\<rparr>))) = 0"
proof -
  have h: "hm_letters (hm_created\<lparr>hm_guessed := ''a''\<rparr>) CHR ''a'' \<noteq> None"
    "CHR ''a'' \<in> set (hm_guessed (hm_created\<lparr>hm_guessed := ''a''\<rparr>))" by code_simp+
  from check_letter_repeat [OF h] show ?thesis by (auto simp: hm_created_def)
qed

text \<open>
  A new letter is appended to the guesses and costs one
  attempt exactly when it is not in the word.
\<close>

theorem check_letter_new_letter:
  assumes "hm_letters s c \<noteq> None" and "c \<notin> set (hm_guessed s)"
  shows "\<exists>t. check_letter c s = Inr t \<and> hm_guessed t = hm_guessed s @ [c] \<and>
             hm_attempts t = hm_attempts s - (if c \<in> set (hm_secret s) then 0 else 1)"
  using check_letter_new [OF assms] by simp

theorem check_letter_new_letter_witness:
  "hm_attempts (tk_state (check_letter CHR ''z'' (hm_created\<lparr>hm_secret := ''cat'', hm_attempts := 6\<rparr>))) = 5"
proof -
  let ?s = "hm_created\<lparr>hm_secret := ''cat'', hm_attempts := 6\<rparr>"
  have h: "hm_letters ?s CHR ''z'' \<noteq> None" "CHR ''z'' \<notin> set (hm_guessed ?s)" by code_simp+
  have n: "CHR ''z'' \<notin> set (hm_secret ?s)" by simp
  from check_letter_new_letter [OF h] n show ?thesis by auto
qed

text \<open>
  C23 (termination).  At most 26 letters are enabled and pressing an enabled
  letter disables at least that one, so a round takes at most 26 letter
  presses.
\<close>

theorem hm_letters_decrease:
  assumes "hm_reachable s" and "hm_letters s c = Some True"
  shows "hm_enabled_count s \<le> 26 \<and> hm_enabled_count (hm_step s (HM_Letter c)) < hm_enabled_count s"
proof -
  from assms(1) have inv: "hm_inv s" by (rule hm_reachable_inv)
  then have ca: "c \<in> set hm_alphabet" using assms(2) by (auto simp: hm_inv_def)
  have le: "hm_enabled_count s \<le> 26"
    using length_filter_le [of _ hm_alphabet] by (simp add: hm_enabled_count_def hm_alphabet_def)
  have "length (filter (\<lambda>x. hm_letters (hm_step s (HM_Letter c)) x = Some True) hm_alphabet) <
        length (filter (\<lambda>x. hm_letters s x = Some True) hm_alphabet)"
    by (rule length_filter_mono_strict [of "\<lambda>x. hm_letters (hm_step s (HM_Letter c)) x = Some True"
          "\<lambda>x. hm_letters s x = Some True" c hm_alphabet, OF _ ca assms(2)])
       (use hm_enabled_letter_step [OF inv assms(2)] in blast)+
  with le show ?thesis by (simp add: hm_enabled_count_def)
qed

theorem hm_letters_decrease_witness:
  "hm_enabled_count (tk_state (hm_start_game hm_cat_file 0 hm_created)) \<le> 26"
proof -
  let ?s = "tk_state (hm_start_game hm_cat_file 0 hm_created)"
  have st: "hm_start_game hm_cat_file 0 hm_created = Inr ?s"
    by (rule tk_state_Inr) code_simp
  have r: "hm_reachable ?s" using hm_reachable_run [OF st, of "[]"] by simp
  have en: "hm_letters ?s CHR ''q'' = Some True" by code_simp
  from hm_letters_decrease [OF r en] show ?thesis by simp
qed

text \<open>
  The loader answers the failure sentinel for every file that is missing,
  unreadable, or decodes to anything but a list of strings.
\<close>

lemma load_hangman_words_bad:
  assumes "\<forall>xs. f = FileJson (JList xs) \<longrightarrow> \<not> list_all is_jstr xs"
  shows "load_hangman_words f = hangman_error_words"
  using assms by (auto simp: load_hangman_words_def split: file_src.split json.split)

text \<open>Once no letter is enabled, no letter press changes the page.\<close>

lemma hm_letters_frozen:
  assumes "\<forall>c. hm_letters s c \<noteq> Some True"
  shows "foldl hm_step s (map HM_Letter cs) = s"
  using assms by (induction cs) simp_all

text \<open>
  C26 (error).  When the word file is missing, unreadable or does not decode
  to a list of strings, New Game enters the fatal state: the status reports
  the error and no letter is enabled.
\<close>

theorem hm_start_fatal:
  assumes "\<forall>xs. f = FileJson (JList xs) \<longrightarrow> \<not> list_all is_jstr xs"
  shows "\<exists>t. hm_start_game f k s = Inr t \<and> hm_status t = HM_Fatal \<and>
             (\<forall>c. hm_letters t c \<noteq> Some True)"
  using load_hangman_words_bad [OF assms] by (auto simp: hm_start_game_def)

theorem hm_start_fatal_witness:
  "hm_status (tk_state (hm_start_game (FileJson (JList [JStr ''cat'', JNum 7])) 0 hm_created)) = HM_Fatal"
proof -
  have "\<forall>xs. FileJson (JList [JStr ''cat'', JNum 7]) = FileJson (JList xs) \<longrightarrow> \<not> list_all is_jstr xs"
    by simp
  from hm_start_fatal [OF this, of 0 hm_created] show ?thesis by auto
qed

text \<open>
  C35 (error).  New Game raises exactly when the word file holds the empty
  JSON list: that file passes the loader's shape check, and
  \<^verbatim>\<open>random.choice([])\<close> raises IndexError, leaving the page unchanged; at
  start-up the exception escapes the constructor and the application does
  not start.  Every other file starts a round or the fatal state.
\<close>

theorem hm_empty_word_list:
  "((\<exists>e t. hm_start_game f k s = Inl (e, t)) \<longleftrightarrow> f = FileJson (JList [])) \<and>
   hm_start_game (FileJson (JList [])) k s = Inl (IndexError, s)"
  by (auto simp: hm_start_game_def load_hangman_words_def hangman_error_words_def py_choice_def Let_def
           split: file_src.split json.split if_splits sum.split)

theorem hm_empty_word_list_witness:
  "hm_start_game (FileJson (JList [])) 0 hm_created = Inl (IndexError, hm_created)"
  using hm_empty_word_list [of "FileJson (JList [])" 0 hm_created] by blast

text \<open>
  C36 (safety).  Back to Menu does not reset the game, although the
  docstring of \<^verbatim>\<open>back_to_menu\<close> says it does: word, guessed letters,
  attempts, masked word and status are kept, every letter button is
  disabled, and no sequence of letter presses changes the page afterwards,
  so the round in progress cannot be continued until New Game.
\<close>

theorem hm_back_freezes_round:
  "hm_secret (hm_step s HM_Back) = hm_secret s \<and> hm_guessed (hm_step s HM_Back) = hm_guessed s \<and>
   hm_attempts (hm_step s HM_Back) = hm_attempts s \<and> hm_display (hm_step s HM_Back) = hm_display s \<and>
   hm_status (hm_step s HM_Back) = hm_status s \<and> (\<forall>c. hm_letters (hm_step s HM_Back) c \<noteq> Some True) \<and>
   foldl hm_step (hm_step s HM_Back) (map HM_Letter cs) = hm_step s HM_Back"
proof -
  have off: "\<forall>c. hm_letters (hm_step s HM_Back) c \<noteq> Some True" by (simp add: hm_back_def)
  then show ?thesis using hm_letters_frozen [OF off] by (simp add: hm_back_def)
qed

text \<open>
  A round is won only when every character of the secret word
  is one of the letters a-z: a word holding any other character (a space, a
  hyphen, a digit, an accented letter) can never be won.
\<close>

theorem hm_won_word_letters:
  assumes "hm_reachable s" and "hm_status s = HM_Won"
  shows "set (hm_secret s) \<subseteq> set hm_alphabet"
  using hm_reachable_inv [OF assms(1)] assms(2) by (auto simp: hm_inv_def)

theorem hm_won_word_letters_witness:
  "set (hm_secret (foldl hm_step (tk_state (hm_start_game hm_cat_file 0 hm_created))
               [HM_Letter CHR ''c'', HM_Letter CHR ''a'', HM_Letter CHR ''t''])) \<subseteq> set hm_alphabet"
proof -
  let ?st = "tk_state (hm_start_game hm_cat_file 0 hm_created)"
  let ?s = "foldl hm_step ?st [HM_Letter CHR ''c'', HM_Letter CHR ''a'', HM_Letter CHR ''t'']"
  have st: "hm_start_game hm_cat_file 0 hm_created = Inr ?st"
    by (rule tk_state_Inr) code_simp
  have r: "hm_reachable ?s" by (rule hm_reachable_run [OF st])
  have w: "hm_status ?s = HM_Won" by code_simp
  from hm_won_word_letters [OF r w] show ?thesis .
qed

text \<open>
  A word file holding the single valid word "ERROR" is taken
  for the loader's failure sentinel: New Game enters the fatal state although
  the file loaded correctly.
\<close>

theorem hm_sentinel_collision:
  "hm_status (tk_state (hm_start_game (FileJson (JList [JStr ''ERROR''])) k s)) = HM_Fatal"
proof -
  have "load_hangman_words (FileJson (JList [JStr ''ERROR''])) = hangman_error_words"
    by code_simp
  then show ?thesis by (simp add: hm_start_game_def)
qed

text \<open>
  When the chosen word is empty, \<^verbatim>\<open>update_display\<close> finds
  no underscore, reports a win and disables every letter, and
  \<^verbatim>\<open>start_game\<close> then overwrites the status with "Attempts left: 6": the
  page shows a round in progress in which no letter can be pressed.
\<close>

theorem hm_empty_word_stuck:
  assumes "load_hangman_words f = ['''']" and "hm_start_game f k s = Inr t"
  shows "hm_status t = HM_AttemptsLeft 6 \<and> (\<forall>c. hm_letters t c \<noteq> Some True)"
  using assms
  by (auto simp: hm_start_game_def hangman_error_words_def py_choice_def update_display_def
                 get_masked_word_def py_lower_def py_strip_def Let_def)

theorem hm_empty_word_stuck_witness:
  "hm_status (tk_state (hm_start_game (FileJson (JList [JStr ''''])) 0 hm_created)) = HM_AttemptsLeft 6"
proof -
  let ?f = "FileJson (JList [JStr ''''])"
  have l: "load_hangman_words ?f = ['''']" by code_simp
  have st: "hm_start_game ?f 0 hm_created = Inr (tk_state (hm_start_game ?f 0 hm_created))"
    by (rule tk_state_Inr) code_simp
  from hm_empty_word_stuck [OF l st] show ?thesis by simp
qed

text \<open>
  C19 (equivalence).  When no guessed character is whitespace (the page
  only guesses the letters a-z), \<^verbatim>\<open>get_masked_word\<close>, which appends
  "x " or "_ " per letter and strips the result, equals the reference
  rendering: the letters or underscores separated by single spaces.
\<close>

theorem get_masked_word_equiv:
  assumes "\<forall>c \<in> set guessed. \<not> py_isspace c"
  shows "get_masked_word secret guessed = masked_ref secret guessed"
proof (cases "secret = []")
  case True
  then show ?thesis by (simp add: get_masked_word_def masked_ref_def py_strip_def)
next
  case False
  define f where "f = (\<lambda>l. if l \<in> set guessed then l else CHR ''_'')"
  have u: "\<not> py_isspace CHR ''_''" by code_simp
  have sp: "py_isspace CHR '' ''" by code_simp
  have nf: "\<not> py_isspace (f l)" for l using assms u by (simp add: f_def)
  have "concat (map (\<lambda>l. if l \<in> set guessed then [l, CHR '' ''] else ''_ '') secret) =
        concat (map (\<lambda>l. [f l, CHR '' '']) secret)"
    by (rule arg_cong [where f = concat], rule map_cong) (simp_all add: f_def)
  also have "\<dots> = join_with CHR '' '' (map f secret) @ [CHR '' '']"
    by (rule concat_map_pair [OF False])
  finally show ?thesis
    using py_strip_trailing [of "join_with CHR '' '' (map f secret)" "CHR '' ''"] False nf sp
    by (simp add: get_masked_word_def masked_ref_def f_def hd_join_with last_join_with hd_map last_map)
qed

theorem get_masked_word_equiv_witness:
  "get_masked_word ''cat'' ''a'' = ''_ a _''"
proof -
  have "\<forall>c \<in> set ''a''. \<not> py_isspace c" by code_simp
  from get_masked_word_equiv [OF this, of "''cat''"] show ?thesis by (simp add: masked_ref_def)
qed

end
