(* ===== verification/RockPaperScissors.thy ===== *)
theory RockPaperScissors
  imports Prelude
begin

text \<open>
  The rock-paper-scissors page, \<^verbatim>\<open>RockPaperScissorsGUI\<close> in
  \<^verbatim>\<open>src/games_gui.py\<close>.  The page state is the record \<open>rps_state\<close>: the
  choices list, the two scores, what the score and result labels show, and
  the enabled flags of the three choice buttons.  \<^verbatim>\<open>play_round\<close> takes the
  index drawn by \<^verbatim>\<open>random.choice\<close> as an argument.  Above the page sits an
  abstract first-to-3 game over the datatype \<open>hand\<close> with the standard
  beats relation; the refinement lemma shows that every click of the page
  acts on the scores as the abstract game does.
\<close>

subsection \<open>The page\<close>

datatype rps_outcome = RoundTie | RoundPlayer | RoundComputer

text \<open>The result label: the prompt, the last round (both choices and its outcome), or the end of the game.\<close>

datatype rps_message =
    RPS_Choose
  | RPS_Round string string rps_outcome
  | RPS_PlayerWonGame
  | RPS_ComputerWonGame

record rps_state =
  rps_choices :: "string list"
  player_score :: int
  computer_score :: int
  score_label :: "int \<times> int"
  result_label :: rps_message
  rock_enabled :: bool
  paper_enabled :: bool
  scissors_enabled :: bool

definition rps_created :: rps_state where
  "rps_created =
     \<lparr>rps_choices = [''rock'', ''paper'', ''scissors''], player_score = 0, computer_score = 0,
      score_label = (0, 0), result_label = RPS_Choose,
      rock_enabled = True, paper_enabled = True, scissors_enabled = True\<rparr>"

definition update_score_display :: "rps_state \<Rightarrow> rps_state" where
  "update_score_display s = s\<lparr>score_label := (player_score s, computer_score s)\<rparr>"

definition toggle_buttons :: "bool \<Rightarrow> rps_state \<Rightarrow> rps_state" where
  "toggle_buttons st s = s\<lparr>rock_enabled := st, paper_enabled := st, scissors_enabled := st\<rparr>"

text \<open>
  \<^verbatim>\<open>play_round\<close>: draw the computer's choice, classify the round by the
  if/elif chain of the source, bump the winner's score, show the round and
  the scores, and end the game when a score reaches 3.
\<close>

definition play_round :: "string \<Rightarrow> nat \<Rightarrow> rps_state \<Rightarrow> rps_state tk_result" where
  "play_round pc k s =
     (case py_choice (rps_choices s) k of
        Inl e \<Rightarrow> Inl (e, s)
      | Inr cc \<Rightarrow>
          let outcome =
                (if pc = cc then RoundTie
                 else if pc = ''rock'' \<and> cc = ''scissors'' \<or> pc = ''paper'' \<and> cc = ''rock'' \<or>
                         pc = ''scissors'' \<and> cc = ''paper''
                 then RoundPlayer else RoundComputer);
              s1 = (case outcome of
                      RoundTie \<Rightarrow> s
                    | RoundPlayer \<Rightarrow> s\<lparr>player_score := player_score s + 1\<rparr>
                    | RoundComputer \<Rightarrow> s\<lparr>computer_score := computer_score s + 1\<rparr>);
              s2 = update_score_display (s1\<lparr>result_label := RPS_Round pc cc outcome\<rparr>)
          in Inr (if 3 \<le> player_score s2
                  then toggle_buttons False (s2\<lparr>result_label := RPS_PlayerWonGame\<rparr>)
                  else if 3 \<le> computer_score s2
                  then toggle_buttons False (s2\<lparr>result_label := RPS_ComputerWonGame\<rparr>)
                  else s2))"

definition rps_reset_game :: "rps_state \<Rightarrow> rps_state" where
  "rps_reset_game s =
     toggle_buttons True ((update_score_display (s\<lparr>player_score := 0, computer_score := 0\<rparr>))
                            \<lparr>result_label := RPS_Choose\<rparr>)"

datatype rps_button = RockButton | PaperButton | ScissorsButton

fun button_choice :: "rps_button \<Rightarrow> string" where
  "button_choice RockButton = ''rock''"
| "button_choice PaperButton = ''paper''"
| "button_choice ScissorsButton = ''scissors''"

fun rps_button_enabled :: "rps_button \<Rightarrow> rps_state \<Rightarrow> bool" where
  "rps_button_enabled RockButton s = rock_enabled s"
| "rps_button_enabled PaperButton s = paper_enabled s"
| "rps_button_enabled ScissorsButton s = scissors_enabled s"

text \<open>
  The page's events: a choice button with the index \<^verbatim>\<open>random.choice\<close>
  draws, and New Game.  Tk runs a button's command only while the button is
  enabled; Back to Menu only raises another page (see \<open>AppHost\<close>).
\<close>

datatype rps_event = RPS_Click rps_button nat | RPS_NewGame

fun rps_step :: "rps_state \<Rightarrow> rps_event \<Rightarrow> rps_state" where
  "rps_step s (RPS_Click b k) =
     (if rps_button_enabled b s then tk_state (play_round (button_choice b) k s) else s)"
| "rps_step s RPS_NewGame = rps_reset_game s"

abbreviation rps_reachable :: "rps_state \<Rightarrow> bool" where
  "rps_reachable \<equiv> reach rps_step (\<lambda>_. True) (\<lambda>s. s = rps_created)"

subsection \<open>The abstract game\<close>

datatype hand = Rock | Paper | Scissors

fun beats :: "hand \<Rightarrow> hand \<Rightarrow> bool" where
  "beats Rock Scissors = True"
| "beats Scissors Paper = True"
| "beats Paper Rock = True"
| "beats _ _ = False"

fun hand_name :: "hand \<Rightarrow> string" where
  "hand_name Rock = ''rock''"
| "hand_name Paper = ''paper''"
| "hand_name Scissors = ''scissors''"

fun button_hand :: "rps_button \<Rightarrow> hand" where
  "button_hand RockButton = Rock"
| "button_hand PaperButton = Paper"
| "button_hand ScissorsButton = Scissors"

definition hand_of_index :: "nat \<Rightarrow> hand" where
  "hand_of_index k = [Rock, Paper, Scissors] ! (k mod 3)"

definition round_outcome :: "hand \<Rightarrow> hand \<Rightarrow> rps_outcome" where
  "round_outcome p c = (if beats p c then RoundPlayer else if beats c p then RoundComputer else RoundTie)"

text \<open>
  The abstract game is the pair of scores; a round counts only while
  neither score has reached 3.
\<close>

definition abs_play :: "hand \<Rightarrow> hand \<Rightarrow> int \<times> int \<Rightarrow> int \<times> int" where
  "abs_play p c sc =
     (let (ps, cs) = sc
      in if 3 \<le> ps \<or> 3 \<le> cs then (ps, cs)
         else if beats p c then (ps + 1, cs)
         else if beats c p then (ps, cs + 1)
         else (ps, cs))"

definition rps_abs :: "rps_state \<Rightarrow> int \<times> int" where
  "rps_abs s = (player_score s, computer_score s)"

definition rps_inv :: "rps_state \<Rightarrow> bool" where
  "rps_inv s \<longleftrightarrow>
     rps_choices s = [''rock'', ''paper'', ''scissors''] \<and>
     0 \<le> player_score s \<and> player_score s \<le> 3 \<and> 0 \<le> computer_score s \<and> computer_score s \<le> 3 \<and>
     \<not> (player_score s = 3 \<and> computer_score s = 3) \<and>
     score_label s = (player_score s, computer_score s) \<and>
     paper_enabled s = rock_enabled s \<and> scissors_enabled s = rock_enabled s \<and>
     (rock_enabled s \<longleftrightarrow> player_score s < 3 \<and> computer_score s < 3) \<and>
     (player_score s = 3 \<longrightarrow> result_label s = RPS_PlayerWonGame) \<and>
     (computer_score s = 3 \<longrightarrow> result_label s = RPS_ComputerWonGame)"

subsection \<open>Lemmas\<close>

lemma hand_name_choice: "rps_choices s = [''rock'', ''paper'', ''scissors''] \<Longrightarrow>
    py_choice (rps_choices s) k = Inr (hand_name (hand_of_index k))"
proof -
  have "k mod 3 < 3" by simp
  then consider "k mod 3 = 0" | "k mod 3 = 1" | "k mod 3 = 2" by linarith
  moreover assume "rps_choices s = [''rock'', ''paper'', ''scissors'']"
  ultimately show ?thesis by cases (simp_all add: py_choice_def hand_of_index_def)
qed

lemma hand_name_eq [simp]: "hand_name p = hand_name c \<longleftrightarrow> p = c"
  by (cases p; cases c) simp_all

lemma play_round_hand:
  assumes "rps_choices s = [''rock'', ''paper'', ''scissors'']"
  shows "play_round (hand_name p) k s =
    (let c = hand_of_index k; r = round_outcome p c;
         s1 = (case r of RoundTie \<Rightarrow> s
                 | RoundPlayer \<Rightarrow> s\<lparr>player_score := player_score s + 1\<rparr>
                 | RoundComputer \<Rightarrow> s\<lparr>computer_score := computer_score s + 1\<rparr>);
         s2 = update_score_display (s1\<lparr>result_label := RPS_Round (hand_name p) (hand_name c) r\<rparr>)
     in Inr (if 3 \<le> player_score s2 then toggle_buttons False (s2\<lparr>result_label := RPS_PlayerWonGame\<rparr>)
             else if 3 \<le> computer_score s2 then toggle_buttons False (s2\<lparr>result_label := RPS_ComputerWonGame\<rparr>)
             else s2))"
  using hand_name_choice [OF assms, of k]
  by (cases p; cases "hand_of_index k") (simp_all add: play_round_def round_outcome_def Let_def)

lemma button_choice_hand [simp]: "button_choice b = hand_name (button_hand b)"
  by (cases b) simp_all

lemma rps_inv_enabled:
  "rps_inv s \<Longrightarrow> rps_button_enabled b s \<longleftrightarrow> player_score s < 3 \<and> computer_score s < 3"
  by (cases b) (simp_all add: rps_inv_def)

lemma rps_inv_created: "rps_inv rps_created"
  by (simp add: rps_inv_def rps_created_def)

lemma rps_inv_reset: "rps_inv s \<Longrightarrow> rps_inv (rps_reset_game s)"
  by (simp add: rps_inv_def rps_reset_game_def toggle_buttons_def update_score_display_def)

text \<open>A round played while the game runs, by its outcome.\<close>

lemma play_round_running:
  assumes "rps_inv s" and "player_score s < 3" and "computer_score s < 3"
  obtains t where "play_round (hand_name p) k s = Inr t"
    and "rps_abs t = abs_play p (hand_of_index k) (rps_abs s)"
    and "rps_inv t"
    and "player_score t < 3 \<and> computer_score t < 3 \<Longrightarrow>
         result_label t = RPS_Round (hand_name p) (hand_name (hand_of_index k)) (round_outcome p (hand_of_index k))"
proof -
  let ?c = "hand_of_index k"
  have ch: "rps_choices s = [''rock'', ''paper'', ''scissors'']" using assms(1) by (simp add: rps_inv_def)
  show ?thesis
  proof (cases "round_outcome p ?c")
    case RoundTie
    then have "\<not> beats p ?c" "\<not> beats ?c p" by (auto simp: round_outcome_def split: if_splits)
    with RoundTie assms show ?thesis
      by (intro that [of "update_score_display (s\<lparr>result_label := RPS_Round (hand_name p) (hand_name ?c) RoundTie\<rparr>)"])
         (simp_all add: play_round_hand [OF ch] rps_abs_def abs_play_def rps_inv_def update_score_display_def)
  next
    case RoundPlayer
    then have b: "beats p ?c" by (auto simp: round_outcome_def split: if_splits)
    with RoundPlayer assms show ?thesis
      by (intro that [of "let s2 = update_score_display (s\<lparr>player_score := player_score s + 1,
             result_label := RPS_Round (hand_name p) (hand_name ?c) RoundPlayer\<rparr>)
           in if 3 \<le> player_score s2 then toggle_buttons False (s2\<lparr>result_label := RPS_PlayerWonGame\<rparr>) else s2"])
         (auto simp: play_round_hand [OF ch] rps_abs_def abs_play_def rps_inv_def update_score_display_def
                     toggle_buttons_def Let_def)
  next
    case RoundComputer
    then have b: "beats ?c p" "\<not> beats p ?c" by (auto simp: round_outcome_def split: if_splits)
    with RoundComputer assms show ?thesis
      by (intro that [of "let s2 = update_score_display (s\<lparr>computer_score := computer_score s + 1,
             result_label := RPS_Round (hand_name p) (hand_name ?c) RoundComputer\<rparr>)
           in if 3 \<le> computer_score s2 then toggle_buttons False (s2\<lparr>result_label := RPS_ComputerWonGame\<rparr>) else s2"])
         (auto simp: play_round_hand [OF ch] rps_abs_def abs_play_def rps_inv_def update_score_display_def
                     toggle_buttons_def Let_def)
  qed
qed

lemma rps_inv_step: "rps_inv s \<Longrightarrow> rps_inv (rps_step s e)"
proof (cases e)
  case (RPS_Click b k)
  assume inv: "rps_inv s"
  show ?thesis
  proof (cases "rps_button_enabled b s")
    case True
    with inv have "player_score s < 3" "computer_score s < 3" by (simp_all add: rps_inv_enabled)
    from play_round_running [OF inv this, of "button_hand b" k] True RPS_Click show ?thesis
      by (metis button_choice_hand rps_step.simps(1) tk_state.simps(2))
  qed (use inv RPS_Click in simp)
qed (simp add: rps_inv_reset)

lemma rps_reachable_inv: "rps_reachable s \<Longrightarrow> rps_inv s"
  by (erule reach_invariant) (auto simp: rps_inv_created rps_inv_step)

lemma rps_click_running:
  assumes "rps_inv s" and "player_score s < 3" and "computer_score s < 3"
  shows "rps_abs (rps_step s (RPS_Click b k)) = abs_play (button_hand b) (hand_of_index k) (rps_abs s)"
proof -
  have en: "rps_button_enabled b s" using assms by (simp add: rps_inv_enabled)
  obtain t where t: "play_round (hand_name (button_hand b)) k s = Inr t"
    and abs: "rps_abs t = abs_play (button_hand b) (hand_of_index k) (rps_abs s)"
    by (rule play_round_running [OF assms, of "button_hand b" k])
  from en t have "rps_step s (RPS_Click b k) = t" by simp
  with abs show ?thesis by simp
qed

lemma rps_rock_run:
  assumes "rps_inv s" and "computer_score s < 3" and "player_score s + int m = 3"
  shows "player_score (foldl rps_step s (replicate m (RPS_Click RockButton 2))) = 3"
  using assms
proof (induction m arbitrary: s)
  case 0
  then show ?case by simp
next
  case (Suc m)
  then have ps: "player_score s < 3" by simp
  let ?t = "rps_step s (RPS_Click RockButton 2)"
  have "rps_abs ?t = (player_score s + 1, computer_score s)"
    using rps_click_running [OF Suc.prems(1) ps Suc.prems(2), of RockButton 2] ps Suc.prems(2)
    by (simp add: abs_play_def rps_abs_def hand_of_index_def)
  then have "player_score ?t + int m = 3" "computer_score ?t < 3"
    using Suc.prems by (simp_all add: rps_abs_def)
  from Suc.IH [OF rps_inv_step [OF Suc.prems(1)] this(2,1)] show ?case by simp
qed

lemma rps_reachable_run: "rps_reachable (foldl rps_step rps_created es)"
  by (rule reach_run) (simp_all add: list_all_iff)

subsection \<open>Properties of the page\<close>

text \<open>
  C5 (refinement).  Every click of a choice button on a reachable page acts
  on the two scores exactly as one round of the abstract first-to-3 game,
  with the player's hand given by the button and the computer's by the
  index \<^verbatim>\<open>random.choice\<close> draws; a click after the game is over changes
  nothing, as in the abstract game.
\<close>

theorem rps_refines_abstract:
  assumes "rps_reachable s"
  shows "rps_abs (rps_step s (RPS_Click b k)) = abs_play (button_hand b) (hand_of_index k) (rps_abs s)"
proof -
  have inv: "rps_inv s" by (rule rps_reachable_inv [OF assms])
  show ?thesis
  proof (cases "player_score s < 3 \<and> computer_score s < 3")
    case True
    with rps_click_running [OF inv] show ?thesis by blast
  next
    case False
    with inv show ?thesis by (auto simp: rps_inv_enabled abs_play_def rps_abs_def)
  qed
qed

theorem rps_refines_abstract_witness:
  "rps_abs (rps_step rps_created (RPS_Click RockButton 2)) = (1, 0)"
proof -
  have r: "rps_reachable rps_created" by (rule reach_init) simp
  from rps_refines_abstract [OF r, of RockButton 2] show ?thesis
    by (simp add: rps_abs_def rps_created_def abs_play_def hand_of_index_def)
qed

text \<open>
  C6 (functional).  For each of the nine pairs of the player's and the
  computer's hand, \<^verbatim>\<open>play_round\<close> never raises, gives the point to the hand
  that beats the other by the standard relation (none on a tie), and, while
  the game goes on, shows both hands and the outcome.
\<close>

theorem play_round_table:
  assumes "rps_choices s = [''rock'', ''paper'', ''scissors'']"
  shows "\<exists>t. play_round (hand_name p) k s = Inr t \<and>
     player_score t = player_score s + (if beats p (hand_of_index k) then 1 else 0) \<and>
     computer_score t = computer_score s + (if beats (hand_of_index k) p then 1 else 0) \<and>
     (player_score t < 3 \<and> computer_score t < 3 \<longrightarrow>
        result_label t = RPS_Round (hand_name p) (hand_name (hand_of_index k)) (round_outcome p (hand_of_index k)))"
  using play_round_hand [OF assms, of p k]
  by (cases p; cases "hand_of_index k")
     (simp_all add: round_outcome_def update_score_display_def toggle_buttons_def Let_def)

theorem play_round_table_witness:
  "player_score (tk_state (play_round ''paper'' 0 rps_created)) = 1"
proof -
  have c: "rps_choices rps_created = [''rock'', ''paper'', ''scissors'']" by (simp add: rps_created_def)
  from play_round_table [OF c, of Paper 0] show ?thesis
    by (auto simp: hand_of_index_def rps_created_def)
qed

text \<open>
  In every reachable state of the page both scores are in
  0..3 and not both 3, the score label shows them, the three choice buttons
  are enabled together exactly while both scores are below 3, and a score
  of 3 is announced as the winner of the game.
\<close>

theorem rps_reachable_invariant:
  assumes "rps_reachable s"
  shows "0 \<le> player_score s \<and> player_score s \<le> 3 \<and> 0 \<le> computer_score s \<and> computer_score s \<le> 3 \<and>
     \<not> (player_score s = 3 \<and> computer_score s = 3) \<and>
     score_label s = (player_score s, computer_score s) \<and>
     (\<forall>b. rps_button_enabled b s \<longleftrightarrow> player_score s < 3 \<and> computer_score s < 3) \<and>
     (player_score s = 3 \<longrightarrow> result_label s = RPS_PlayerWonGame) \<and>
     (computer_score s = 3 \<longrightarrow> result_label s = RPS_ComputerWonGame)"
proof -
  have inv: "rps_inv s" by (rule rps_reachable_inv [OF assms])
  then show ?thesis using rps_inv_enabled [OF inv] by (simp add: rps_inv_def)
qed

theorem rps_reachable_invariant_witness:
  "computer_score (foldl rps_step rps_created [RPS_Click PaperButton 2, RPS_Click PaperButton 2]) = 2 \<and>
   score_label (foldl rps_step rps_created [RPS_Click PaperButton 2, RPS_Click PaperButton 2]) = (0, 2)"
proof -
  let ?s = "foldl rps_step rps_created [RPS_Click PaperButton 2, RPS_Click PaperButton 2]"
  have c: "computer_score ?s = 2" "player_score ?s = 0" by code_simp+
  from rps_reachable_invariant [OF rps_reachable_run [of "[RPS_Click PaperButton 2, RPS_Click PaperButton 2]"]] c
  show ?thesis by simp
qed

text \<open>
  C21 (safety).  Once a score has reached 3 the game is over: the result
  label names the winner and no choice button changes the page until New
  Game.
\<close>

theorem rps_game_over_frozen:
  assumes "rps_reachable s" and "3 \<le> player_score s \<or> 3 \<le> computer_score s"
  shows "rps_step s (RPS_Click b k) = s \<and>
         (result_label s = RPS_PlayerWonGame \<or> result_label s = RPS_ComputerWonGame)"
proof -
  have inv: "rps_inv s" by (rule rps_reachable_inv [OF assms(1)])
  with assms(2) show ?thesis by (auto simp: rps_inv_enabled) (auto simp: rps_inv_def)
qed

theorem rps_game_over_frozen_witness:
  "result_label (foldl rps_step rps_created (replicate 3 (RPS_Click RockButton 2))) = RPS_PlayerWonGame"
proof -
  let ?s = "foldl rps_step rps_created (replicate 3 (RPS_Click RockButton 2))"
  have p: "3 \<le> player_score ?s" by code_simp
  have "result_label ?s = RPS_PlayerWonGame \<or> result_label ?s = RPS_ComputerWonGame"
    using rps_game_over_frozen [OF rps_reachable_run, of _ RockButton 0] p by blast
  moreover have "result_label ?s \<noteq> RPS_ComputerWonGame" by code_simp
  ultimately show ?thesis by blast
qed

lemma rps_rock_score_run:
  assumes "rps_reachable s"
  shows "\<exists>n \<le> 3. 3 \<le> player_score (foldl rps_step s (replicate n (RPS_Click RockButton 2))) \<or>
                 3 \<le> computer_score (foldl rps_step s (replicate n (RPS_Click RockButton 2)))"
proof -
  have inv: "rps_inv s" by (rule rps_reachable_inv [OF assms])
  show ?thesis
  proof (cases "player_score s < 3 \<and> computer_score s < 3")
    case True
    let ?n = "nat (3 - player_score s)"
    have "player_score s + int ?n = 3" using inv True by (simp add: rps_inv_def)
    from rps_rock_run [OF inv _ this] True have "player_score (foldl rps_step s (replicate ?n (RPS_Click RockButton 2))) = 3"
      by simp
    moreover have "?n \<le> 3" using inv by (simp add: rps_inv_def nat_le_iff)
    ultimately show ?thesis by fastforce
  next
    case False
    then show ?thesis by (intro exI [of _ 0]) auto
  qed
qed

text \<open>
  C25 (liveness).  From every reachable state at most three presses of Rock,
  each drawn against scissors, end the game: the three choice buttons are
  then disabled and the result label names the winner of the game.
\<close>

theorem rps_game_can_end:
  assumes "rps_reachable s"
  shows "\<exists>n \<le> 3. (\<forall>b. \<not> rps_button_enabled b (foldl rps_step s (replicate n (RPS_Click RockButton 2)))) \<and>
           (result_label (foldl rps_step s (replicate n (RPS_Click RockButton 2))) = RPS_PlayerWonGame \<or>
            result_label (foldl rps_step s (replicate n (RPS_Click RockButton 2))) = RPS_ComputerWonGame)"
proof -
  obtain n where n: "n \<le> 3"
    and sc: "3 \<le> player_score (foldl rps_step s (replicate n (RPS_Click RockButton 2))) \<or>
             3 \<le> computer_score (foldl rps_step s (replicate n (RPS_Click RockButton 2)))"
    using rps_rock_score_run [OF assms] by blast
  let ?t = "foldl rps_step s (replicate n (RPS_Click RockButton 2))"
  have "rps_reachable ?t" using assms by (rule reach_foldl) (simp add: list_all_iff)
  then have inv: "rps_inv ?t" by (rule rps_reachable_inv)
  have "\<forall>b. \<not> rps_button_enabled b ?t" using sc by (auto simp: rps_inv_enabled [OF inv])
  moreover have "result_label ?t = RPS_PlayerWonGame \<or> result_label ?t = RPS_ComputerWonGame"
    using inv sc by (auto simp: rps_inv_def)
  ultimately show ?thesis using n by blast
qed

theorem rps_game_can_end_witness:
  "\<exists>n \<le> 3. (\<forall>b. \<not> rps_button_enabled b (foldl rps_step rps_created (replicate n (RPS_Click RockButton 2)))) \<and>
     (result_label (foldl rps_step rps_created (replicate n (RPS_Click RockButton 2))) = RPS_PlayerWonGame \<or>
      result_label (foldl rps_step rps_created (replicate n (RPS_Click RockButton 2))) = RPS_ComputerWonGame)"
proof -
  have "rps_reachable rps_created" by (rule reach_init) simp
  then show ?thesis by (rule rps_game_can_end)
qed

end
