(* ===== verification/HigherOrLower.thy ===== *)
theory HigherOrLower
  imports PyStr
begin

text \<open>
  The higher-or-lower page, class \<^verbatim>\<open>HigherOrLowerGUI\<close> of
  \<^verbatim>\<open>src/games_gui.py\<close>.  The page state is the target, the attempt
  counter, the game log (its lines as a datatype of messages), the status
  label, the entry text and the enabled states of the entry and the Guess
  button.  The draw of \<^verbatim>\<open>random.randint(1, 100)\<close> is an argument of
  \<open>hol_start_game\<close>; the page is admissible only with draws in 1..100.
  Unlike the number guessing page there is no cap on the attempts; the
  theory shows that a player who bisects the range still always wins
  within seven guesses.
\<close>

datatype hol_msg =
    HOL_Started
  | HOL_OutOfRange
  | HOL_Correct int int
  | HOL_Higher int
  | HOL_Lower int
  | HOL_Invalid

record hol_state =
  hol_target :: int
  hol_attempts :: int
  hol_log :: "hol_msg list"
  hol_status :: int
  hol_entry :: string
  hol_entry_enabled :: bool
  hol_button_enabled :: bool

subsection \<open>Operations\<close>

definition hol_log_msg :: "hol_msg \<Rightarrow> hol_state \<Rightarrow> hol_state" where
  "hol_log_msg m s = s\<lparr>hol_log := hol_log s @ [m]\<rparr>"

text \<open>The page as \<^verbatim>\<open>__init__\<close> builds it, before its call of \<^verbatim>\<open>start_game\<close>.\<close>

definition hol_created :: hol_state where
  "hol_created =
     \<lparr>hol_target = 0, hol_attempts = 0, hol_log = [], hol_status = 0, hol_entry = [],
      hol_entry_enabled = True, hol_button_enabled = True\<rparr>"

text \<open>\<^verbatim>\<open>start_game\<close>, with the draw \<open>r\<close> of \<^verbatim>\<open>random.randint(1, 100)\<close>.\<close>

definition hol_start_game :: "int \<Rightarrow> hol_state \<Rightarrow> hol_state" where
  "hol_start_game r s =
     (hol_log_msg HOL_Started (s\<lparr>hol_target := r, hol_attempts := 0, hol_log := [], hol_status := 0\<rparr>))
       \<lparr>hol_button_enabled := True, hol_entry_enabled := True, hol_entry := []\<rparr>"

definition hol_end_game :: "hol_state \<Rightarrow> hol_state" where
  "hol_end_game s = s\<lparr>hol_button_enabled := False, hol_entry_enabled := False\<rparr>"

text \<open>
  \<^verbatim>\<open>check_guess\<close>: read and clear the entry; \<^verbatim>\<open>int()\<close> failing is the
  \<^verbatim>\<open>except ValueError\<close> branch; an out-of-range number returns early.
\<close>

definition hol_check_guess :: "hol_state \<Rightarrow> hol_state" where
  "hol_check_guess s0 =
     (let guess_str = hol_entry s0; s = s0\<lparr>hol_entry := []\<rparr>
      in case py_int guess_str of
           Inl _ \<Rightarrow> hol_log_msg HOL_Invalid s
         | Inr guess \<Rightarrow>
             if \<not> (1 \<le> guess \<and> guess \<le> 100) then hol_log_msg HOL_OutOfRange s
             else
               let s1 = s\<lparr>hol_attempts := hol_attempts s + 1, hol_status := hol_attempts s + 1\<rparr>
               in if guess = hol_target s1
                  then hol_end_game (hol_log_msg (HOL_Correct (hol_target s1) (hol_attempts s1)) s1)
                  else if guess < hol_target s1 then hol_log_msg (HOL_Higher guess) s1
                  else hol_log_msg (HOL_Lower guess) s1)"

datatype hol_event = HOL_Type string | HOL_Guess | HOL_New int

fun hol_step :: "hol_state \<Rightarrow> hol_event \<Rightarrow> hol_state" where
  "hol_step s (HOL_Type t) = (if hol_entry_enabled s then s\<lparr>hol_entry := t\<rparr> else s)"
| "hol_step s HOL_Guess = (if hol_button_enabled s then hol_check_guess s else s)"
| "hol_step s (HOL_New r) = hol_start_game r s"

fun hol_ok :: "hol_event \<Rightarrow> bool" where
  "hol_ok (HOL_New r) = (1 \<le> r \<and> r \<le> 100)"
| "hol_ok _ = True"

definition hol_start :: "hol_state \<Rightarrow> bool" where
  "hol_start s = (\<exists>r. 1 \<le> r \<and> r \<le> 100 \<and> s = hol_start_game r hol_created)"

abbreviation hol_reachable :: "hol_state \<Rightarrow> bool" where
  "hol_reachable \<equiv> reach hol_step hol_ok hol_start"

definition hol_inv :: "hol_state \<Rightarrow> bool" where
  "hol_inv s \<longleftrightarrow>
     1 \<le> hol_target s \<and> hol_target s \<le> 100 \<and> 0 \<le> hol_attempts s \<and>
     hol_status s = hol_attempts s \<and> hol_entry_enabled s = hol_button_enabled s \<and>
     (\<not> hol_button_enabled s \<longrightarrow> hol_log s \<noteq> [] \<and>
        last (hol_log s) = HOL_Correct (hol_target s) (hol_attempts s))"

text \<open>
  A player who bisects: type the midpoint of the range still possible, press
  Guess, and narrow the range by the hint the log shows, for at most
  \<open>n\<close> guesses.
\<close>

fun hol_bisect :: "int \<Rightarrow> int \<Rightarrow> nat \<Rightarrow> hol_state \<Rightarrow> hol_state" where
  "hol_bisect lo hi 0 s = s"
| "hol_bisect lo hi (Suc n) s =
     (if \<not> hol_button_enabled s then s
      else
        let m = (lo + hi) div 2;
            t = hol_step (hol_step s (HOL_Type (py_str_int m))) HOL_Guess
        in case last (hol_log t) of
             HOL_Higher _ \<Rightarrow> hol_bisect (m + 1) hi n t
           | HOL_Lower _ \<Rightarrow> hol_bisect lo (m - 1) n t
           | _ \<Rightarrow> t)"

subsection \<open>Lemmas\<close>

lemma hol_log_msg_fields [simp]:
  "hol_target (hol_log_msg m s) = hol_target s" "hol_attempts (hol_log_msg m s) = hol_attempts s"
  "hol_status (hol_log_msg m s) = hol_status s" "hol_entry (hol_log_msg m s) = hol_entry s"
  "hol_entry_enabled (hol_log_msg m s) = hol_entry_enabled s"
  "hol_button_enabled (hol_log_msg m s) = hol_button_enabled s"
  "hol_log (hol_log_msg m s) = hol_log s @ [m]"
  by (simp_all add: hol_log_msg_def)

lemma hol_check_guess_valid:
  assumes "py_int (hol_entry s) = Inr g" and "1 \<le> g" and "g \<le> 100"
  shows "hol_attempts (hol_check_guess s) = hol_attempts s + 1 \<and>
         hol_status (hol_check_guess s) = hol_attempts s + 1 \<and>
         hol_target (hol_check_guess s) = hol_target s \<and>
         hol_button_enabled (hol_check_guess s) = (hol_button_enabled s \<and> g \<noteq> hol_target s) \<and>
         hol_entry_enabled (hol_check_guess s) = (hol_entry_enabled s \<and> g \<noteq> hol_target s) \<and>
         hol_log (hol_check_guess s) = hol_log s @
           [if g = hol_target s then HOL_Correct (hol_target s) (hol_attempts s + 1)
            else if g < hol_target s then HOL_Higher g else HOL_Lower g]"
  using assms by (simp add: hol_check_guess_def hol_end_game_def Let_def)

lemma hol_check_guess_invalid:
  assumes "\<not> (\<exists>g. py_int (hol_entry s) = Inr g \<and> 1 \<le> g \<and> g \<le> 100)"
  shows "hol_check_guess s = hol_log_msg
           (case py_int (hol_entry s) of Inl _ \<Rightarrow> HOL_Invalid | Inr _ \<Rightarrow> HOL_OutOfRange)
           (s\<lparr>hol_entry := []\<rparr>)"
  using assms by (auto simp: hol_check_guess_def split: sum.split)

lemma hol_inv_start: "1 \<le> r \<Longrightarrow> r \<le> 100 \<Longrightarrow> hol_inv (hol_start_game r s)"
  by (simp add: hol_inv_def hol_start_game_def hol_log_msg_def)

lemma hol_inv_step:
  assumes inv: "hol_inv s" and ok: "hol_ok e"
  shows "hol_inv (hol_step s e)"
proof (cases e)
  case HOL_Guess
  show ?thesis
  proof (cases "hol_button_enabled s \<and> (\<exists>g. py_int (hol_entry s) = Inr g \<and> 1 \<le> g \<and> g \<le> 100)")
    case True
    then obtain g where g: "py_int (hol_entry s) = Inr g" "1 \<le> g" "g \<le> 100" by blast
    from hol_check_guess_valid [OF g] inv True HOL_Guess show ?thesis by (auto simp: hol_inv_def)
  next
    case False
    with inv HOL_Guess show ?thesis
      by (cases "hol_button_enabled s") (auto simp: hol_inv_def hol_check_guess_invalid)
  qed
next
  case (HOL_New r)
  with ok show ?thesis by (simp add: hol_inv_start)
next
  case (HOL_Type t)
  with inv show ?thesis by (simp add: hol_inv_def)
qed

lemma hol_reachable_inv: "hol_reachable s \<Longrightarrow> hol_inv s"
  by (erule reach_invariant) (auto simp: hol_start_def hol_inv_start hol_inv_step)

lemma bisect_halves:
  fixes lo hi m K :: int
  assumes "hi - lo + 1 < 2 * K" and "m = (lo + hi) div 2"
  shows "hi - (m + 1) + 1 < K" and "(m - 1) - lo + 1 < K"
  using assms by presburger+

text \<open>One guess of the number \<open>m\<close> typed into the enabled entry.\<close>

lemma hol_type_guess:
  assumes "hol_entry_enabled s" and "hol_button_enabled s" and "1 \<le> m" and "m \<le> 100"
  shows "hol_step (hol_step s (HOL_Type (py_str_int m))) HOL_Guess = hol_check_guess (s\<lparr>hol_entry := py_str_int m\<rparr>)"
    and "py_int (hol_entry (s\<lparr>hol_entry := py_str_int m\<rparr>)) = Inr m"
  using assms by (simp_all add: py_int_str_small)

lemma hol_bisect_wins_from:
  assumes "hol_entry_enabled s" and "hol_button_enabled s"
    and "lo \<le> hol_target s" and "hol_target s \<le> hi" and "1 \<le> lo" and "hi \<le> 100"
    and "hi - lo + 1 < 2 ^ n"
  shows "\<not> hol_button_enabled (hol_bisect lo hi n s) \<and>
         hol_attempts (hol_bisect lo hi n s) \<le> hol_attempts s + int n \<and>
         last (hol_log (hol_bisect lo hi n s)) = HOL_Correct (hol_target s) (hol_attempts (hol_bisect lo hi n s))"
  using assms
proof (induction n arbitrary: lo hi s)
  case 0
  then show ?case by simp
next
  case (Suc n)
  define m where "m = (lo + hi) div 2"
  let ?s' = "s\<lparr>hol_entry := py_str_int m\<rparr>"
  define t where "t = hol_check_guess ?s'"
  have m: "lo \<le> m" "m \<le> hi" using Suc.prems(3,4) by (simp_all add: m_def)
  with Suc.prems have m100: "1 \<le> m" "m \<le> 100" by simp_all
  note tg = hol_type_guess [OF Suc.prems(1,2) m100]
  note v = hol_check_guess_valid [OF tg(2) m100]
  have step: "hol_bisect lo hi (Suc n) s =
      (case last (hol_log t) of HOL_Higher _ \<Rightarrow> hol_bisect (m + 1) hi n t
         | HOL_Lower _ \<Rightarrow> hol_bisect lo (m - 1) n t | _ \<Rightarrow> t)"
    unfolding m_def t_def
    by (simp only: hol_bisect.simps Let_def Suc.prems(2) not_True_eq_False if_False tg(1) [unfolded m_def])
  have sz: "hi - (m + 1) + 1 < 2 ^ n" "(m - 1) - lo + 1 < 2 ^ n"
    using bisect_halves [of hi lo "2 ^ n" m] Suc.prems(7) m_def by simp_all
  consider "m = hol_target s" | "m < hol_target s" | "hol_target s < m" by linarith
  then show ?case
  proof cases
    case 1
    with v Suc.prems show ?thesis unfolding step by (simp add: t_def)
  next
    case 2
    with v Suc.prems m100 have "hol_entry_enabled t" "hol_button_enabled t" "m + 1 \<le> hol_target t"
      "hol_target t \<le> hi" "1 \<le> m + 1" "last (hol_log t) = HOL_Higher m" "hol_attempts t = hol_attempts s + 1"
      by (simp_all add: t_def)
    from Suc.IH [OF this(1-4) this(5) Suc.prems(6) sz(1)] this v show ?thesis unfolding step by (simp add: t_def)
  next
    case 3
    with v Suc.prems m100 have "hol_entry_enabled t" "hol_button_enabled t" "lo \<le> hol_target t"
      "hol_target t \<le> m - 1" "m - 1 \<le> 100" "last (hol_log t) = HOL_Lower m" "hol_attempts t = hol_attempts s + 1"
      by (simp_all add: t_def)
    from Suc.IH [OF this(1-4) Suc.prems(5) this(5) sz(2)] this v show ?thesis unfolding step by (simp add: t_def)
  qed
qed

lemma hol_start_reachable: "1 \<le> r \<Longrightarrow> r \<le> 100 \<Longrightarrow> hol_reachable (hol_start_game r hol_created)"
  by (rule reach_init) (auto simp: hol_start_def)

subsection \<open>Properties of the page\<close>

text \<open>
  C18 (functional).  A guess that \<^verbatim>\<open>int()\<close> reads as a number in 1..100
  costs one attempt, shown in the status label; the round ends exactly on
  the target, whatever the number of attempts (there is no cap), and the
  log then congratulates with the attempt count, otherwise hints Higher or
  Lower.  On the winning guess \<^verbatim>\<open>end_game\<close> disables the entry and the
  button but leaves the status label at the attempt count: its docstring
  says it updates the status at the end of a round, and the code does not.
\<close>

theorem hol_valid_guess:
  assumes "hol_reachable s" and "hol_button_enabled s"
    and "py_int (hol_entry s) = Inr g" and "1 \<le> g" and "g \<le> 100"
  shows "hol_attempts (hol_step s HOL_Guess) = hol_attempts s + 1 \<and>
         hol_status (hol_step s HOL_Guess) = hol_attempts s + 1 \<and>
         (hol_button_enabled (hol_step s HOL_Guess) \<longleftrightarrow> g \<noteq> hol_target s) \<and>
         last (hol_log (hol_step s HOL_Guess)) =
           (if g = hol_target s then HOL_Correct (hol_target s) (hol_attempts s + 1)
            else if g < hol_target s then HOL_Higher g else HOL_Lower g)"
  using hol_check_guess_valid [OF assms(3-5)] assms(2) by simp

theorem hol_valid_guess_witness:
  "last (hol_log (foldl hol_step (hol_start_game 37 hol_created) [HOL_Type ''50'', HOL_Guess])) = HOL_Lower 50"
proof -
  let ?s = "hol_step (hol_start_game 37 hol_created) (HOL_Type ''50'')"
  have r: "hol_reachable ?s" by (rule reach_step [OF hol_start_reachable]) simp_all
  have h: "hol_button_enabled ?s" "py_int (hol_entry ?s) = Inr 50" "hol_target ?s = 37" by code_simp+
  from hol_valid_guess [OF r h(1,2)] h(3) show ?thesis by simp
qed

text \<open>
  C17 (bounds).  Although the attempts are not capped, every running round
  is won within seven more guesses by a player who types the midpoint of
  the range still possible and follows the hint: the button is then
  disabled and the log congratulates.
\<close>

theorem hol_bisect_wins:
  assumes "hol_reachable s" and "hol_button_enabled s"
  shows "\<not> hol_button_enabled (hol_bisect 1 100 7 s) \<and>
         hol_attempts (hol_bisect 1 100 7 s) \<le> hol_attempts s + 7 \<and>
         last (hol_log (hol_bisect 1 100 7 s)) = HOL_Correct (hol_target s) (hol_attempts (hol_bisect 1 100 7 s))"
proof -
  have inv: "hol_inv s" by (rule hol_reachable_inv [OF assms(1)])
  then have "hol_entry_enabled s" "1 \<le> hol_target s" "hol_target s \<le> 100" using assms(2)
    by (simp_all add: hol_inv_def)
  from hol_bisect_wins_from [OF this(1) assms(2) this(2,3), of 7] show ?thesis by simp
qed

theorem hol_bisect_wins_witness:
  "\<not> hol_button_enabled (hol_bisect 1 100 7 (hol_start_game 37 hol_created))"
proof -
  have e: "hol_button_enabled (hol_start_game 37 hol_created)" by (simp add: hol_start_game_def hol_log_msg_def)
  from hol_bisect_wins [OF hol_start_reachable e] show ?thesis by simp
qed

text \<open>
  In every reachable state of the page the target is in
  1..100, the attempts are never negative and the status label shows them,
  the entry and the button are enabled together, and a disabled page has
  just congratulated on the target.
\<close>

theorem hol_reachable_invariant:
  assumes "hol_reachable s"
  shows "1 \<le> hol_target s \<and> hol_target s \<le> 100 \<and> 0 \<le> hol_attempts s \<and>
     hol_status s = hol_attempts s \<and> hol_entry_enabled s = hol_button_enabled s \<and>
     (\<not> hol_button_enabled s \<longrightarrow> last (hol_log s) = HOL_Correct (hol_target s) (hol_attempts s))"
  using hol_reachable_inv [OF assms] by (simp add: hol_inv_def)

theorem hol_reachable_invariant_witness:
  "hol_target (hol_start_game 42 hol_created) = 42 \<and> hol_status (hol_start_game 42 hol_created) = 0"
proof -
  from hol_reachable_invariant [OF hol_start_reachable [of 42]]
  show ?thesis by (simp add: hol_start_game_def hol_log_msg_def)
qed

end
