(* ===== verification/DiceRolling.thy ===== *)
theory DiceRolling
  imports PyStr
begin

text \<open>
  The dice betting page, class \<^verbatim>\<open>DiceRollingGUI\<close> of
  \<^verbatim>\<open>src/games_gui.py\<close>.  The page state is the money (a Python int, so
  \<open>int\<close>), the value of the High/Low radio variable, what the money label
  shows, the game log (its lines as a datatype of messages), the entry text
  and the enabled states of the entry and the Place Bet button.  The roll of
  \<^verbatim>\<open>random.randint(1, 6)\<close> is an argument of \<open>place_bet\<close>; the page is
  admissible only with rolls in 1..6 and radio values "h" and "l", the
  values of its two radio buttons.
\<close>

datatype dr_msg =
    DR_Welcome
  | DR_NotPositive
  | DR_TooMuch int
  | DR_RoundHeader
  | DR_BetOn int bool
  | DR_Rolled int
  | DR_Win int
  | DR_Lose int
  | DR_GameOver
  | DR_Invalid
  | DR_NewGame

record dr_state =
  dr_money :: int
  dr_bet_choice :: string
  dr_money_label :: int
  dr_log :: "dr_msg list"
  dr_entry :: string
  dr_entry_enabled :: bool
  dr_button_enabled :: bool

subsection \<open>Operations\<close>

definition dr_log_msg :: "dr_msg \<Rightarrow> dr_state \<Rightarrow> dr_state" where
  "dr_log_msg m s = s\<lparr>dr_log := dr_log s @ [m]\<rparr>"

definition update_money_display :: "dr_state \<Rightarrow> dr_state" where
  "update_money_display s = s\<lparr>dr_money_label := dr_money s\<rparr>"

definition dr_created :: dr_state where
  "dr_created =
     \<lparr>dr_money = 100, dr_bet_choice = ''h'', dr_money_label = 100, dr_log = [DR_Welcome],
      dr_entry = [], dr_entry_enabled = True, dr_button_enabled = True\<rparr>"

text \<open>The win test of \<^verbatim>\<open>place_bet\<close>, line by line.\<close>

definition dr_is_win :: "string \<Rightarrow> int \<Rightarrow> bool" where
  "dr_is_win choice dice = (choice = ''h'' \<and> 4 \<le> dice \<or> choice = ''l'' \<and> dice \<le> 3)"

text \<open>
  \<^verbatim>\<open>place_bet\<close> with the roll \<open>d\<close>: read and clear the entry; \<^verbatim>\<open>int()\<close>
  failing is the \<^verbatim>\<open>except ValueError\<close> branch; a non-positive bet and a
  bet above the money return early after a warning.
\<close>

definition place_bet :: "int \<Rightarrow> dr_state \<Rightarrow> dr_state" where
  "place_bet d s0 =
     (let bet_str = dr_entry s0; s = s0\<lparr>dr_entry := []\<rparr>
      in case py_int bet_str of
           Inl _ \<Rightarrow> dr_log_msg DR_Invalid s
         | Inr bet \<Rightarrow>
             if bet \<le> 0 then dr_log_msg DR_NotPositive s
             else if bet > dr_money s then dr_log_msg (DR_TooMuch (dr_money s)) s
             else
               let choice = dr_bet_choice s;
                   s1 = dr_log_msg (DR_Rolled d) (dr_log_msg (DR_BetOn bet (choice = ''h''))
                          (dr_log_msg DR_RoundHeader s));
                   s2 = (if dr_is_win choice d
                         then dr_log_msg (DR_Win bet) (s1\<lparr>dr_money := dr_money s1 + bet\<rparr>)
                         else dr_log_msg (DR_Lose bet) (s1\<lparr>dr_money := dr_money s1 - bet\<rparr>));
                   s3 = update_money_display s2
               in if dr_money s3 \<le> 0
                  then (dr_log_msg DR_GameOver s3)\<lparr>dr_button_enabled := False, dr_entry_enabled := False\<rparr>
                  else s3)"

text \<open>\<^verbatim>\<open>reset_game\<close>: money back to 100, the log cleared and restarted, the controls enabled.\<close>

definition dr_reset_game :: "dr_state \<Rightarrow> dr_state" where
  "dr_reset_game s =
     (dr_log_msg DR_NewGame ((update_money_display (s\<lparr>dr_money := 100\<rparr>))\<lparr>dr_log := []\<rparr>))
       \<lparr>dr_button_enabled := True, dr_entry_enabled := True\<rparr>"

text \<open>
  The page's events: typing into the entry (only while it is enabled),
  selecting a radio button, Place Bet with the roll (only while the button
  is enabled) and New Game.
\<close>

datatype dr_event = DR_Type string | DR_Choose string | DR_Bet int | DR_New

fun dr_step :: "dr_state \<Rightarrow> dr_event \<Rightarrow> dr_state" where
  "dr_step s (DR_Type t) = (if dr_entry_enabled s then s\<lparr>dr_entry := t\<rparr> else s)"
| "dr_step s (DR_Choose c) = s\<lparr>dr_bet_choice := c\<rparr>"
| "dr_step s (DR_Bet d) = (if dr_button_enabled s then place_bet d s else s)"
| "dr_step s DR_New = dr_reset_game s"

fun dr_ok :: "dr_event \<Rightarrow> bool" where
  "dr_ok (DR_Bet d) = (1 \<le> d \<and> d \<le> 6)"
| "dr_ok (DR_Choose c) = (c = ''h'' \<or> c = ''l'')"
| "dr_ok _ = True"

abbreviation dr_reachable :: "dr_state \<Rightarrow> bool" where
  "dr_reachable \<equiv> reach dr_step dr_ok (\<lambda>s. s = dr_created)"

definition dr_inv :: "dr_state \<Rightarrow> bool" where
  "dr_inv s \<longleftrightarrow>
     0 \<le> dr_money s \<and> dr_money_label s = dr_money s \<and>
     dr_entry_enabled s = dr_button_enabled s \<and> (dr_button_enabled s \<longleftrightarrow> 0 < dr_money s) \<and>
     (dr_bet_choice s = ''h'' \<or> dr_bet_choice s = ''l'')"

text \<open>A round that loses all the money: bet 100 on High and roll a 1.\<close>

definition dr_bust :: "dr_event list" where
  "dr_bust = [DR_Type ''100'', DR_Bet 1]"

subsection \<open>Lemmas\<close>

lemma dr_log_msg_fields [simp]:
  "dr_money (dr_log_msg m s) = dr_money s" "dr_bet_choice (dr_log_msg m s) = dr_bet_choice s"
  "dr_money_label (dr_log_msg m s) = dr_money_label s" "dr_entry (dr_log_msg m s) = dr_entry s"
  "dr_entry_enabled (dr_log_msg m s) = dr_entry_enabled s"
  "dr_button_enabled (dr_log_msg m s) = dr_button_enabled s"
  by (simp_all add: dr_log_msg_def)

text \<open>A bet that \<^verbatim>\<open>int()\<close> reads as \<open>bet\<close> with \<open>0 < bet \<le> money\<close>.\<close>

lemma place_bet_valid:
  assumes "py_int (dr_entry s) = Inr bet" and "0 < bet" and "bet \<le> dr_money s"
  shows "dr_money (place_bet d s) =
           (if dr_is_win (dr_bet_choice s) d then dr_money s + bet else dr_money s - bet) \<and>
         dr_money_label (place_bet d s) = dr_money (place_bet d s) \<and>
         dr_bet_choice (place_bet d s) = dr_bet_choice s \<and>
         dr_button_enabled (place_bet d s) = (dr_button_enabled s \<and> 0 < dr_money (place_bet d s)) \<and>
         dr_entry_enabled (place_bet d s) = (dr_entry_enabled s \<and> 0 < dr_money (place_bet d s)) \<and>
         dr_entry (place_bet d s) = []"
  using assms by (simp add: place_bet_def update_money_display_def Let_def)

lemma place_bet_rejected:
  assumes "\<not> (\<exists>bet. py_int (dr_entry s) = Inr bet \<and> 0 < bet \<and> bet \<le> dr_money s)"
  shows "place_bet d s = dr_log_msg
           (case py_int (dr_entry s) of Inl _ \<Rightarrow> DR_Invalid
            | Inr bet \<Rightarrow> if bet \<le> 0 then DR_NotPositive else DR_TooMuch (dr_money s))
           (s\<lparr>dr_entry := []\<rparr>)"
  using assms by (auto simp: place_bet_def split: sum.split)

lemma dr_inv_created: "dr_inv dr_created"
  by (simp add: dr_inv_def dr_created_def)

lemma dr_inv_step:
  assumes inv: "dr_inv s" and ok: "dr_ok e"
  shows "dr_inv (dr_step s e)"
proof (cases e)
  case (DR_Bet d)
  show ?thesis
  proof (cases "dr_button_enabled s \<and> (\<exists>bet. py_int (dr_entry s) = Inr bet \<and> 0 < bet \<and> bet \<le> dr_money s)")
    case True
    then obtain bet where b: "py_int (dr_entry s) = Inr bet" "0 < bet" "bet \<le> dr_money s" by blast
    from place_bet_valid [OF b, of d] b inv True DR_Bet show ?thesis by (simp add: dr_inv_def)
  next
    case False
    with inv DR_Bet show ?thesis
      by (cases "dr_button_enabled s") (auto simp: dr_inv_def place_bet_rejected)
  qed
qed (use inv ok in \<open>auto simp: dr_inv_def dr_reset_game_def update_money_display_def dr_log_msg_def\<close>)

lemma dr_reachable_inv: "dr_reachable s \<Longrightarrow> dr_inv s"
  by (erule reach_invariant) (auto simp: dr_inv_created dr_inv_step)

lemma dr_reachable_run: "list_all dr_ok es \<Longrightarrow> dr_reachable (foldl dr_step dr_created es)"
  by (rule reach_run) simp_all

subsection \<open>Properties of the page\<close>

text \<open>
  C15 (bounds).  In every reachable state of the dice page the money is never
  negative and the money label shows it; the entry and the Place Bet button
  are enabled together, exactly while the money is positive.
\<close>

theorem dr_money_bounds:
  assumes "dr_reachable s"
  shows "0 \<le> dr_money s \<and> dr_money_label s = dr_money s \<and>
         dr_entry_enabled s = dr_button_enabled s \<and> (dr_button_enabled s \<longleftrightarrow> 0 < dr_money s)"
  using dr_reachable_inv [OF assms] by (simp add: dr_inv_def)

theorem dr_money_bounds_witness:
  "dr_money (foldl dr_step dr_created dr_bust) = 0 \<and>
   \<not> dr_button_enabled (foldl dr_step dr_created dr_bust)"
proof -
  have r: "dr_reachable (foldl dr_step dr_created dr_bust)"
    by (rule dr_reachable_run) (simp add: dr_bust_def)
  have m: "dr_money (foldl dr_step dr_created dr_bust) = 0" by code_simp
  from dr_money_bounds [OF r] m show ?thesis by simp
qed

text \<open>
  C16 (functional).  A bet that \<^verbatim>\<open>int()\<close> reads as a number in 1..money
  changes the money by exactly the bet: up when the roll matches the chosen
  side (High 4-6, Low 1-3), down otherwise; the controls are disabled
  exactly when no money is left.
\<close>

theorem dr_valid_bet:
  assumes "dr_reachable s" and "dr_button_enabled s"
    and "py_int (dr_entry s) = Inr bet" and "0 < bet" and "bet \<le> dr_money s"
  shows "dr_money (dr_step s (DR_Bet d)) =
           (if dr_bet_choice s = ''h'' \<and> 4 \<le> d \<or> dr_bet_choice s = ''l'' \<and> d \<le> 3
            then dr_money s + bet else dr_money s - bet) \<and>
         (dr_button_enabled (dr_step s (DR_Bet d)) \<longleftrightarrow> 0 < dr_money (dr_step s (DR_Bet d)))"
  using place_bet_valid [OF assms(3-5), of d] assms(2) by (simp add: dr_is_win_def)

theorem dr_valid_bet_witness:
  "dr_money (foldl dr_step dr_created [DR_Type ''30'', DR_Bet 5]) = 130"
proof -
  let ?s = "dr_step dr_created (DR_Type ''30'')"
  have r: "dr_reachable ?s" using dr_reachable_run [of "[DR_Type ''30'']"] by simp
  have h: "dr_button_enabled ?s" "py_int (dr_entry ?s) = Inr 30" "(0::int) < 30" "30 \<le> dr_money ?s"
    by code_simp+
  from dr_valid_bet [OF r h, of 5] show ?thesis by (simp add: dr_created_def)
qed

text \<open>
  C30 (error).  Place Bet with an entry that is not an integer, not positive
  or above the money only appends one warning to the log and clears the
  entry: money, label and controls are unchanged.
\<close>

theorem dr_rejected_bet:
  assumes "dr_button_enabled s"
    and "\<not> (\<exists>bet. py_int (dr_entry s) = Inr bet \<and> 0 < bet \<and> bet \<le> dr_money s)"
  shows "dr_money (dr_step s (DR_Bet d)) = dr_money s \<and>
         dr_money_label (dr_step s (DR_Bet d)) = dr_money_label s \<and>
         dr_button_enabled (dr_step s (DR_Bet d)) \<and>
         dr_entry_enabled (dr_step s (DR_Bet d)) = dr_entry_enabled s \<and>
         dr_entry (dr_step s (DR_Bet d)) = [] \<and>
         length (dr_log (dr_step s (DR_Bet d))) = Suc (length (dr_log s))"
  using assms by (simp add: place_bet_rejected dr_log_msg_def)

theorem dr_rejected_bet_witness:
  "dr_money (dr_step (dr_step dr_created (DR_Type ''250'')) (DR_Bet 3)) = 100"
proof -
  let ?s = "dr_step dr_created (DR_Type ''250'')"
  have e: "dr_button_enabled ?s" by (simp add: dr_created_def)
  have n: "\<not> (\<exists>bet. py_int (dr_entry ?s) = Inr bet \<and> 0 < bet \<and> bet \<le> dr_money ?s)"
  proof -
    have "py_int (dr_entry ?s) = Inr 250" "dr_money ?s = 100" by code_simp+
    then show ?thesis by simp
  qed
  from dr_rejected_bet [OF e n, of 3] show ?thesis by (simp add: dr_created_def)
qed

text \<open>
  C31 (safety).  With no money left, every event but New Game leaves the
  money at 0 and betting disabled; New Game restores 100 and enables
  betting.
\<close>

theorem dr_broke_until_reset:
  assumes "dr_reachable s" and "dr_money s = 0" and "e \<noteq> DR_New"
  shows "dr_money (dr_step s e) = 0 \<and> \<not> dr_button_enabled (dr_step s e) \<and>
         dr_money (dr_step s DR_New) = 100 \<and> dr_button_enabled (dr_step s DR_New)"
proof -
  have "\<not> dr_button_enabled s" using dr_reachable_inv [OF assms(1)] assms(2) by (simp add: dr_inv_def)
  with assms(3) show ?thesis
    by (cases e) (simp_all add: dr_reset_game_def dr_log_msg_def update_money_display_def assms(2))
qed

theorem dr_broke_until_reset_witness:
  "dr_money (dr_step (foldl dr_step dr_created dr_bust) (DR_Bet 6)) = 0 \<and>
   dr_money (dr_step (foldl dr_step dr_created dr_bust) DR_New) = 100"
proof -
  have r: "dr_reachable (foldl dr_step dr_created dr_bust)"
    by (rule dr_reachable_run) (simp add: dr_bust_def)
  have m: "dr_money (foldl dr_step dr_created dr_bust) = 0" by code_simp
  from dr_broke_until_reset [OF r m, of "DR_Bet 6"] show ?thesis by simp
qed

end
