(* ===== verification/Quiz.thy ===== *)
theory Quiz
  imports Loaders
begin

text \<open>
  The quiz page, class \<^verbatim>\<open>QuizGameGUI\<close> of \<^verbatim>\<open>src/games_gui.py\<close>.  The
  page keeps what \<^verbatim>\<open>load_quiz_questions\<close> returned as a JSON value and
  reads it with Python's operations (\<open>py_len\<close>, \<open>py_getitem_int\<close>,
  \<open>py_getitem_str\<close>, \<open>py_strip_lower\<close> of \<open>Loaders\<close>), so a file of the
  wrong shape raises where the code raises.  \<^verbatim>\<open>self.after(1000,
  self.show_next_question)\<close> is modelled by the page's queue of pending
  callbacks: \<^verbatim>\<open>submit_answer\<close> appends to it, and the Tk event loop fires
  the oldest pending callback as an event of its own, \<open>QZ_Timer\<close>, which
  may come after any number of user events.
\<close>

datatype qz_score_text = QZ_Score int int | QZ_Final int int

datatype qz_question_text =
    QZ_Blank
  | QZ_Question int json
  | QZ_NoQuestions
  | QZ_Finished int int

datatype qz_feedback = QZ_NoFeedback | QZ_Correct | QZ_Wrong string

datatype qz_callback = ShowNextQuestion

record quiz_state =
  qz_questions :: json
  qz_index :: int
  qz_score :: int
  qz_score_label :: qz_score_text
  qz_question_label :: qz_question_text
  qz_entry :: string
  qz_entry_enabled :: bool
  qz_submit_enabled :: bool
  qz_feedback :: qz_feedback
  qz_pending :: "qz_callback list"

subsection \<open>Operations\<close>

text \<open>The page as \<^verbatim>\<open>__init__\<close> builds it, before its call of \<^verbatim>\<open>start_game\<close>.\<close>

definition quiz_created :: quiz_state where
  "quiz_created =
     \<lparr>qz_questions = JList [], qz_index = 0, qz_score = 0, qz_score_label = QZ_Score 0 0,
      qz_question_label = QZ_Blank, qz_entry = [], qz_entry_enabled = True,
      qz_submit_enabled = True, qz_feedback = QZ_NoFeedback, qz_pending = []\<rparr>"

text \<open>\<^verbatim>\<open>answer_entry.delete(0, tk.END)\<close>: Tk ignores it on a disabled entry.\<close>

definition qz_entry_delete :: "quiz_state \<Rightarrow> quiz_state" where
  "qz_entry_delete s = (if qz_entry_enabled s then s\<lparr>qz_entry := []\<rparr> else s)"

definition quiz_end_game :: "quiz_state \<Rightarrow> quiz_state tk_result" where
  "quiz_end_game s =
     (case py_len (qz_questions s) of
        Inl e \<Rightarrow> Inl (e, s)
      | Inr n \<Rightarrow> Inr (s\<lparr>qz_question_label := QZ_Finished (qz_score s) n,
                        qz_score_label := QZ_Final (qz_score s) n,
                        qz_submit_enabled := False, qz_entry_enabled := False\<rparr>))"

definition show_next_question :: "quiz_state \<Rightarrow> quiz_state tk_result" where
  "show_next_question s =
     (case py_len (qz_questions s) of
        Inl e \<Rightarrow> Inl (e, s)
      | Inr n \<Rightarrow>
          if qz_index s < n then
            (case py_getitem_int (qz_questions s) (qz_index s) of
               Inl e \<Rightarrow> Inl (e, s)
             | Inr q_data \<Rightarrow>
                 (case py_getitem_str q_data ''question'' of
                    Inl e \<Rightarrow> Inl (e, s)
                  | Inr q \<Rightarrow>
                      Inr ((qz_entry_delete (s\<lparr>qz_question_label := QZ_Question (qz_index s + 1) q,
                                               qz_score_label := QZ_Score (qz_score s) n\<rparr>))
                             \<lparr>qz_feedback := QZ_NoFeedback\<rparr>)))
          else quiz_end_game s)"

text \<open>\<^verbatim>\<open>start_game\<close>, with the outcome \<open>f\<close> of reading the question file.\<close>

definition quiz_start_game :: "file_src \<Rightarrow> quiz_state \<Rightarrow> quiz_state tk_result" where
  "quiz_start_game f s =
     (let s1 = s\<lparr>qz_questions := load_quiz_questions f, qz_index := 0, qz_score := 0,
                 qz_submit_enabled := True, qz_entry_enabled := True, qz_feedback := QZ_NoFeedback\<rparr>
      in if py_truthy (qz_questions s1) then show_next_question s1
         else Inr (s1\<lparr>qz_question_label := QZ_NoQuestions, qz_submit_enabled := False\<rparr>))"

text \<open>
  \<^verbatim>\<open>submit_answer\<close>: grade the entry against the current question's
  answer, both stripped and lower-cased, advance the index and schedule
  \<^verbatim>\<open>show_next_question\<close>.
\<close>

definition submit_answer :: "quiz_state \<Rightarrow> quiz_state tk_result" where
  "submit_answer s =
     (case py_len (qz_questions s) of
        Inl e \<Rightarrow> Inl (e, s)
      | Inr n \<Rightarrow>
          if n \<le> qz_index s then Inr s
          else
            (case py_getitem_int (qz_questions s) (qz_index s) of
               Inl e \<Rightarrow> Inl (e, s)
             | Inr q_data \<Rightarrow>
                 let user_answer = py_lower (py_strip (qz_entry s))
                 in (case py_getitem_str q_data ''answer'' of
                       Inl e \<Rightarrow> Inl (e, s)
                     | Inr a \<Rightarrow>
                         (case py_strip_lower a of
                            Inl e \<Rightarrow> Inl (e, s)
                          | Inr correct_answer \<Rightarrow>
                              let s1 = (if user_answer = correct_answer
                                        then s\<lparr>qz_score := qz_score s + 1, qz_feedback := QZ_Correct\<rparr>
                                        else s\<lparr>qz_feedback := QZ_Wrong correct_answer\<rparr>)
                              in Inr (s1\<lparr>qz_index := qz_index s1 + 1,
                                         qz_pending := qz_pending s1 @ [ShowNextQuestion]\<rparr>)))))"

text \<open>
  The page's events: typing into the entry (only while it is enabled),
  Submit (only while it is enabled), New Game with the outcome of reading
  the file, and the Tk loop firing the oldest pending callback.
\<close>

datatype quiz_event = QZ_Type string | QZ_Submit | QZ_New file_src | QZ_Timer

fun quiz_handle :: "quiz_state \<Rightarrow> quiz_event \<Rightarrow> quiz_state tk_result" where
  "quiz_handle s (QZ_Type t) = Inr (if qz_entry_enabled s then s\<lparr>qz_entry := t\<rparr> else s)"
| "quiz_handle s QZ_Submit = (if qz_submit_enabled s then submit_answer s else Inr s)"
| "quiz_handle s (QZ_New f) = quiz_start_game f s"
| "quiz_handle s QZ_Timer =
     (case qz_pending s of
        [] \<Rightarrow> Inr s
      | ShowNextQuestion # rest \<Rightarrow> show_next_question (s\<lparr>qz_pending := rest\<rparr>))"

definition quiz_step :: "quiz_state \<Rightarrow> quiz_event \<Rightarrow> quiz_state" where
  "quiz_step s e = tk_state (quiz_handle s e)"

text \<open>
  Well-formed question data: a list of dicts, each with a \<^verbatim>\<open>question\<close>
  key and a string under \<^verbatim>\<open>answer\<close>, the shape the specification asks of
  the question file.
\<close>

fun qz_wf_item :: "json \<Rightarrow> bool" where
  "qz_wf_item (JObject kvs) =
     (map_of (rev kvs) ''question'' \<noteq> None \<and>
      (case map_of (rev kvs) ''answer'' of Some (JStr _) \<Rightarrow> True | _ \<Rightarrow> False))"
| "qz_wf_item _ = False"

definition qz_wf_file :: "file_src \<Rightarrow> bool" where
  "qz_wf_file f = (case load_quiz_questions f of JList qs \<Rightarrow> list_all qz_wf_item qs | _ \<Rightarrow> False)"

fun qz_answer_of :: "json \<Rightarrow> string" where
  "qz_answer_of (JObject kvs) = (case map_of (rev kvs) ''answer'' of Some (JStr a) \<Rightarrow> a | _ \<Rightarrow> [])"
| "qz_answer_of _ = []"

fun qz_ok :: "quiz_event \<Rightarrow> bool" where
  "qz_ok (QZ_New f) = qz_wf_file f"
| "qz_ok _ = True"

definition qz_wf_start :: "quiz_state \<Rightarrow> bool" where
  "qz_wf_start s = (\<exists>f. qz_wf_file f \<and> quiz_start_game f quiz_created = Inr s)"

abbreviation quiz_wf_reachable :: "quiz_state \<Rightarrow> bool" where
  "quiz_wf_reachable \<equiv> reach quiz_step qz_ok qz_wf_start"

definition qz_inv :: "quiz_state \<Rightarrow> bool" where
  "qz_inv s \<longleftrightarrow> (\<exists>qs. qz_questions s = JList qs \<and> list_all qz_wf_item qs) \<and> 0 \<le> qz_index s"

text \<open>
  A player who answers each question and waits for the next one: type the
  answer, press Submit, and let the pending callback fire.  The number of
  answers that match the expected ones after stripping and lower-casing,
  and the state in which question \<open>i\<close> is shown with score \<open>c\<close>.
\<close>

definition qz_answer_round :: "string \<Rightarrow> quiz_event list" where
  "qz_answer_round a = [QZ_Type a, QZ_Submit, QZ_Timer]"

definition qz_matches :: "string list \<Rightarrow> json list \<Rightarrow> nat" where
  "qz_matches as qs =
     length (filter (\<lambda>(a, q). py_lower (py_strip a) = py_lower (py_strip (qz_answer_of q))) (zip as qs))"

definition qz_showing :: "json list \<Rightarrow> nat \<Rightarrow> int \<Rightarrow> quiz_state \<Rightarrow> bool" where
  "qz_showing qs i c t \<longleftrightarrow>
     qz_questions t = JList qs \<and> list_all qz_wf_item qs \<and> qz_index t = int i \<and> i < length qs \<and>
     qz_score t = c \<and> qz_pending t = [] \<and> qz_entry_enabled t \<and> qz_submit_enabled t"

text \<open>A question record and a three-question file used by the concrete scenarios.\<close>

definition qz_item :: "string \<Rightarrow> string \<Rightarrow> json" where
  "qz_item q a = JObject [(''question'', JStr q), (''answer'', JStr a)]"

definition qz_three :: file_src where
  "qz_three = FileJson (JList [qz_item ''Capital of France?'' ''Paris'', qz_item ''2 + 2?'' ''4'',
                               qz_item ''The red planet?'' ''Mars''])"

subsection \<open>Lemmas\<close>

lemma qz_wf_item_get:
  assumes "qz_wf_item q"
  shows "\<exists>v. py_getitem_str q ''question'' = Inr v"
    and "py_getitem_str q ''answer'' = Inr (JStr (qz_answer_of q))"
  using assms by (cases q; auto split: option.splits json.splits)+

lemma qz_list_get:
  assumes "list_all qz_wf_item qs" and "0 \<le> i" and "i < int (length qs)"
  shows "py_getitem_int (JList qs) i = Inr (qs ! nat i) \<and> qz_wf_item (qs ! nat i)"
  using assms py_index_nat [of "nat i" qs] by (simp add: list_all_length)

lemma qz_inv_fields:
  "qz_inv (s\<lparr>qz_score := c\<rparr>) = qz_inv s" "qz_inv (s\<lparr>qz_feedback := fb\<rparr>) = qz_inv s"
  "qz_inv (s\<lparr>qz_pending := p\<rparr>) = qz_inv s" "qz_inv (s\<lparr>qz_entry := t\<rparr>) = qz_inv s"
  "qz_inv (s\<lparr>qz_question_label := ql\<rparr>) = qz_inv s" "qz_inv (s\<lparr>qz_score_label := sl\<rparr>) = qz_inv s"
  "qz_inv (s\<lparr>qz_submit_enabled := b\<rparr>) = qz_inv s" "qz_inv (s\<lparr>qz_entry_enabled := b\<rparr>) = qz_inv s"
  by (simp_all add: qz_inv_def)

lemma qz_inv_show_next:
  assumes "qz_inv s"
  shows "\<exists>t. show_next_question s = Inr t \<and> qz_inv t"
proof -
  obtain qs where qs: "qz_questions s = JList qs" "list_all qz_wf_item qs" and i: "0 \<le> qz_index s"
    using assms by (auto simp: qz_inv_def)
  show ?thesis
  proof (cases "qz_index s < int (length qs)")
    case True
    with qz_list_get [OF qs(2) i] obtain v where
      "py_getitem_int (JList qs) (qz_index s) = Inr (qs ! nat (qz_index s))"
      "py_getitem_str (qs ! nat (qz_index s)) ''question'' = Inr v"
      using qz_wf_item_get(1) by blast
    with True qs assms show ?thesis
      by (simp add: show_next_question_def qz_entry_delete_def qz_inv_def)
  qed (use qs assms in \<open>simp add: show_next_question_def quiz_end_game_def qz_inv_def\<close>)
qed

lemma qz_inv_submit:
  assumes "qz_inv s"
  shows "\<exists>t. submit_answer s = Inr t \<and> qz_inv t"
proof -
  obtain qs where qs: "qz_questions s = JList qs" "list_all qz_wf_item qs" and i: "0 \<le> qz_index s"
    using assms by (auto simp: qz_inv_def)
  show ?thesis
  proof (cases "qz_index s < int (length qs)")
    case True
    with qz_list_get [OF qs(2) i] qz_wf_item_get(2) have
      "py_getitem_int (JList qs) (qz_index s) = Inr (qs ! nat (qz_index s))"
      "py_getitem_str (qs ! nat (qz_index s)) ''answer'' = Inr (JStr (qz_answer_of (qs ! nat (qz_index s))))"
      by blast+
    with True qs assms show ?thesis
      by (simp add: submit_answer_def qz_inv_def Let_def)
  qed (use qs assms in \<open>simp add: submit_answer_def\<close>)
qed

lemma qz_inv_start:
  assumes "qz_wf_file f"
  shows "\<exists>t. quiz_start_game f s = Inr t \<and> qz_inv t"
proof -
  obtain qs where qs: "load_quiz_questions f = JList qs" "list_all qz_wf_item qs"
    using assms by (auto simp: qz_wf_file_def split: json.splits)
  let ?s1 = "s\<lparr>qz_questions := load_quiz_questions f, qz_index := 0, qz_score := 0,
                 qz_submit_enabled := True, qz_entry_enabled := True, qz_feedback := QZ_NoFeedback\<rparr>"
  have "qz_inv ?s1" using qs by (simp add: qz_inv_def)
  with qz_inv_show_next [of ?s1] show ?thesis
    by (auto simp: quiz_start_game_def Let_def qz_inv_def)
qed

lemma qz_inv_handle:
  assumes "qz_inv s" and "qz_ok e"
  shows "\<exists>t. quiz_handle s e = Inr t \<and> qz_inv t"
proof (cases e)
  case QZ_Timer
  with assms qz_inv_show_next [of "s\<lparr>qz_pending := tl (qz_pending s)\<rparr>"] show ?thesis
    by (cases "qz_pending s") (auto simp: qz_inv_fields split: qz_callback.split)
qed (use assms qz_inv_submit qz_inv_start in \<open>auto simp: qz_inv_fields\<close>)

lemma quiz_wf_reachable_inv: "quiz_wf_reachable s \<Longrightarrow> qz_inv s"
proof (erule reach_invariant)
  fix s assume "qz_wf_start s"
  then obtain f where "qz_wf_file f" "quiz_start_game f quiz_created = Inr s" by (auto simp: qz_wf_start_def)
  with qz_inv_start [OF this(1), of quiz_created] show "qz_inv s" by auto
next
  fix s e assume "qz_inv s" "qz_ok e"
  from qz_inv_handle [OF this] show "qz_inv (quiz_step s e)" by (auto simp: quiz_step_def)
qed

lemma qz_round:
  fixes a :: string
  assumes sh: "qz_showing qs i c t"
  defines "m \<equiv> (if py_lower (py_strip a) = py_lower (py_strip (qz_answer_of (qs ! i))) then 1 else 0 :: int)"
  shows "Suc i < length qs \<Longrightarrow> qz_showing qs (Suc i) (c + m) (foldl quiz_step t (qz_answer_round a))"
    and "Suc i = length qs \<Longrightarrow>
           qz_score (foldl quiz_step t (qz_answer_round a)) = c + m \<and>
           qz_score_label (foldl quiz_step t (qz_answer_round a)) = QZ_Final (c + m) (int (length qs)) \<and>
           qz_question_label (foldl quiz_step t (qz_answer_round a)) = QZ_Finished (c + m) (int (length qs)) \<and>
           \<not> qz_entry_enabled (foldl quiz_step t (qz_answer_round a)) \<and>
           \<not> qz_submit_enabled (foldl quiz_step t (qz_answer_round a))"
proof -
  from sh have q: "qz_questions t = JList qs" "list_all qz_wf_item qs" "qz_index t = int i" "i < length qs"
    and c: "qz_score t = c" "qz_pending t = []" "qz_entry_enabled t" "qz_submit_enabled t"
    by (simp_all add: qz_showing_def)
  from qz_list_get [OF q(2), of "int i"] q(4) have g: "py_getitem_int (JList qs) (int i) = Inr (qs ! i)"
    and wf: "qz_wf_item (qs ! i)" by simp_all
  let ?t1 = "t\<lparr>qz_entry := a\<rparr>"
  let ?t2 = "?t1\<lparr>qz_score := c + m,
               qz_feedback := (if m = 1 then QZ_Correct else QZ_Wrong (py_lower (py_strip (qz_answer_of (qs ! i))))),
               qz_index := int i + 1, qz_pending := [ShowNextQuestion]\<rparr>"
  have s2: "foldl quiz_step t [QZ_Type a, QZ_Submit] = ?t2"
    using q c g qz_wf_item_get(2) [OF wf]
    by (simp add: quiz_step_def submit_answer_def m_def Let_def)
  have r: "foldl quiz_step t (qz_answer_round a) = tk_state (show_next_question (?t2\<lparr>qz_pending := []\<rparr>))"
    using s2 by (simp add: qz_answer_round_def quiz_step_def)
  show "Suc i < length qs \<Longrightarrow> qz_showing qs (Suc i) (c + m) (foldl quiz_step t (qz_answer_round a))"
  proof -
    assume lt: "Suc i < length qs"
    have g': "py_getitem_int (JList qs) (int i + 1) = Inr (qs ! Suc i)"
      using py_index_nat [of "Suc i" qs] lt by (simp add: add.commute)
    have wf': "qz_wf_item (qs ! Suc i)" using q(2) lt by (simp add: list_all_length)
    obtain v where "py_getitem_str (qs ! Suc i) ''question'' = Inr v" using qz_wf_item_get(1) [OF wf'] by blast
    with r g' lt q c show ?thesis by (simp add: show_next_question_def qz_showing_def qz_entry_delete_def)
  qed
  show "Suc i = length qs \<Longrightarrow> qz_score (foldl quiz_step t (qz_answer_round a)) = c + m \<and>
           qz_score_label (foldl quiz_step t (qz_answer_round a)) = QZ_Final (c + m) (int (length qs)) \<and>
           qz_question_label (foldl quiz_step t (qz_answer_round a)) = QZ_Finished (c + m) (int (length qs)) \<and>
           \<not> qz_entry_enabled (foldl quiz_step t (qz_answer_round a)) \<and>
           \<not> qz_submit_enabled (foldl quiz_step t (qz_answer_round a))"
    using r q by (simp add: show_next_question_def quiz_end_game_def)
qed

lemma qz_matches_Cons:
  "i < length qs \<Longrightarrow> qz_matches (a # as) (drop i qs) =
     (if py_lower (py_strip a) = py_lower (py_strip (qz_answer_of (qs ! i))) then 1 else 0) +
     qz_matches as (drop (Suc i) qs)"
  by (simp add: qz_matches_def Cons_nth_drop_Suc [symmetric])

lemma qz_rounds:
  assumes "qz_showing qs i c t" and "i + length as = length qs"
  shows "qz_score (foldl quiz_step t (concat (map qz_answer_round as))) = c + int (qz_matches as (drop i qs)) \<and>
         qz_score_label (foldl quiz_step t (concat (map qz_answer_round as))) =
           QZ_Final (c + int (qz_matches as (drop i qs))) (int (length qs)) \<and>
         \<not> qz_entry_enabled (foldl quiz_step t (concat (map qz_answer_round as))) \<and>
         \<not> qz_submit_enabled (foldl quiz_step t (concat (map qz_answer_round as)))"
  using assms
proof (induction as arbitrary: i c t)
  case Nil
  then show ?case by (simp add: qz_showing_def)
next
  case (Cons a as)
  have lt: "i < length qs" using Cons.prems(1) by (simp add: qz_showing_def)
  show ?case
  proof (cases "as = []")
    case True
    with Cons.prems qz_round(2) [OF Cons.prems(1), of a] lt show ?thesis
      by (simp add: qz_matches_Cons) (simp add: qz_matches_def)
  next
    case False
    with Cons.prems(2) have "Suc i < length qs" by (cases as) simp_all
    from Cons.IH [OF qz_round(1) [OF Cons.prems(1) this, of a]] Cons.prems(2) lt show ?thesis
      by (simp add: qz_matches_Cons)
  qed
qed

lemma qz_start_showing:
  assumes "load_quiz_questions f = JList qs" and "list_all qz_wf_item qs" and "qs \<noteq> []"
    and "qz_pending s = []"
  shows "qz_showing qs 0 0 (tk_state (quiz_start_game f s))"
proof -
  from qz_list_get [OF assms(2), of 0] assms(3) have g: "py_getitem_int (JList qs) 0 = Inr (qs ! 0)"
    and wf: "qz_wf_item (qs ! 0)" by simp_all
  obtain v where "py_getitem_str (qs ! 0) ''question'' = Inr v" using qz_wf_item_get(1) [OF wf] by blast
  with g assms show ?thesis
    by (simp add: quiz_start_game_def show_next_question_def qz_showing_def qz_entry_delete_def)
qed

subsection \<open>Properties of the page\<close>

text \<open>
  C11 (type).  With well-formed question data (a list of dicts, each with a
  question and a string answer), no handler of the quiz page raises: not
  the start, not Submit, not New Game with a well-formed file, and not a
  pending callback, in any interleaving of user events and timer firings.
\<close>

theorem quiz_wf_no_exception:
  assumes "quiz_wf_reachable s" and "qz_ok e"
  shows "\<exists>t. quiz_handle s e = Inr t"
  using qz_inv_handle [OF quiz_wf_reachable_inv [OF assms(1)] assms(2)] by blast

theorem quiz_wf_no_exception_witness:
  "\<exists>t. quiz_handle (tk_state (quiz_start_game qz_three quiz_created)) QZ_Submit = Inr t"
proof -
  have w: "qz_wf_file qz_three" by code_simp
  have st: "quiz_start_game qz_three quiz_created = Inr (tk_state (quiz_start_game qz_three quiz_created))"
    by (rule tk_state_Inr) code_simp
  have r: "quiz_wf_reachable (tk_state (quiz_start_game qz_three quiz_created))"
    by (rule reach_init) (use w st in \<open>auto simp: qz_wf_start_def\<close>)
  from quiz_wf_no_exception [OF r, of QZ_Submit] show ?thesis by simp
qed

text \<open>
  C12 (functional).  A player who answers every question of a well-formed,
  non-empty file, each time waiting for the next question, ends with the
  score equal to the number of answers that match after stripping and
  lower-casing, the final score label "Final Score: score/number of
  questions", and the input disabled.
\<close>

theorem quiz_final_score:
  assumes "load_quiz_questions f = JList qs" and "list_all qz_wf_item qs" and "qs \<noteq> []"
    and "qz_pending s = []" and "length answers = length qs"
  shows "qz_score (foldl quiz_step (tk_state (quiz_start_game f s)) (concat (map qz_answer_round answers)))
           = int (qz_matches answers qs) \<and>
         qz_score_label (foldl quiz_step (tk_state (quiz_start_game f s)) (concat (map qz_answer_round answers)))
           = QZ_Final (int (qz_matches answers qs)) (int (length qs)) \<and>
         \<not> qz_submit_enabled (foldl quiz_step (tk_state (quiz_start_game f s)) (concat (map qz_answer_round answers)))"
  using qz_rounds [OF qz_start_showing [OF assms(1-4)], of answers] assms(5) by simp

theorem quiz_final_score_witness:
  "qz_score_label (foldl quiz_step (tk_state (quiz_start_game qz_three quiz_created))
      (concat (map qz_answer_round ['' PARIS '', ''5'', ''mars'']))) = QZ_Final 2 3"
proof -
  have h: "load_quiz_questions qz_three = JList [qz_item ''Capital of France?'' ''Paris'', qz_item ''2 + 2?'' ''4'',
                               qz_item ''The red planet?'' ''Mars'']"
    by (simp add: qz_three_def load_quiz_questions_def)
  have w: "list_all qz_wf_item [qz_item ''Capital of France?'' ''Paris'', qz_item ''2 + 2?'' ''4'',
                               qz_item ''The red planet?'' ''Mars'']" by code_simp
  have m: "qz_matches ['' PARIS '', ''5'', ''mars''] [qz_item ''Capital of France?'' ''Paris'', qz_item ''2 + 2?'' ''4'',
                               qz_item ''The red planet?'' ''Mars''] = 2" by code_simp
  from quiz_final_score [OF h w _ _, of quiz_created "['' PARIS '', ''5'', ''mars'']"] m show ?thesis
    by (simp add: quiz_created_def)
qed

text \<open>
  C32 (safety).  Submit does not disable itself, change the question shown or
  clear the entry; it only advances the index and schedules the next
  question.  During the one-second delay a second Submit therefore grades
  the same text against the next question, and that question is never
  shown.
\<close>

theorem quiz_submit_stays_open:
  assumes "submit_answer s = Inr t" and "qz_index s < n" and "py_len (qz_questions s) = Inr n"
  shows "qz_submit_enabled t = qz_submit_enabled s \<and> qz_entry t = qz_entry s \<and>
         qz_question_label t = qz_question_label s \<and> qz_index t = qz_index s + 1 \<and>
         qz_pending t = qz_pending s @ [ShowNextQuestion]"
  using assms
  by (auto simp: submit_answer_def Let_def split: sum.splits if_splits)

theorem quiz_submit_stays_open_witness:
  "qz_submit_enabled (quiz_step (tk_state (quiz_start_game qz_three quiz_created)) QZ_Submit)"
proof -
  let ?s = "tk_state (quiz_start_game qz_three quiz_created)"
  have h: "submit_answer ?s = Inr (quiz_step ?s QZ_Submit)" "qz_index ?s < 3" "py_len (qz_questions ?s) = Inr 3"
    "qz_submit_enabled ?s" by code_simp+
  from quiz_submit_stays_open [OF h(1-3)] h(4) show ?thesis by simp
qed

text \<open>
  C33 (error).  \<^verbatim>\<open>load_quiz_questions\<close> returns the decoded value without
  checking its shape: any top-level value that is true in Python but not a
  list (a non-empty object or string, a non-zero number, true) makes
  \<^verbatim>\<open>start_game\<close> raise, at start-up from the page's constructor.
\<close>

theorem quiz_malformed_start:
  assumes "f = FileJson v" and "py_truthy v" and "\<forall>qs. v \<noteq> JList qs"
  shows "\<exists>e t. quiz_start_game f s = Inl (e, t)"
proof -
  have l: "load_quiz_questions f = v" using assms(1) by (simp add: load_quiz_questions_def)
  show ?thesis
    using assms(2,3) unfolding quiz_start_game_def l
    by (cases v) (auto simp: show_next_question_def py_index_def py_norm_index_def split: option.splits)
qed

theorem quiz_malformed_start_witness:
  "\<exists>e t. quiz_start_game (FileJson (JObject [(''question'', JStr ''q''), (''answer'', JStr ''a'')])) quiz_created = Inl (e, t)"
proof -
  let ?v = "JObject [(''question'', JStr ''q''), (''answer'', JStr ''a'')]"
  have "FileJson ?v = FileJson ?v" "py_truthy ?v" "\<forall>qs. ?v \<noteq> JList qs" by simp_all
  from quiz_malformed_start [OF this] show ?thesis .
qed

text \<open>
  C34 (error).  With no questions (a missing or unreadable file, an empty
  list, or any value that is false in Python) the page shows "No questions
  loaded" and disables Submit, but leaves the answer entry enabled.
\<close>

theorem quiz_empty_start:
  assumes "\<not> py_truthy (load_quiz_questions f)"
  shows "\<exists>t. quiz_start_game f s = Inr t \<and> qz_question_label t = QZ_NoQuestions \<and>
             \<not> qz_submit_enabled t \<and> qz_entry_enabled t"
  using assms by (simp add: quiz_start_game_def)

theorem quiz_empty_start_witness:
  "qz_entry_enabled (tk_state (quiz_start_game FileMissing quiz_created))"
proof -
  have "\<not> py_truthy (load_quiz_questions FileMissing)" by (simp add: load_quiz_questions_def)
  from quiz_empty_start [OF this, of quiz_created] show ?thesis by auto
qed

text \<open>
  The double Submit on the three-question file: the entry still holds
  "paris" when Submit is pressed again, so the second question is graded
  against it and, after the two pending callbacks fire, the third question
  is shown; the second is never displayed.
\<close>

lemma quiz_double_submit_skips:
  "qz_question_label (foldl quiz_step (tk_state (quiz_start_game qz_three quiz_created))
      [QZ_Type ''paris'', QZ_Submit, QZ_Submit, QZ_Timer]) = QZ_Question 3 (JStr ''The red planet?'') \<and>
   qz_question_label (foldl quiz_step (tk_state (quiz_start_game qz_three quiz_created))
      [QZ_Type ''paris'', QZ_Submit, QZ_Submit]) = QZ_Question 1 (JStr ''Capital of France?'') \<and>
   qz_score (foldl quiz_step (tk_state (quiz_start_game qz_three quiz_created))
      [QZ_Type ''paris'', QZ_Submit, QZ_Submit, QZ_Timer, QZ_Timer]) = 1"
  by code_simp

end
