(* ===== verification/AppHost.thy ===== *)
theory AppHost
  imports TicTacToe NumberGuessing Hangman RockPaperScissors HigherOrLower DiceRolling Quiz
begin

text \<open>
  The application window, class \<^verbatim>\<open>GameApp\<close>, and the main menu, class
  \<^verbatim>\<open>MainMenu\<close>, of \<^verbatim>\<open>src/games_gui.py\<close>.  \<^verbatim>\<open>GameApp.__init__\<close> builds
  the eight pages in order, registers them by class name in
  \<^verbatim>\<open>self.frames\<close> and grids them into the same cell, so that they are
  stacked in creation order; \<^verbatim>\<open>show_frame\<close> raises one page to the top
  with \<^verbatim>\<open>tkraise\<close>.  The model keeps the stacking order as a list of page
  names (bottom first), the registered names, whether the main loop still
  runs, and the state of each of the seven game pages.  A user event reaches
  only the page on top; a pending \<^verbatim>\<open>after\<close> callback of the quiz fires
  whichever page is on top.
\<close>

record app_state =
  app_frames :: "string list"
  app_stack :: "string list"
  app_running :: bool
  app_ng :: ng_state
  app_hm :: hm_state
  app_rps :: rps_state
  app_hol :: hol_state
  app_dr :: dr_state
  app_qz :: quiz_state
  app_ttt :: ttt_state

subsection \<open>Operations\<close>

definition app_page_names :: "string list" where
  "app_page_names =
     [''MainMenu'', ''NumberGuessingGUI'', ''WordGuessingGUI'', ''RockPaperScissorsGUI'',
      ''HigherOrLowerGUI'', ''DiceRollingGUI'', ''QuizGameGUI'', ''TicTacToeGUI'']"

text \<open>The menu's game list: button text and the frame its button raises.\<close>

definition menu_games :: "(string \<times> string) list" where
  "menu_games =
     [(''1. Number Guessing Game'', ''NumberGuessingGUI''),
      (''2. Word Guessing (Hangman)'', ''WordGuessingGUI''),
      (''3. Rock-Paper-Scissors'', ''RockPaperScissorsGUI''),
      (''4. Higher or Lower (1-100)'', ''HigherOrLowerGUI''),
      (''5. Dice Rolling (Betting)'', ''DiceRollingGUI''),
      (''6. Quiz Game'', ''QuizGameGUI''),
      (''7. Tic-Tac-Toe (2-Player)'', ''TicTacToeGUI'')]"

text \<open>\<^verbatim>\<open>show_frame\<close>: the dictionary lookup raises KeyError for an unknown name.\<close>

definition show_frame :: "string \<Rightarrow> app_state \<Rightarrow> app_state py_result" where
  "show_frame name a =
     (if name \<in> set (app_frames a)
      then Inr (a\<lparr>app_stack := remove1 name (app_stack a) @ [name]\<rparr>)
      else Inl KeyError)"

text \<open>
  \<^verbatim>\<open>GameApp.__init__\<close> with the outcomes of the constructors' random draws
  and file reads: the number guessing target, the hangman word file and
  choice, the higher-or-lower target and the quiz file.  An exception in a
  page constructor escapes \<^verbatim>\<open>GameApp()\<close>: the application does not start.
\<close>

definition app_init :: "int \<Rightarrow> file_src \<Rightarrow> nat \<Rightarrow> int \<Rightarrow> file_src \<Rightarrow> app_state py_result" where
  "app_init r_ng f_hm k_hm r_hol f_qz =
     (case hm_start_game f_hm k_hm hm_created of
        Inl (e, _) \<Rightarrow> Inl e
      | Inr hm \<Rightarrow>
          (case quiz_start_game f_qz quiz_created of
             Inl (e, _) \<Rightarrow> Inl e
           | Inr qz \<Rightarrow>
               show_frame ''MainMenu''
                 \<lparr>app_frames = app_page_names, app_stack = app_page_names, app_running = True,
                  app_ng = ng_init r_ng, app_hm = hm, app_rps = rps_created,
                  app_hol = hol_start_game r_hol hol_created, app_dr = dr_created, app_qz = qz,
                  app_ttt = ttt_init\<rparr>))"

definition app_visible :: "app_state \<Rightarrow> string" where
  "app_visible a = last (app_stack a)"

text \<open>
  The application's events: a menu button, Exit, a page's Back to Menu
  button, and the events of each page.
\<close>

datatype app_event =
    App_Menu string
  | App_Exit
  | App_Back
  | App_NG ng_event
  | App_HM hm_event
  | App_RPS rps_event
  | App_HOL hol_event
  | App_DR dr_event
  | App_QZ quiz_event
  | App_TTT ttt_event

definition app_raise :: "string \<Rightarrow> app_state \<Rightarrow> app_state" where
  "app_raise name a = (case show_frame name a of Inl _ \<Rightarrow> a | Inr a' \<Rightarrow> a')"

text \<open>
  Back to Menu: every page's button calls \<^verbatim>\<open>show_frame("MainMenu")\<close>, the
  hangman page after disabling its letters.
\<close>

definition app_back :: "app_state \<Rightarrow> app_state" where
  "app_back a =
     (if app_visible a = ''MainMenu'' then a
      else if app_visible a = ''WordGuessingGUI''
      then app_raise ''MainMenu'' (a\<lparr>app_hm := hm_back (app_hm a)\<rparr>)
      else app_raise ''MainMenu'' a)"

fun app_step :: "app_state \<Rightarrow> app_event \<Rightarrow> app_state" where
  "app_step a e =
     (if \<not> app_running a then a
      else case e of
        App_Menu name \<Rightarrow> (if app_visible a = ''MainMenu'' then app_raise name a else a)
      | App_Exit \<Rightarrow> (if app_visible a = ''MainMenu'' then a\<lparr>app_running := False\<rparr> else a)
      | App_Back \<Rightarrow> app_back a
      | App_NG ev \<Rightarrow> (if app_visible a = ''NumberGuessingGUI'' then a\<lparr>app_ng := ng_step (app_ng a) ev\<rparr> else a)
      | App_HM ev \<Rightarrow> (if app_visible a = ''WordGuessingGUI'' then a\<lparr>app_hm := hm_step (app_hm a) ev\<rparr> else a)
      | App_RPS ev \<Rightarrow> (if app_visible a = ''RockPaperScissorsGUI'' then a\<lparr>app_rps := rps_step (app_rps a) ev\<rparr> else a)
      | App_HOL ev \<Rightarrow> (if app_visible a = ''HigherOrLowerGUI'' then a\<lparr>app_hol := hol_step (app_hol a) ev\<rparr> else a)
      | App_DR ev \<Rightarrow> (if app_visible a = ''DiceRollingGUI'' then a\<lparr>app_dr := dr_step (app_dr a) ev\<rparr> else a)
      | App_QZ ev \<Rightarrow>
          (if app_visible a = ''QuizGameGUI'' \<or> ev = QZ_Timer then a\<lparr>app_qz := quiz_step (app_qz a) ev\<rparr> else a)
      | App_TTT ev \<Rightarrow> (if app_visible a = ''TicTacToeGUI'' then a\<lparr>app_ttt := ttt_step (app_ttt a) ev\<rparr> else a))"

fun app_ok :: "app_event \<Rightarrow> bool" where
  "app_ok (App_Menu name) = (name \<in> snd ` set menu_games)"
| "app_ok (App_NG ev) = ng_ok ev"
| "app_ok (App_HOL ev) = hol_ok ev"
| "app_ok (App_DR ev) = dr_ok ev"
| "app_ok _ = True"

definition app_start :: "app_state \<Rightarrow> bool" where
  "app_start a = (\<exists>r_ng f_hm k_hm r_hol f_qz. 1 \<le> r_ng \<and> r_ng \<le> 10 \<and> 1 \<le> r_hol \<and> r_hol \<le> 100 \<and>
                    app_init r_ng f_hm k_hm r_hol f_qz = Inr a)"

abbreviation app_reachable :: "app_state \<Rightarrow> bool" where
  "app_reachable \<equiv> reach app_step app_ok app_start"

text \<open>Every page state other than that of page \<open>p\<close> is the same in \<open>a\<close> and \<open>b\<close>.\<close>

definition app_same_except :: "string \<Rightarrow> app_state \<Rightarrow> app_state \<Rightarrow> bool" where
  "app_same_except p a b \<longleftrightarrow>
     (p \<noteq> ''NumberGuessingGUI'' \<longrightarrow> app_ng b = app_ng a) \<and>
     (p \<noteq> ''WordGuessingGUI'' \<longrightarrow> app_hm b = app_hm a) \<and>
     (p \<noteq> ''RockPaperScissorsGUI'' \<longrightarrow> app_rps b = app_rps a) \<and>
     (p \<noteq> ''HigherOrLowerGUI'' \<longrightarrow> app_hol b = app_hol a) \<and>
     (p \<noteq> ''DiceRollingGUI'' \<longrightarrow> app_dr b = app_dr a) \<and>
     (p \<noteq> ''QuizGameGUI'' \<longrightarrow> app_qz b = app_qz a) \<and>
     (p \<noteq> ''TicTacToeGUI'' \<longrightarrow> app_ttt b = app_ttt a)"

definition app_inv :: "app_state \<Rightarrow> bool" where
  "app_inv a \<longleftrightarrow> app_frames a = app_page_names \<and> distinct (app_stack a) \<and>
                  set (app_stack a) = set app_page_names"

subsection \<open>Lemmas\<close>

lemma menu_games_registered: "snd ` set menu_games \<subseteq> set app_page_names"
  by (simp add: menu_games_def app_page_names_def)

lemma app_raise_inv:
  assumes "app_inv a" and "name \<in> set app_page_names"
  shows "app_inv (app_raise name a) \<and> app_visible (app_raise name a) = name"
  using assms by (auto simp: app_raise_def show_frame_def app_inv_def app_visible_def distinct_remove1)

lemma app_raise_pages [simp]:
  "app_ng (app_raise n a) = app_ng a" "app_hm (app_raise n a) = app_hm a"
  "app_rps (app_raise n a) = app_rps a" "app_hol (app_raise n a) = app_hol a"
  "app_dr (app_raise n a) = app_dr a" "app_qz (app_raise n a) = app_qz a"
  "app_ttt (app_raise n a) = app_ttt a" "app_running (app_raise n a) = app_running a"
  "app_frames (app_raise n a) = app_frames a"
  by (simp_all add: app_raise_def show_frame_def split: sum.split)

lemma app_init_Inr:
  assumes "hm_start_game f_hm k_hm hm_created = Inr hm" and "quiz_start_game f_qz quiz_created = Inr qz"
  shows "app_init r_ng f_hm k_hm r_hol f_qz =
     Inr \<lparr>app_frames = app_page_names, app_stack = remove1 ''MainMenu'' app_page_names @ [''MainMenu''],
          app_running = True, app_ng = ng_init r_ng, app_hm = hm, app_rps = rps_created,
          app_hol = hol_start_game r_hol hol_created, app_dr = dr_created, app_qz = qz,
          app_ttt = ttt_init\<rparr>"
  using assms by (simp add: app_init_def show_frame_def app_page_names_def)

lemma app_start_init:
  "1 \<le> r_ng \<Longrightarrow> r_ng \<le> 10 \<Longrightarrow> 1 \<le> r_hol \<Longrightarrow> r_hol \<le> 100 \<Longrightarrow>
   app_init r_ng f_hm k_hm r_hol f_qz = Inr a \<Longrightarrow> app_start a"
  unfolding app_start_def by blast

lemma app_inv_init: "app_init r_ng f_hm k_hm r_hol f_qz = Inr a \<Longrightarrow> app_inv a"
  by (auto simp: app_init_def show_frame_def app_inv_def app_page_names_def
           split: sum.splits prod.splits if_splits)

lemma app_inv_step:
  assumes inv: "app_inv a" and ok: "app_ok e"
  shows "app_inv (app_step a e)"
proof (cases e)
  case (App_Menu name)
  with ok menu_games_registered have "name \<in> set app_page_names" by auto
  from app_raise_inv [OF inv this] have "app_inv (app_raise name a)" by blast
  with inv App_Menu show ?thesis by simp
next
  case App_Back
  have m: "''MainMenu'' \<in> set app_page_names" by (simp add: app_page_names_def)
  have "app_inv (app_raise ''MainMenu'' b)" if "app_inv b" for b using app_raise_inv [OF that m] by blast
  moreover have "app_inv (a\<lparr>app_hm := h\<rparr>)" for h using inv by (simp add: app_inv_def)
  ultimately show ?thesis using inv App_Back by (simp add: app_back_def)
qed (use inv in \<open>simp_all add: app_inv_def\<close>)

lemma app_reachable_inv: "app_reachable a \<Longrightarrow> app_inv a"
proof (erule reach_invariant)
  fix s assume "app_start s"
  then show "app_inv s" using app_inv_init by (auto simp: app_start_def)
next
  fix s e assume "app_inv s" "app_ok e"
  then show "app_inv (app_step s e)" by (rule app_inv_step)
qed

lemma app_back_running [simp]: "app_running (app_back a) = app_running a"
  by (simp add: app_back_def)

lemma app_step_running:
  assumes "app_running a"
  shows "app_step a App_Back = app_back a"
    and "app_step a (App_Menu n) = (if app_visible a = ''MainMenu'' then app_raise n a else a)"
  using assms by simp_all

lemma app_inv_visible: "app_inv a \<Longrightarrow> app_visible a \<in> set app_page_names"
proof -
  assume "app_inv a"
  then have st: "set (app_stack a) = set app_page_names" by (simp add: app_inv_def)
  have "''MainMenu'' \<in> set (app_stack a)" using st by (simp add: app_page_names_def)
  then have "app_stack a \<noteq> []" by auto
  then have "last (app_stack a) \<in> set (app_stack a)" by (rule last_in_set)
  then show "app_visible a \<in> set app_page_names" using st by (simp add: app_visible_def)
qed

lemma app_menu_show_frame:
  assumes "app_inv a" and "name \<in> snd ` set menu_games"
  shows "\<exists>b. show_frame name a = Inr b \<and> app_visible b = name"
proof -
  have "name \<in> set (app_frames a)" using assms menu_games_registered by (auto simp: app_inv_def)
  then show ?thesis by (simp add: show_frame_def app_visible_def)
qed

lemma app_menu_not_main: "p \<in> snd ` set menu_games \<Longrightarrow> p \<noteq> ''MainMenu''"
  by (auto simp: menu_games_def)

lemma app_back_step:
  assumes "app_running a" and "app_visible a = p" and "p \<noteq> ''MainMenu''"
  shows "app_step a App_Back =
      (if p = ''WordGuessingGUI'' then app_raise ''MainMenu'' (a\<lparr>app_hm := hm_back (app_hm a)\<rparr>)
       else app_raise ''MainMenu'' a)"
  using assms by (simp add: app_back_def)

lemma app_back_inv:
  assumes "app_inv a" and "app_running a" and "app_visible a \<noteq> ''MainMenu''"
  shows "app_inv (app_step a App_Back) \<and> app_visible (app_step a App_Back) = ''MainMenu'' \<and>
         app_running (app_step a App_Back)"
proof -
  have m: "''MainMenu'' \<in> set app_page_names" by (simp add: app_page_names_def)
  have i': "app_inv (a\<lparr>app_hm := h\<rparr>)" for h using assms(1) by (simp add: app_inv_def)
  show ?thesis using app_raise_inv [OF assms(1) m] app_raise_inv [OF i' m] assms(2,3)
    by (simp add: app_back_def)
qed

text \<open>From here on \<open>app_step\<close> is unfolded only on request.\<close>

declare app_step.simps [simp del]

end
