(* ===== verification/Spec2Isabelle.thy ===== *)
theory Spec2Isabelle
  imports PyStr Loaders TicTacToe NumberGuessing Hangman RockPaperScissors HigherOrLower DiceRolling
    Quiz AppHost
begin

text \<open>
  \<^bold>\<open>A verification development of \<^verbatim>\<open>src/games_gui.py\<close>.\<close>
  The program is one Tkinter application.  Its window, \<^verbatim>\<open>GameApp\<close>, builds
  eight pages (the main menu and seven game pages), stacks them in one grid
  cell and raises one of them at a time with \<^verbatim>\<open>show_frame\<close>; each game
  page holds its own state, changed only by the callbacks of its own
  widgets.  Two loaders at the top of the file read the hangman word list and
  the quiz questions from JSON files.

  \<^medskip>\<^bold>\<open>How the model is built.\<close>
  Each page is a \<^theory_text>\<open>record\<close> of its attributes and of the widget
  state its code reads or sets (label texts as datatypes of messages, entry
  texts, enabled flags, the game logs as message lists).  Each method is a
  function on that record; a method that can raise returns a
  \<open>'s tk_result\<close> (theory \<open>Prelude\<close>): Tk reports an exception escaping a
  callback and the program goes on with the state mutated before the
  raise, so the error is a value together with that state.  Random draws
  (\<^verbatim>\<open>random.randint\<close>, \<^verbatim>\<open>random.choice\<close>) and file reads are arguments of
  the methods; the event of a page carries them, and an admissibility
  test \<open>ok\<close> keeps the draws in the generator's range.  Tk runs a widget's
  command only while the widget is enabled; each page's step function
  encodes that.  Python's \<^verbatim>\<open>int()\<close>, \<^verbatim>\<open>str.strip\<close>, \<^verbatim>\<open>str.lower\<close>, list
  indexing and the operations on decoded JSON values are modelled as
  CPython defines them (theories \<open>Prelude\<close>, \<open>PyStr\<close>, \<open>Loaders\<close>).  The
  reachable states of a page are the inductive \<open>reach\<close> of its step
  function from the states its constructor produces.

  \<^medskip>\<^bold>\<open>Theories and the code they model.\<close>
  \<^item> \<open>Prelude\<close>: exceptions, callback results, Python indexing,
    \<^verbatim>\<open>random.choice\<close>, \<^verbatim>\<open>sep.join\<close>, the predicate \<open>reach\<close>, shared list facts.
  \<^item> \<open>PyStr\<close>: \<^verbatim>\<open>int(s)\<close> (sign, underscores, whitespace, the 4300-digit
    limit of CPython 3.11+), \<^verbatim>\<open>str(n)\<close>, \<^verbatim>\<open>strip\<close>, \<^verbatim>\<open>lower\<close>; the round
    trip \<open>int(str(i)) = i\<close>.
  \<^item> \<open>Loaders\<close>: \<^verbatim>\<open>load_hangman_words\<close>, \<^verbatim>\<open>load_quiz_questions\<close> (lines
    9-55) over the outcome of reading the file; Python's truth value,
    \<^verbatim>\<open>len\<close> and indexing of decoded values.
  \<^item> \<open>NumberGuessing\<close>: \<^verbatim>\<open>NumberGuessingGUI\<close> (lines 119-220).
  \<^item> \<open>Hangman\<close>: \<^verbatim>\<open>WordGuessingGUI\<close> (lines 224-347).
  \<^item> \<open>RockPaperScissors\<close>: \<^verbatim>\<open>RockPaperScissorsGUI\<close> (lines 350-441) and an
    abstract first-to-3 game it refines.
  \<^item> \<open>HigherOrLower\<close>: \<^verbatim>\<open>HigherOrLowerGUI\<close> (lines 444-538).
  \<^item> \<open>DiceRolling\<close>: \<^verbatim>\<open>DiceRollingGUI\<close> (lines 541-652).
  \<^item> \<open>Quiz\<close>: \<^verbatim>\<open>QuizGameGUI\<close> (lines 655-750), with the queue of callbacks
    scheduled by \<^verbatim>\<open>after(1000, ...)\<close> that the Tk loop fires as events
    of their own, interleaved with user events in any order.
  \<^item> \<open>TicTacToe\<close>: \<^verbatim>\<open>TicTacToeGUI\<close> (lines 753-860).
  \<^item> \<open>AppHost\<close>: \<^verbatim>\<open>GameApp\<close> and \<^verbatim>\<open>MainMenu\<close> (lines 58-116): the page
    registry, the stacking order changed by \<^verbatim>\<open>show_frame\<close>, Exit, and the
    routing of events to the page on top.

  \<^medskip>\<^bold>\<open>What is proved.\<close>
  For every page: an invariant of its reachable states (board and marks,
  scores and bounds, attempts, enabled controls agreeing with the state),
  the behaviour of each handler on every branch (valid input, rejected
  input, the exception paths), termination of a round by a measure that
  each effective event decreases (tic-tac-toe moves left, hangman enabled
  letters, number guessing attempts), and that a game ends (tic-tac-toe on
  a completed line or a full board, rock-paper-scissors within three
  presses).  Rock-paper-scissors refines an abstract game; the hangman mask
  equals a reference rendering; a bisecting player wins higher-or-lower
  within seven guesses although attempts are not capped; a well-formed
  quiz file makes every quiz handler exception-free in any interleaving
  with the timer.  At the level of the application: the pages always form
  one stack with exactly one page on top, every menu button raises a
  registered page, and leaving a page and returning to it keeps its state
  except for hangman.  Error claims are stated on the file the loader
  reads (missing, unreadable, or decoding to a given value), so that they
  go through the loader's code.

  \<^medskip>\<^bold>\<open>What modelling showed.\<close>
  The quiz leaves Submit enabled during the delay before the next
  question, so a second Submit grades the next question with the same text
  and that question is never shown (\<open>Quiz.quiz_double_submit_skips\<close>).
  The quiz loader returns any decoded value, and a non-list true value
  makes \<^verbatim>\<open>start_game\<close> raise; with no questions the answer entry stays
  enabled.  A hangman word file holding the single word "ERROR" is taken
  for the loader's failure sentinel (\<open>Hangman.hm_sentinel_collision\<close>),
  and an empty word starts a round in which no letter can be pressed
  (\<open>Hangman.hm_empty_word_stuck\<close>).  Two docstrings disagree with the
  code: hangman's \<^verbatim>\<open>back_to_menu\<close> says it resets the game but only
  disables the letters (\<open>Hangman.hm_back_freezes_round\<close>), and
  higher-or-lower's \<^verbatim>\<open>end_game\<close> says it updates the status but leaves
  the attempt count shown (\<open>HigherOrLower.hol_valid_guess\<close>).  The menu's
  branch for an unimplemented game is dead code, since every entry names a
  registered page.

  \<^medskip>\<^bold>\<open>Bounds and fuel.\<close>
  No definition uses fuel: every loop of the code is a structural
  recursion.  The one bound chosen is the seven guesses of
  \<open>hol_bisect\<close>: \<open>2 ^ 7 = 128 > 100\<close> values, which the proof uses
  through the invariant that the range still possible has fewer than
  \<open>2 ^ n\<close> values with \<open>n\<close> guesses left.

  \<^medskip>\<^bold>\<open>Not modelled.\<close>
  Layout, fonts, colours, the scrolling of log widgets and the emoji in
  label texts: presentation only, no effect on the state (labels are
  datatypes naming the message and its numbers).  The file system and the
  JSON decoder: a loader sees the outcome of reading its file.  The timing
  of \<^verbatim>\<open>after(1000, ...)\<close>: only the order of callbacks and user events
  matters to the page, and every order is admitted.  The process exit of
  \<^verbatim>\<open>quit\<close> beyond stopping the event loop.
\<close>

subsection \<open>Properties of the application\<close>

text \<open>
  The application as it starts with the number guessing target 5, the
  one-word hangman file, the higher-or-lower target 37 and the
  three-question quiz file.
\<close>

definition app_demo :: app_state where
  "app_demo = projr (app_init 5 hm_cat_file 0 37 qz_three)"

lemma app_demo_start:
  "app_reachable app_demo \<and> app_running app_demo \<and> app_visible app_demo = ''MainMenu''"
proof -
  have h: "hm_start_game hm_cat_file 0 hm_created = Inr (tk_state (hm_start_game hm_cat_file 0 hm_created))"
    by (rule tk_state_Inr) code_simp
  have q: "quiz_start_game qz_three quiz_created = Inr (tk_state (quiz_start_game qz_three quiz_created))"
    by (rule tk_state_Inr) code_simp
  note i = app_init_Inr [OF h q, of 5 37]
  have "app_start app_demo" by (rule app_start_init [of 5 37 hm_cat_file 0 qz_three]) (simp_all add: app_demo_def i)
  then show ?thesis by (simp add: reach_init app_demo_def i app_visible_def)
qed

text \<open>
  C13 (invariant).  In every reachable state of the application the eight
  pages form one stack without duplicates, so exactly one registered page
  is on top, and every button of the main menu raises a registered page
  without a KeyError.
\<close>

theorem app_one_visible_page:
  assumes "app_reachable a"
  shows "distinct (app_stack a) \<and> set (app_stack a) = set app_page_names \<and>
         app_visible a \<in> set app_page_names \<and>
         (\<forall>name \<in> snd ` set menu_games. \<exists>b. show_frame name a = Inr b \<and> app_visible b = name)"
  using app_reachable_inv [OF assms] app_inv_visible app_menu_show_frame
  by (intro conjI ballI) (simp_all add: app_inv_def)

theorem app_one_visible_page_witness:
  "\<exists>b. show_frame ''QuizGameGUI'' app_demo = Inr b \<and> app_visible b = ''QuizGameGUI''"
proof -
  have m: "''QuizGameGUI'' \<in> snd ` set menu_games" by (simp add: menu_games_def)
  have "\<forall>name \<in> snd ` set menu_games. \<exists>b. show_frame name app_demo = Inr b \<and> app_visible b = name"
    using app_one_visible_page [OF conjunct1 [OF app_demo_start]] by (elim conjE)
  from bspec [OF this m] show ?thesis .
qed

text \<open>
  C20 (functional).  Leaving a game page with Back to Menu and reopening it
  from the menu brings the same page back on top with the state of every
  page unchanged, except that the hangman page has its letters disabled:
  \<^verbatim>\<open>back_to_menu\<close>, whose docstring says it resets the game, keeps the
  round and only disables the letters.
\<close>

theorem app_back_and_return:
  assumes "app_reachable a" and "app_running a" and "app_visible a = p" and "p \<in> snd ` set menu_games"
  shows "app_visible (foldl app_step a [App_Back, App_Menu p]) = p \<and>
         app_same_except ''WordGuessingGUI'' a (foldl app_step a [App_Back, App_Menu p]) \<and>
         app_hm (foldl app_step a [App_Back, App_Menu p]) =
           (if p = ''WordGuessingGUI'' then hm_back (app_hm a) else app_hm a)"
proof -
  have inv: "app_inv a" by (rule app_reachable_inv [OF assms(1)])
  have p1: "p \<in> set app_page_names" using assms(4) menu_games_registered by blast
  have p2: "p \<noteq> ''MainMenu''" using assms(4) by (rule app_menu_not_main)
  note b = app_back_step [OF assms(2,3) p2]
  have bi: "app_inv (app_step a App_Back) \<and> app_visible (app_step a App_Back) = ''MainMenu'' \<and>
            app_running (app_step a App_Back)"
    using app_back_inv [OF inv assms(2)] assms(3) p2 by simp
  have "foldl app_step a [App_Back, App_Menu p] = app_raise p (app_step a App_Back)"
    using bi app_step_running(2) [of "app_step a App_Back" p] by simp
  moreover have "app_same_except ''WordGuessingGUI'' a (app_raise p (app_step a App_Back)) \<and>
      app_hm (app_raise p (app_step a App_Back)) =
        (if p = ''WordGuessingGUI'' then hm_back (app_hm a) else app_hm a)"
    using b by (simp add: app_same_except_def)
  ultimately show ?thesis using app_raise_inv [OF conjunct1 [OF bi] p1] by simp
qed

theorem app_back_and_return_witness:
  "app_visible (foldl app_step (app_step app_demo (App_Menu ''QuizGameGUI'')) [App_Back, App_Menu ''QuizGameGUI''])
     = ''QuizGameGUI''"
proof -
  note d = app_demo_start
  have ok: "app_ok (App_Menu ''QuizGameGUI'')" and q: "''QuizGameGUI'' \<in> set app_page_names"
    and m: "''QuizGameGUI'' \<in> snd ` set menu_games"
    by (simp_all add: menu_games_def app_page_names_def)
  from conjunct1 [OF d] ok have r: "app_reachable (app_step app_demo (App_Menu ''QuizGameGUI''))"
    by (rule reach_step)
  have s: "app_step app_demo (App_Menu ''QuizGameGUI'') = app_raise ''QuizGameGUI'' app_demo"
    using d app_step_running(2) [of app_demo "''QuizGameGUI''"] by simp
  have v: "app_running (app_step app_demo (App_Menu ''QuizGameGUI''))"
    "app_visible (app_step app_demo (App_Menu ''QuizGameGUI'')) = ''QuizGameGUI''"
    using s d app_raise_inv [OF app_reachable_inv [OF conjunct1 [OF d]] q] by simp_all
  from app_back_and_return [OF r v m] show ?thesis by simp
qed

end
